(* ===== verification/Go_Prelude.thy ===== *)
theory Go_Prelude
  imports Main "HOL-Library.AList" "HOL-Library.Sublist" "HOL-Library.List_Lexorder"
    "HOL-Library.Char_ord" "HOL-Library.Multiset"
begin

text \<open>
  The part of the Go language and of its standard library that the operator uses, and the
  generic lemmas the components share.

  \<^item> Go strings are byte strings: HOL's \<open>string\<close> (a list of 8-bit characters).  The functions
    of package \<open>strings\<close>, \<open>strconv\<close>, \<open>sort\<close> and \<open>slices\<close> that the sources call are defined
    here; case mapping and white space are those of ASCII.
  \<^item> A Go map is an association list with distinct keys.  Its order is the order in which a
    \<open>range\<close> loop happens to visit the keys, so "does not depend on Go's random iteration
    order" is a statement about two lists with the same lookup function (\<open>same_map\<close>).
    A nil map is the empty list: the sources never tell the two apart.
  \<^item> A Go slice whose nil-ness is observable (it is marshalled) is a \<open>slice\<close>, \<open>None\<close> for nil.
\<close>

named_theorems go_simps "rewrite rules for the string and map functions of the Go library"

section \<open>Strings\<close>

definition HasPrefix :: "string \<Rightarrow> string \<Rightarrow> bool" where
  "HasPrefix s p \<longleftrightarrow> take (length p) s = p"

definition HasSuffix :: "string \<Rightarrow> string \<Rightarrow> bool" where
  "HasSuffix s suf \<longleftrightarrow> length suf \<le> length s \<and> drop (length s - length suf) s = suf"

fun Contains :: "string \<Rightarrow> string \<Rightarrow> bool" where
  "Contains [] sub \<longleftrightarrow> sub = []"
| "Contains (c # cs) sub \<longleftrightarrow> HasPrefix (c # cs) sub \<or> Contains cs sub"

definition ContainsAny :: "string \<Rightarrow> string \<Rightarrow> bool" where
  "ContainsAny s cs \<longleftrightarrow> list_ex (\<lambda>c. c \<in> set cs) s"

definition to_lower_char :: "char \<Rightarrow> char" where
  "to_lower_char c = (let n = of_char c :: nat in
     if 65 \<le> n \<and> n \<le> 90 then char_of (n + 32) else c)"

definition ToLower :: "string \<Rightarrow> string" where
  "ToLower s = map to_lower_char s"

definition is_space :: "char \<Rightarrow> bool" where
  "is_space c \<longleftrightarrow> (let n = of_char c :: nat in n = 32 \<or> 9 \<le> n \<and> n \<le> 13)"

definition TrimSpace :: "string \<Rightarrow> string" where
  "TrimSpace s = rev (dropWhile is_space (rev (dropWhile is_space s)))"

definition TrimSuffix :: "string \<Rightarrow> string \<Rightarrow> string" where
  "TrimSuffix s suf = (if HasSuffix s suf then take (length s - length suf) s else s)"

text \<open>\<open>strings.Join\<close>.\<close>

fun join :: "string \<Rightarrow> string list \<Rightarrow> string" where
  "join sep [] = []"
| "join sep [x] = x"
| "join sep (x # y # zs) = x @ sep @ join sep (y # zs)"

definition nl :: string where
  "nl = [CHR 0x0A]"

definition em_dash :: string where
  \<comment> \<open>U+2014 in UTF-8, as it stands in the sources' messages\<close>
  "em_dash = [CHR 0xE2, CHR 0x80, CHR 0x94]"

text \<open>\<open>%d\<close> and \<open>strconv.Itoa\<close>.\<close>

definition digit :: "nat \<Rightarrow> char" where
  "digit d = char_of (48 + d)"

fun utoa :: "nat \<Rightarrow> string" where
  "utoa n = (if n < 10 then [digit n] else utoa (n div 10) @ [digit (n mod 10)])"

declare utoa.simps [simp del]

lemma utoa_code [code]:
  "utoa n = (if n < 10 then [digit n] else utoa (n div 10) @ [digit (n mod 10)])"
  by (rule utoa.simps)

definition itoa :: "int \<Rightarrow> string" where
  "itoa i = (if i < 0 then ''-'' @ utoa (nat (- i)) else utoa (nat i))"

text \<open>
  \<open>%q\<close>: quotes, with the escapes of \<open>strconv.Quote\<close> on ASCII; the bytes of a printable
  non-ASCII rune stand for themselves.
\<close>

definition hex_digit :: "nat \<Rightarrow> char" where
  "hex_digit d = (if d < 10 then char_of (48 + d) else char_of (87 + d))"

definition quote_char :: "char \<Rightarrow> string" where
  "quote_char c = (let n = of_char c :: nat in
     if n = 34 then [CHR 0x5C, CHR 0x22]
     else if n = 92 then [CHR 0x5C, CHR 0x5C]
     else if n = 7 then CHR 0x5C # ''a''
     else if n = 8 then CHR 0x5C # ''b''
     else if n = 9 then CHR 0x5C # ''t''
     else if n = 10 then CHR 0x5C # ''n''
     else if n = 11 then CHR 0x5C # ''v''
     else if n = 12 then CHR 0x5C # ''f''
     else if n = 13 then CHR 0x5C # ''r''
     else if n < 32 \<or> n = 127 then CHR 0x5C # ''x'' @ [hex_digit (n div 16), hex_digit (n mod 16)]
     else [c])"

definition quote :: "string \<Rightarrow> string" where
  "quote s = [CHR 0x22] @ concat (map quote_char s) @ [CHR 0x22]"

subsection \<open>Facts about the string functions\<close>

lemma HasPrefix_prefix [go_simps]: "HasPrefix s p \<longleftrightarrow> prefix p s"
  by (metis HasPrefix_def append_eq_conv_conj prefix_def append_take_drop_id)

lemma HasSuffix_suffix [go_simps]: "HasSuffix s suf \<longleftrightarrow> suffix suf s"
  unfolding HasSuffix_def suffix_def
  by (metis append_eq_conv_conj append_take_drop_id diff_add_inverse2 le_add2 length_append)

lemma Contains_sublist [go_simps]: "Contains s sub \<longleftrightarrow> sublist sub s"
  by (induction s) (auto simp: HasPrefix_prefix sublist_Cons_right)

lemma ContainsAny_iff [go_simps]: "ContainsAny s cs \<longleftrightarrow> set s \<inter> set cs \<noteq> {}"
  by (auto simp: ContainsAny_def list_ex_iff)

lemma TrimSuffix_append [simp]: "TrimSuffix (s @ suf) suf = s"
  by (simp add: TrimSuffix_def HasSuffix_def)

lemma of_char_digit: "d < 10 \<Longrightarrow> (of_char (digit d) :: nat) = 48 + d"
  by (simp add: digit_def of_char_of)

lemma digit_eq_iff: "a < 10 \<Longrightarrow> b < 10 \<Longrightarrow> digit a = digit b \<longleftrightarrow> a = b"
  by (metis add_left_cancel of_char_digit)

lemma utoa_nonempty [simp]: "utoa n \<noteq> []"
  by (subst utoa.simps) simp

lemma utoa_chars: "c \<in> set (utoa n) \<Longrightarrow> \<exists>d < 10. c = digit d"
proof (induction n rule: utoa.induct)
  case (1 n)
  show ?case
  proof (cases "n < 10")
    case True
    with 1 show ?thesis by (auto simp: utoa.simps [of n])
  next
    case False
    with 1 show ?thesis
      by (auto simp: utoa.simps [of n] intro: exI [of _ "n mod 10"])
  qed
qed

lemma utoa_inject: "utoa m = utoa n \<Longrightarrow> m = n"
proof (induction m arbitrary: n rule: utoa.induct)
  case (1 m)
  show ?case
  proof (cases "m < 10"; cases "n < 10")
    assume "m < 10" "n < 10"
    with "1.prems" show ?thesis
      by (simp add: utoa.simps [of m] utoa.simps [of n] digit_eq_iff)
  next
    assume "m < 10" "\<not> n < 10"
    with "1.prems" show ?thesis
      by (simp add: utoa.simps [of m] utoa.simps [of n] Cons_eq_append_conv)
  next
    assume "\<not> m < 10" "n < 10"
    with "1.prems" show ?thesis
      by (simp add: utoa.simps [of m] utoa.simps [of n] append_eq_Cons_conv)
  next
    assume m: "\<not> m < 10" and n: "\<not> n < 10"
    with "1.prems" have "utoa (m div 10) = utoa (n div 10)" "m mod 10 = n mod 10"
      by (simp_all add: utoa.simps [of m] utoa.simps [of n] digit_eq_iff)
    with 1 m have "m div 10 = n div 10" "m mod 10 = n mod 10" by simp_all
    then show ?thesis by (metis div_mult_mod_eq)
  qed
qed

lemma itoa_nonempty [simp]: "itoa i \<noteq> []"
  by (simp add: itoa_def)

lemma join_append_distrib: "xs \<noteq> [] \<Longrightarrow> join sep (x # xs) = x @ sep @ join sep xs"
  by (cases xs) simp_all

section \<open>Maps\<close>

type_synonym gomap = "(string \<times> string) list"

text \<open>\<open>m[k]\<close> of a \<open>map[string]string\<close>: the zero value when the key is absent.\<close>

definition index :: "(string \<times> string) list \<Rightarrow> string \<Rightarrow> string" where
  "index m k = (case map_of m k of None \<Rightarrow> [] | Some v \<Rightarrow> v)"

definition gm_keys :: "(string \<times> 'v) list \<Rightarrow> string list" where
  "gm_keys m = map fst m"

definition wf_map :: "('k \<times> 'v) list \<Rightarrow> bool" where
  "wf_map m \<longleftrightarrow> distinct (map fst m)"

text \<open>Two iteration orders of the same map.\<close>

definition same_map :: "('k \<times> 'v) list \<Rightarrow> ('k \<times> 'v) list \<Rightarrow> bool" where
  "same_map m m' \<longleftrightarrow> (\<forall>k \<in> set (map fst m) \<union> set (map fst m'). map_of m k = map_of m' k)"

text \<open>\<open>m[k] = v\<close>, and the loop \<open>for k, v := range src { dst[k] = v }\<close>.\<close>

definition put :: "'k \<Rightarrow> 'v \<Rightarrow> ('k \<times> 'v) list \<Rightarrow> ('k \<times> 'v) list" where
  "put k v m = AList.update k v m"

fun putAll :: "('k \<times> 'v) list \<Rightarrow> ('k \<times> 'v) list \<Rightarrow> ('k \<times> 'v) list" where
  "putAll dst [] = dst"
| "putAll dst ((k, v) # src) = putAll (put k v dst) src"

text \<open>The slice of a map's keys, sorted with \<open>sort.Strings\<close>.\<close>

definition sortedKeys :: "(string \<times> 'v) list \<Rightarrow> string list" where
  "sortedKeys m = sort (gm_keys m)"

lemma same_map_iff [go_simps]: "same_map m m' \<longleftrightarrow> map_of m = map_of m'"
proof
  assume eq: "same_map m m'"
  show "map_of m = map_of m'"
  proof
    fix k
    show "map_of m k = map_of m' k"
    proof (cases "k \<in> set (map fst m) \<union> set (map fst m')")
      case True
      with eq show ?thesis unfolding same_map_def by blast
    next
      case False
      then have "map_of m k = None" "map_of m' k = None"
        by (simp_all add: map_of_eq_None_iff)
      then show ?thesis by simp
    qed
  qed
qed (simp add: same_map_def)

lemma same_map_refl [simp]: "same_map m m"
  by (simp add: same_map_def)

lemma map_of_put [simp]: "map_of (put k v m) = (map_of m)(k \<mapsto> v)"
  by (simp add: put_def update_conv')

lemma wf_map_put [simp]: "wf_map m \<Longrightarrow> wf_map (put k v m)"
  by (simp add: wf_map_def put_def distinct_update)

lemma map_of_putAll: "map_of (putAll dst src) = map_of dst ++ map_of (rev src)"
  by (induction dst src rule: putAll.induct)
    (auto simp: map_add_def fun_eq_iff split: option.splits)

lemma wf_map_putAll [simp]: "wf_map dst \<Longrightarrow> wf_map (putAll dst src)"
  by (induction dst src rule: putAll.induct) simp_all

lemma map_of_rev_wf: "wf_map m \<Longrightarrow> map_of (rev m) = map_of m"
  by (metis map_of_eqI map_of_inject_set wf_map_def distinct_rev rev_map set_rev)

lemma map_of_putAll_wf:
  "wf_map src \<Longrightarrow> map_of (putAll dst src) = map_of dst ++ map_of src"
  by (simp add: map_of_putAll map_of_rev_wf)

lemma same_map_keys_mset:
  assumes "wf_map m" "wf_map m'" "map_of m = map_of m'"
  shows "mset (gm_keys m) = mset (gm_keys m')"
proof -
  have "set (map fst m) = set (map fst m')"
    using assms(3) by (metis dom_map_of_conv_image_fst list.set_map)
  with assms(1,2) show ?thesis
    unfolding gm_keys_def wf_map_def by (simp only: set_eq_iff_mset_eq_distinct)
qed

lemma sortedKeys_order_irrelevant:
  assumes "wf_map m" "wf_map m'" "map_of m = map_of m'"
  shows "sortedKeys m = sortedKeys m'"
  using same_map_keys_mset [OF assms] unfolding sortedKeys_def
  by (metis mset_eq_setD mset_sort properties_for_sort sorted_sort)

lemma set_sortedKeys [simp]: "set (sortedKeys m) = fst ` set m"
  by (simp add: sortedKeys_def gm_keys_def)

lemma distinct_sortedKeys: "wf_map m \<Longrightarrow> distinct (sortedKeys m)"
  by (simp add: sortedKeys_def gm_keys_def wf_map_def)

lemma index_mem: "wf_map m \<Longrightarrow> (k, v) \<in> set m \<Longrightarrow> index m k = v"
  by (simp add: index_def wf_map_def)

section \<open>Slices\<close>

type_synonym 'a slice = "'a list option"

definition elems :: "'a slice \<Rightarrow> 'a list" where
  "elems s = (case s of None \<Rightarrow> [] | Some xs \<Rightarrow> xs)"

lemma elems_simps [simp]: "elems None = []" "elems (Some xs) = xs"
  by (simp_all add: elems_def)

text \<open>\<open>slices.Equal\<close>: nil and empty slices are equal.\<close>

definition slices_Equal :: "'a slice \<Rightarrow> 'a slice \<Rightarrow> bool" where
  "slices_Equal a b \<longleftrightarrow> elems a = elems b"

section \<open>Errors\<close>

text \<open>
  A Go error value: what \<open>errors.Is\<close>, \<open>apierrors.IsNotFound\<close> and \<open>meta.IsNoMatchError\<close> can
  see of its chain, and its message.  \<open>fmt.Errorf("...: %w", err)\<close> keeps the former.
\<close>

datatype err_kind =
    PdnsNotFound | PdnsUnreachable | PdnsAlreadyExists
  | KubeNotFound | KubeNoMatch | KubeConflict | KubeAlreadyExists | OtherError

record error =
  err_kind :: err_kind
  err_msg :: string

definition mkErr :: "err_kind \<Rightarrow> string \<Rightarrow> error" where
  "mkErr k m = \<lparr>err_kind = k, err_msg = m\<rparr>"

definition wrapErr :: "string \<Rightarrow> error \<Rightarrow> error" where
  "wrapErr pre e = mkErr (err_kind e) (pre @ '': '' @ err_msg e)"

lemma mkErr_sel [simp]: "err_kind (mkErr k m) = k" "err_msg (mkErr k m) = m"
  by (simp_all add: mkErr_def)

lemma err_kind_wrapErr [simp]: "err_kind (wrapErr pre e) = err_kind e"
  by (simp add: wrapErr_def)

end
