(* ===== verification/Interaction.thy ===== *)
theory Interaction
  imports Go_Prelude
begin

text \<open>
  Programs that call out to an environment.

  A value of \<open>('q, 'r, 'a) io\<close> is a program that issues requests of type \<open>'q\<close>, continues
  with the responses of type \<open>'r\<close> it gets, and ends with a result of type \<open>'a\<close>.  The
  Kubernetes API server, the PowerDNS HTTP API, the event recorder and the random source are
  the environment: they are not code of the repository, so no definition is given for them.

  \<open>exec p tr x\<close> says that \<open>p\<close> can end with \<open>x\<close> after the exchange \<open>tr\<close> of requests and
  responses.  The responses are arbitrary, so a property of every \<open>exec\<close> holds whatever the
  environment answers and whatever other clients do to it between two calls.
  \<open>run h p w\<close> runs \<open>p\<close> against a given handler \<open>h\<close> over a world \<open>w\<close>; every run is an
  \<open>exec\<close> (\<open>run_exec\<close>) and every \<open>exec\<close> is the run against its own script
  (\<open>exec_run_script\<close>).  A program is a well-founded tree: every run ends.
\<close>

datatype ('q, 'r, 'a) io =
    Return 'a
  | Call 'q "'r \<Rightarrow> ('q, 'r, 'a) io"

primrec andThen ::
  "('q, 'r, 'a) io \<Rightarrow> ('a \<Rightarrow> ('q, 'r, 'b) io) \<Rightarrow> ('q, 'r, 'b) io" where
  "andThen (Return x) f = f x"
| "andThen (Call q k) f = Call q (\<lambda>r. andThen (k r) f)"

definition call :: "'q \<Rightarrow> ('q, 'r, 'r) io" where
  "call q = Call q Return"

text \<open>The idiom \<open>if err := ...; err != nil { return err }\<close>.\<close>

definition tryIO ::
  "('q, 'r, 'e + 'a) io \<Rightarrow> ('a \<Rightarrow> ('q, 'r, 'e + 'b) io) \<Rightarrow> ('q, 'r, 'e + 'b) io" where
  "tryIO p f = andThen p (\<lambda>r. case r of Inl e \<Rightarrow> Return (Inl e) | Inr x \<Rightarrow> f x)"

definition mapErr :: "('e \<Rightarrow> 'e) \<Rightarrow> ('q, 'r, 'e + 'a) io \<Rightarrow> ('q, 'r, 'e + 'a) io" where
  "mapErr g p = andThen p (\<lambda>r. case r of Inl e \<Rightarrow> Return (Inl (g e)) | Inr x \<Rightarrow> Return (Inr x))"

text \<open>A \<open>for\<close> loop whose body may fail: it stops at the first error.\<close>

fun forIO :: "('a \<Rightarrow> ('q, 'r, 'e + unit) io) \<Rightarrow> 'a list \<Rightarrow> ('q, 'r, 'e + unit) io" where
  "forIO f [] = Return (Inr ())"
| "forIO f (x # xs) = tryIO (f x) (\<lambda>_. forIO f xs)"

lemma andThen_Return [simp]: "andThen p Return = p"
  by (induction p) simp_all

lemma andThen_assoc: "andThen (andThen p f) g = andThen p (\<lambda>x. andThen (f x) g)"
  by (induction p) simp_all

lemma andThen_call [simp]: "andThen (call q) f = Call q f"
  by (simp add: call_def)

section \<open>Executions\<close>

inductive exec :: "('q, 'r, 'a) io \<Rightarrow> ('q \<times> 'r) list \<Rightarrow> 'a \<Rightarrow> bool" where
  exec_Return: "exec (Return x) [] x"
| exec_Call: "exec (k r) tr x \<Longrightarrow> exec (Call q k) ((q, r) # tr) x"

inductive_simps exec_Return_iff [simp]: "exec (Return y) tr x"
inductive_simps exec_Call_iff: "exec (Call q k) tr x"
lemma ex_sum_iff: "(\<exists>s. P s) \<longleftrightarrow> (\<exists>a. P (Inl a)) \<or> (\<exists>b. P (Inr b))"
  by (metis sum.exhaust)

inductive_cases exec_CallE: "exec (Call q k) tr x"

lemma exec_andThenI:
  assumes "exec p tr y" "exec (f y) tr' x"
  shows "exec (andThen p f) (tr @ tr') x"
  using assms by (induction rule: exec.induct) (auto intro: exec.intros)

lemma exec_andThenD:
  assumes "exec (andThen p f) tr x"
  shows "\<exists>t1 y t2. tr = t1 @ t2 \<and> exec p t1 y \<and> exec (f y) t2 x"
  using assms
proof (induction p arbitrary: tr)
  case (Return y)
  then show ?case by (intro exI [of _ "[]"]) auto
next
  case (Call q k)
  from Call.prems obtain r tr' where tr: "tr = (q, r) # tr'"
    and k: "exec (andThen (k r) f) tr' x"
    by (auto simp: exec_Call_iff)
  have "k r \<in> range k" by simp
  from Call.IH [OF this k] obtain t1 y t2
    where "tr' = t1 @ t2" "exec (k r) t1 y" "exec (f y) t2 x" by blast
  then have "tr = ((q, r) # t1) @ t2" "exec (Call q k) ((q, r) # t1) y" "exec (f y) t2 x"
    using tr by (auto intro: exec_Call)
  then show ?case by blast
qed

lemma exec_andThen_iff:
  "exec (andThen p f) tr x \<longleftrightarrow> (\<exists>t1 y t2. tr = t1 @ t2 \<and> exec p t1 y \<and> exec (f y) t2 x)"
  by (auto dest: exec_andThenD intro: exec_andThenI)

lemma exec_andThenE:
  assumes "exec (andThen p f) tr x"
  obtains t1 y t2 where "tr = t1 @ t2" "exec p t1 y" "exec (f y) t2 x"
  using exec_andThenD [OF assms] by blast

lemma exec_call_iff [simp]: "exec (call q) tr x \<longleftrightarrow> tr = [(q, x)]"
  by (auto simp: call_def exec_Call_iff)

lemma exec_tryIO_iff:
  "exec (tryIO p f) tr x \<longleftrightarrow>
     (\<exists>e. exec p tr (Inl e) \<and> x = Inl e) \<or>
     (\<exists>t1 y t2. tr = t1 @ t2 \<and> exec p t1 (Inr y) \<and> exec (f y) t2 x)"
  by (simp add: tryIO_def exec_andThen_iff ex_sum_iff) blast

lemma exec_tryIOE:
  assumes "exec (tryIO p f) tr x"
  obtains (fail) e where "exec p tr (Inl e)" "x = Inl e"
  | (ok) t1 y t2 where "tr = t1 @ t2" "exec p t1 (Inr y)" "exec (f y) t2 x"
  using assms by (auto simp: exec_tryIO_iff)

lemma exec_mapErr_iff:
  "exec (mapErr g p) tr x \<longleftrightarrow>
     (\<exists>e. exec p tr (Inl e) \<and> x = Inl (g e)) \<or> (\<exists>y. exec p tr (Inr y) \<and> x = Inr y)"
  by (simp add: mapErr_def exec_andThen_iff ex_sum_iff) blast

text \<open>\<open>exec\<close> is deterministic in the responses.\<close>

lemma exec_deterministic:
  "exec p tr x \<Longrightarrow> exec p tr' y \<Longrightarrow> map snd tr = map snd tr' \<Longrightarrow> tr = tr' \<and> x = y"
proof (induction arbitrary: tr' rule: exec.induct)
  case (exec_Return x)
  then show ?case by auto
next
  case (exec_Call k r tr x q)
  from exec_Call.prems obtain t where t: "tr' = (q, r) # t" "exec (k r) t y" "map snd tr = map snd t"
    by (auto simp: exec_Call_iff)
  from exec_Call.IH [OF t(2,3)] t(1) show ?case by simp
qed

section \<open>Running against a handler\<close>

primrec run ::
  "('q \<Rightarrow> 'w \<Rightarrow> 'r \<times> 'w) \<Rightarrow> ('q, 'r, 'a) io \<Rightarrow> 'w \<Rightarrow> 'a \<times> ('q \<times> 'r) list \<times> 'w" where
  "run h (Return x) w = (x, [], w)"
| "run h (Call q k) w =
     (let (r, w') = h q w; (x, tr, w'') = run h (k r) w' in (x, (q, r) # tr, w''))"

lemma run_exec: "run h p w = (x, tr, w') \<Longrightarrow> exec p tr x"
proof (induction p arbitrary: w tr w')
  case (Return y)
  then show ?case by (auto intro: exec.intros)
next
  case (Call q k)
  from Call.prems show ?case
    by (auto simp: Let_def split: prod.splits intro: exec_Call Call.IH)
qed

text \<open>The handler that plays a list of responses, \<open>d\<close> once it is used up.\<close>

fun script :: "'r \<Rightarrow> 'q \<Rightarrow> 'r list \<Rightarrow> 'r \<times> 'r list" where
  "script d q [] = (d, [])"
| "script d q (r # rs) = (r, rs)"

lemma exec_run_script: "exec p tr x \<Longrightarrow> run (script d) p (map snd tr) = (x, tr, [])"
  by (induction rule: exec.induct) simp_all

text \<open>The result and the exchange of a run against a script.\<close>

definition result_of :: "'r \<Rightarrow> ('q, 'r, 'a) io \<Rightarrow> 'r list \<Rightarrow> 'a" where
  "result_of d p rs = fst (run (script d) p rs)"

definition trace_of :: "'r \<Rightarrow> ('q, 'r, 'a) io \<Rightarrow> 'r list \<Rightarrow> ('q \<times> 'r) list" where
  "trace_of d p rs = fst (snd (run (script d) p rs))"

lemma exec_trace_of: "exec p (trace_of d p rs) (result_of d p rs)"
  unfolding result_of_def trace_of_def
  by (rule run_exec [of "script d" p rs _ _ "snd (snd (run (script d) p rs))"]) simp

lemma exec_tl_trace_of:
  "trace_of d p rs \<noteq> [] \<and> hd (trace_of d p rs) = e \<Longrightarrow>
   exec p (e # tl (trace_of d p rs)) (result_of d p rs)"
  using exec_trace_of [of p d rs] by (metis list.collapse)

lemma exec_exists: "\<exists>tr x. exec p tr x"
proof -
  obtain x tr w where "run (script undefined) p [] = (x, tr, w)"
    by (metis prod_cases3)
  then have "exec p tr x" by (rule run_exec)
  then show ?thesis by blast
qed

section \<open>Which requests a program can issue\<close>

primrec calls_only :: "('q \<Rightarrow> bool) \<Rightarrow> ('q, 'r, 'a) io \<Rightarrow> bool" where
  "calls_only P (Return x) \<longleftrightarrow> True"
| "calls_only P (Call q k) \<longleftrightarrow> P q \<and> (\<forall>r. calls_only P (k r))"

named_theorems calls_intros "composition rules for the set of requests a program can issue"

lemma calls_only_exec:
  "exec p tr x \<Longrightarrow> calls_only P p \<Longrightarrow> (q, r) \<in> set tr \<Longrightarrow> P q"
  by (induction rule: exec.induct) auto

lemma calls_onlyI:
  "(\<And>tr x q r. exec p tr x \<Longrightarrow> (q, r) \<in> set tr \<Longrightarrow> P q) \<Longrightarrow> calls_only P p"
proof (induction p)
  case (Return x)
  show ?case by simp
next
  case (Call q k)
  have "P q'" if "exec (k r) tr x" "(q', r') \<in> set tr" for r tr x q' r'
    using that Call.prems [of "(q, r) # tr" x q' r'] by (auto intro: exec_Call)
  then have "calls_only P (k r)" for r by (intro Call.IH) auto
  moreover have "P q"
  proof -
    obtain tr x where "exec (k undefined) tr x" using exec_exists [of "k undefined"] by blast
    then show ?thesis using Call.prems [of "(q, undefined) # tr" x q] by (auto intro: exec_Call)
  qed
  ultimately show ?case by simp
qed

lemma calls_only_andThen [calls_intros]:
  "calls_only P p \<Longrightarrow> (\<And>x. calls_only P (f x)) \<Longrightarrow> calls_only P (andThen p f)"
  by (induction p) simp_all

lemma calls_only_Return [calls_intros]: "calls_only P (Return x)"
  by simp

lemma calls_only_call [calls_intros]: "P q \<Longrightarrow> calls_only P (call q)"
  by (simp add: call_def)

lemma calls_only_tryIO [calls_intros]:
  "calls_only P p \<Longrightarrow> (\<And>x. calls_only P (f x)) \<Longrightarrow> calls_only P (tryIO p f)"
  by (auto simp: tryIO_def intro!: calls_intros split: sum.splits)

lemma calls_only_mapErr [calls_intros]: "calls_only P p \<Longrightarrow> calls_only P (mapErr g p)"
  by (auto simp: mapErr_def intro!: calls_intros split: sum.splits)

lemma calls_only_forIO [calls_intros]:
  "(\<And>x. x \<in> set xs \<Longrightarrow> calls_only P (f x)) \<Longrightarrow> calls_only P (forIO f xs)"
  by (induction xs) (auto intro: calls_intros)

lemma calls_only_if [calls_intros]:
  "(b \<Longrightarrow> calls_only P p) \<Longrightarrow> (\<not> b \<Longrightarrow> calls_only P q) \<Longrightarrow> calls_only P (if b then p else q)"
  by simp

lemma calls_only_case_sum [calls_intros]:
  "(\<And>e. s = Inl e \<Longrightarrow> calls_only P (f e)) \<Longrightarrow> (\<And>x. s = Inr x \<Longrightarrow> calls_only P (g x)) \<Longrightarrow>
   calls_only P (case s of Inl e \<Rightarrow> f e | Inr x \<Rightarrow> g x)"
  by (cases s) simp_all

lemma calls_only_case_option [calls_intros]:
  "(s = None \<Longrightarrow> calls_only P p) \<Longrightarrow> (\<And>x. s = Some x \<Longrightarrow> calls_only P (g x)) \<Longrightarrow>
   calls_only P (case s of None \<Rightarrow> p | Some x \<Rightarrow> g x)"
  by (cases s) simp_all

lemma calls_only_let [calls_intros]: "calls_only P (f x) \<Longrightarrow> calls_only P (let y = x in f y)"
  by simp

lemma calls_only_mono:
  "calls_only P p \<Longrightarrow> (\<And>q. P q \<Longrightarrow> Q q) \<Longrightarrow> calls_only Q p"
  by (induction p) auto

end
