(* ===== verification/Pdns_Types.thy ===== *)
theory Pdns_Types
  imports Interaction
begin

text \<open>
  The data of \<open>internal/pdnsclient/client.go\<close>: the structs the client exchanges with the
  PowerDNS HTTP API, their JSON form, and HTTP requests and replies.

  The JSON value of a struct follows its field tags (names, order, \<open>omitempty\<close>); decoding is
  that of \<open>encoding/json\<close> into a zero struct: unknown members are ignored, \<open>null\<close> leaves a
  field alone, member names match up to ASCII case, the last of several members wins, and a
  value of the wrong type is an error.  The text syntax of JSON is not modelled: a request
  carries the JSON value, and a reply carries the value its body denotes (\<open>None\<close> when the
  body is not JSON).
\<close>

named_theorems pdns_simps "unfolding the wire format"

section \<open>Structs\<close>

record Record =
  rec_Content :: string
  rec_Disabled :: bool

record PdnsRRSet =
  prr_Name :: string
  prr_Type :: string
  prr_TTL :: int
  prr_ChangeType :: string
  prr_Records :: "Record list"

record PdnsZone =
  pz_ID :: string
  pz_Name :: string
  pz_Kind :: string
  pz_Serial :: int
  pz_Masters :: "string slice"
  pz_Nameservers :: "string slice"
  pz_DNSSEC :: bool
  pz_RRSets :: "PdnsRRSet list"

record Cryptokey =
  ck_ID :: int
  ck_KeyType :: string
  ck_Active :: bool
  ck_DS :: "string list"

record ZoneUpdate =
  zu_Kind :: string
  zu_Masters :: "string slice"

section \<open>JSON\<close>

datatype json =
    JNull
  | JBool bool
  | JNum int
  | JStr string
  | JArr "json list"
  | JObj "(string \<times> json) list"

text \<open>A member, dropped by \<open>omitempty\<close> when the field has its zero value.\<close>

definition omitempty :: "bool \<Rightarrow> string \<Rightarrow> json \<Rightarrow> (string \<times> json) list" where
  "omitempty zero n v = (if zero then [] else [(n, v)])"

definition jstrings :: "string list \<Rightarrow> json" where
  "jstrings xs = JArr (map JStr xs)"

definition jslice :: "string slice \<Rightarrow> json" where
  "jslice s = (case s of None \<Rightarrow> JNull | Some xs \<Rightarrow> jstrings xs)"

definition marshal_Record :: "Record \<Rightarrow> json" where
  "marshal_Record r =
     JObj [(''content'', JStr (rec_Content r)), (''disabled'', JBool (rec_Disabled r))]"

definition marshal_RRSet :: "PdnsRRSet \<Rightarrow> json" where
  "marshal_RRSet rr = JObj (
     [(''name'', JStr (prr_Name rr)), (''type'', JStr (prr_Type rr))] @
     omitempty (prr_TTL rr = 0) ''ttl'' (JNum (prr_TTL rr)) @
     omitempty (prr_ChangeType rr = []) ''changetype'' (JStr (prr_ChangeType rr)) @
     omitempty (prr_Records rr = []) ''records'' (JArr (map marshal_Record (prr_Records rr))))"

definition marshal_Zone :: "PdnsZone \<Rightarrow> json" where
  "marshal_Zone z = JObj (
     omitempty (pz_ID z = []) ''id'' (JStr (pz_ID z)) @
     [(''name'', JStr (pz_Name z))] @
     omitempty (pz_Kind z = []) ''kind'' (JStr (pz_Kind z)) @
     omitempty (pz_Serial z = 0) ''serial'' (JNum (pz_Serial z)) @
     omitempty (elems (pz_Masters z) = []) ''masters'' (jslice (pz_Masters z)) @
     [(''nameservers'', jslice (pz_Nameservers z))] @
     omitempty (\<not> pz_DNSSEC z) ''dnssec'' (JBool (pz_DNSSEC z)) @
     omitempty (pz_RRSets z = []) ''rrsets'' (JArr (map marshal_RRSet (pz_RRSets z))))"

definition marshal_Cryptokey :: "Cryptokey \<Rightarrow> json" where
  "marshal_Cryptokey k = JObj (
     omitempty (ck_ID k = 0) ''id'' (JNum (ck_ID k)) @
     omitempty (ck_KeyType k = []) ''keytype'' (JStr (ck_KeyType k)) @
     [(''active'', JBool (ck_Active k))] @
     omitempty (ck_DS k = []) ''ds'' (jstrings (ck_DS k)))"

definition marshal_ZoneUpdate :: "ZoneUpdate \<Rightarrow> json" where
  "marshal_ZoneUpdate u = JObj [(''kind'', JStr (zu_Kind u)), (''masters'', jslice (zu_Masters u))]"

text \<open>The anonymous payload struct of \<open>PatchRRSets\<close>.\<close>

definition marshal_RRSets :: "PdnsRRSet list \<Rightarrow> json" where
  "marshal_RRSets rrs = JObj [(''rrsets'', JArr (map marshal_RRSet rrs))]"

section \<open>Decoding\<close>

definition typeError :: "'a \<Rightarrow> error + 'b" where
  "typeError x = Inl (mkErr OtherError ''json: cannot unmarshal value'')"

definition decode_string :: "string \<Rightarrow> json \<Rightarrow> error + string" where
  "decode_string old v = (case v of JStr s \<Rightarrow> Inr s | JNull \<Rightarrow> Inr old | _ \<Rightarrow> typeError v)"

text \<open>\<open>bits\<close> is the width of the signed target field; a number that does not fit is an error.\<close>

definition decode_int :: "nat \<Rightarrow> int \<Rightarrow> json \<Rightarrow> error + int" where
  "decode_int bits old v =
     (case v of
        JNum n \<Rightarrow> if - (2 ^ (bits - 1)) \<le> n \<and> n < 2 ^ (bits - 1) then Inr n else typeError v
      | JNull \<Rightarrow> Inr old
      | _ \<Rightarrow> typeError v)"

definition decode_bool :: "bool \<Rightarrow> json \<Rightarrow> error + bool" where
  "decode_bool old v = (case v of JBool b \<Rightarrow> Inr b | JNull \<Rightarrow> Inr old | _ \<Rightarrow> typeError v)"

fun decode_all :: "(json \<Rightarrow> error + 'a) \<Rightarrow> json list \<Rightarrow> error + 'a list" where
  "decode_all d [] = Inr []"
| "decode_all d (v # vs) =
     (case d v of Inl e \<Rightarrow> Inl e
      | Inr x \<Rightarrow> (case decode_all d vs of Inl e \<Rightarrow> Inl e | Inr xs \<Rightarrow> Inr (x # xs)))"

text \<open>An array into a slice; \<open>null\<close> makes the slice nil.\<close>

definition decode_slice :: "(json \<Rightarrow> error + 'a) \<Rightarrow> json \<Rightarrow> error + 'a slice" where
  "decode_slice d v =
     (case v of
        JArr vs \<Rightarrow> (case decode_all d vs of Inl e \<Rightarrow> Inl e | Inr xs \<Rightarrow> Inr (Some xs))
      | JNull \<Rightarrow> Inr None
      | _ \<Rightarrow> typeError v)"

definition decode_list :: "(json \<Rightarrow> error + 'a) \<Rightarrow> json \<Rightarrow> error + 'a list" where
  "decode_list d v = (case decode_slice d v of Inl e \<Rightarrow> Inl e | Inr s \<Rightarrow> Inr (elems s))"

text \<open>An object into a struct: the members in turn, each into the field of its name.\<close>

fun decode_members ::
  "(string \<Rightarrow> json \<Rightarrow> 'a \<Rightarrow> error + 'a) \<Rightarrow> (string \<times> json) list \<Rightarrow> 'a \<Rightarrow> error + 'a" where
  "decode_members f [] x = Inr x"
| "decode_members f ((n, v) # ms) x =
     (case f (ToLower n) v x of Inl e \<Rightarrow> Inl e | Inr y \<Rightarrow> decode_members f ms y)"

definition decode_struct ::
  "(string \<Rightarrow> json \<Rightarrow> 'a \<Rightarrow> error + 'a) \<Rightarrow> 'a \<Rightarrow> json \<Rightarrow> error + 'a" where
  "decode_struct f zero v =
     (case v of JObj ms \<Rightarrow> decode_members f ms zero | JNull \<Rightarrow> Inr zero | _ \<Rightarrow> typeError v)"

definition setField :: "('v \<Rightarrow> 'a) \<Rightarrow> error + 'v \<Rightarrow> error + 'a" where
  "setField upd r = (case r of Inl e \<Rightarrow> Inl e | Inr v \<Rightarrow> Inr (upd v))"

definition zeroRecord :: Record where
  "zeroRecord = \<lparr>rec_Content = [], rec_Disabled = False\<rparr>"

definition field_Record :: "string \<Rightarrow> json \<Rightarrow> Record \<Rightarrow> error + Record" where
  "field_Record n v r = (
     if n = ''content'' then setField (\<lambda>s. r\<lparr>rec_Content := s\<rparr>) (decode_string (rec_Content r) v)
     else if n = ''disabled'' then setField (\<lambda>b. r\<lparr>rec_Disabled := b\<rparr>) (decode_bool (rec_Disabled r) v)
     else Inr r)"

definition decode_Record :: "json \<Rightarrow> error + Record" where
  "decode_Record = decode_struct field_Record zeroRecord"

definition zeroPdnsRRSet :: PdnsRRSet where
  "zeroPdnsRRSet =
     \<lparr>prr_Name = [], prr_Type = [], prr_TTL = 0, prr_ChangeType = [], prr_Records = []\<rparr>"

definition field_RRSet :: "string \<Rightarrow> json \<Rightarrow> PdnsRRSet \<Rightarrow> error + PdnsRRSet" where
  "field_RRSet n v r = (
     if n = ''name'' then setField (\<lambda>s. r\<lparr>prr_Name := s\<rparr>) (decode_string (prr_Name r) v)
     else if n = ''type'' then setField (\<lambda>s. r\<lparr>prr_Type := s\<rparr>) (decode_string (prr_Type r) v)
     else if n = ''ttl'' then setField (\<lambda>i. r\<lparr>prr_TTL := i\<rparr>) (decode_int 32 (prr_TTL r) v)
     else if n = ''changetype''
       then setField (\<lambda>s. r\<lparr>prr_ChangeType := s\<rparr>) (decode_string (prr_ChangeType r) v)
     else if n = ''records''
       then setField (\<lambda>xs. r\<lparr>prr_Records := xs\<rparr>) (decode_list decode_Record v)
     else Inr r)"

definition decode_RRSet :: "json \<Rightarrow> error + PdnsRRSet" where
  "decode_RRSet = decode_struct field_RRSet zeroPdnsRRSet"

definition zeroPdnsZone :: PdnsZone where
  "zeroPdnsZone = \<lparr>pz_ID = [], pz_Name = [], pz_Kind = [], pz_Serial = 0, pz_Masters = None,
     pz_Nameservers = None, pz_DNSSEC = False, pz_RRSets = []\<rparr>"

definition field_Zone :: "string \<Rightarrow> json \<Rightarrow> PdnsZone \<Rightarrow> error + PdnsZone" where
  "field_Zone n v z = (
     if n = ''id'' then setField (\<lambda>s. z\<lparr>pz_ID := s\<rparr>) (decode_string (pz_ID z) v)
     else if n = ''name'' then setField (\<lambda>s. z\<lparr>pz_Name := s\<rparr>) (decode_string (pz_Name z) v)
     else if n = ''kind'' then setField (\<lambda>s. z\<lparr>pz_Kind := s\<rparr>) (decode_string (pz_Kind z) v)
     else if n = ''serial'' then setField (\<lambda>i. z\<lparr>pz_Serial := i\<rparr>) (decode_int 64 (pz_Serial z) v)
     else if n = ''masters''
       then setField (\<lambda>s. z\<lparr>pz_Masters := s\<rparr>) (decode_slice (decode_string []) v)
     else if n = ''nameservers''
       then setField (\<lambda>s. z\<lparr>pz_Nameservers := s\<rparr>) (decode_slice (decode_string []) v)
     else if n = ''dnssec'' then setField (\<lambda>b. z\<lparr>pz_DNSSEC := b\<rparr>) (decode_bool (pz_DNSSEC z) v)
     else if n = ''rrsets'' then setField (\<lambda>xs. z\<lparr>pz_RRSets := xs\<rparr>) (decode_list decode_RRSet v)
     else Inr z)"

definition decode_Zone :: "json \<Rightarrow> error + PdnsZone" where
  "decode_Zone = decode_struct field_Zone zeroPdnsZone"

definition zeroCryptokey :: Cryptokey where
  "zeroCryptokey = \<lparr>ck_ID = 0, ck_KeyType = [], ck_Active = False, ck_DS = []\<rparr>"

definition field_Cryptokey :: "string \<Rightarrow> json \<Rightarrow> Cryptokey \<Rightarrow> error + Cryptokey" where
  "field_Cryptokey n v k = (
     if n = ''id'' then setField (\<lambda>i. k\<lparr>ck_ID := i\<rparr>) (decode_int 64 (ck_ID k) v)
     else if n = ''keytype'' then setField (\<lambda>s. k\<lparr>ck_KeyType := s\<rparr>) (decode_string (ck_KeyType k) v)
     else if n = ''active'' then setField (\<lambda>b. k\<lparr>ck_Active := b\<rparr>) (decode_bool (ck_Active k) v)
     else if n = ''ds'' then setField (\<lambda>xs. k\<lparr>ck_DS := xs\<rparr>) (decode_list (decode_string []) v)
     else Inr k)"

definition decode_Cryptokey :: "json \<Rightarrow> error + Cryptokey" where
  "decode_Cryptokey = decode_struct field_Cryptokey zeroCryptokey"

section \<open>HTTP\<close>

record HttpRequest =
  hq_Method :: string
  hq_URL :: string
  hq_Header :: "(string \<times> string) list"
  hq_Body :: "json option"

text \<open>
  What building and sending a request can come to: the URL is refused
  (\<open>http.NewRequestWithContext\<close> fails and nothing is sent), the transport fails, or the
  server answers with a status code, a status line and a body.
\<close>

datatype HttpReply =
    RequestRefused string
  | TransportFailed string
  | HttpReply (reply_StatusCode: int) (reply_Status: string) (reply_Body: string)
      (reply_JSON: "json option")

section \<open>Decoding undoes marshalling\<close>

lemma ToLower_field_names [pdns_simps]:
  "ToLower ''content'' = ''content''" "ToLower ''disabled'' = ''disabled''"
  "ToLower ''name'' = ''name''" "ToLower ''type'' = ''type''" "ToLower ''ttl'' = ''ttl''"
  "ToLower ''changetype'' = ''changetype''" "ToLower ''records'' = ''records''"
  "ToLower ''id'' = ''id''" "ToLower ''kind'' = ''kind''" "ToLower ''serial'' = ''serial''"
  "ToLower ''masters'' = ''masters''" "ToLower ''nameservers'' = ''nameservers''"
  "ToLower ''dnssec'' = ''dnssec''" "ToLower ''rrsets'' = ''rrsets''"
  "ToLower ''keytype'' = ''keytype''" "ToLower ''active'' = ''active''" "ToLower ''ds'' = ''ds''"
  by (simp_all add: ToLower_def to_lower_char_def)

lemma decode_all_map: "(\<And>x. x \<in> set xs \<Longrightarrow> d (g x) = Inr x) \<Longrightarrow> decode_all d (map g xs) = Inr xs"
  by (induction xs) simp_all

lemma decode_list_map [pdns_simps]:
  "(\<And>x. x \<in> set xs \<Longrightarrow> d (g x) = Inr x) \<Longrightarrow> decode_list d (JArr (map g xs)) = Inr xs"
  by (simp add: decode_list_def decode_slice_def decode_all_map)

lemma decode_scalars [pdns_simps]:
  "decode_string old (JStr s) = Inr s" "decode_bool b0 (JBool b) = Inr b"
  by (simp_all add: decode_string_def decode_bool_def)

lemma decode_int_fits [pdns_simps]:
  "- (2 ^ (bits - 1)) \<le> n \<Longrightarrow> n < 2 ^ (bits - 1) \<Longrightarrow> decode_int bits old (JNum n) = Inr n"
  by (simp add: decode_int_def)

lemma decode_slice_jslice [pdns_simps]: "decode_slice (decode_string old) (jslice s) = Inr s"
  by (cases s) (simp_all add: jslice_def jstrings_def decode_slice_def decode_all_map decode_scalars)

lemma decode_list_jstrings [pdns_simps]: "decode_list (decode_string old) (jstrings xs) = Inr xs"
  by (simp add: jstrings_def pdns_simps)

text \<open>One member, present or omitted, sets its field to the marshalled value.\<close>

lemma decode_omitempty:
  assumes "zero \<Longrightarrow> upd x = x" "\<not> zero \<Longrightarrow> f (ToLower n) v x = Inr (upd x)"
  shows "decode_members f (omitempty zero n v @ ms) x = decode_members f ms (upd x)"
  using assms by (cases zero) (simp_all add: omitempty_def)

lemma decode_omitempty_last:
  assumes "zero \<Longrightarrow> upd x = x" "\<not> zero \<Longrightarrow> f (ToLower n) v x = Inr (upd x)"
  shows "decode_members f (omitempty zero n v) x = Inr (upd x)"
  using assms by (cases zero) (simp_all add: omitempty_def)

lemma decode_marshal_Record: "decode_Record (marshal_Record r) = Inr r"
  by (simp add: decode_Record_def marshal_Record_def decode_struct_def field_Record_def
      zeroRecord_def setField_def pdns_simps)

definition int32_ok :: "int \<Rightarrow> bool" where
  "int32_ok n \<longleftrightarrow> - (2 ^ 31) \<le> n \<and> n < 2 ^ 31"

definition int64_ok :: "int \<Rightarrow> bool" where
  "int64_ok n \<longleftrightarrow> - (2 ^ 63) \<le> n \<and> n < 2 ^ 63"

lemma decode_int_32 [pdns_simps]: "int32_ok n \<Longrightarrow> decode_int 32 old (JNum n) = Inr n"
  by (simp add: int32_ok_def decode_int_def)

lemma decode_int_64 [pdns_simps]: "int64_ok n \<Longrightarrow> decode_int 64 old (JNum n) = Inr n"
  by (simp add: int64_ok_def decode_int_def)

lemma decode_marshal_RRSet:
  assumes "int32_ok (prr_TTL rr)"
  shows "decode_RRSet (marshal_RRSet rr) = Inr rr"
proof -
  let ?x = "zeroPdnsRRSet\<lparr>prr_Name := prr_Name rr, prr_Type := prr_Type rr\<rparr>"
  note defs = field_RRSet_def setField_def zeroPdnsRRSet_def pdns_simps assms
  have "decode_RRSet (marshal_RRSet rr) = decode_members field_RRSet
     (omitempty (prr_TTL rr = 0) ''ttl'' (JNum (prr_TTL rr)) @
      omitempty (prr_ChangeType rr = []) ''changetype'' (JStr (prr_ChangeType rr)) @
      omitempty (prr_Records rr = []) ''records'' (JArr (map marshal_Record (prr_Records rr)))) ?x"
    by (simp add: decode_RRSet_def marshal_RRSet_def decode_struct_def defs)
  also have "\<dots> = Inr (?x\<lparr>prr_TTL := prr_TTL rr, prr_ChangeType := prr_ChangeType rr,
      prr_Records := prr_Records rr\<rparr>)"
    by (subst decode_omitempty [where upd = "\<lambda>x. x\<lparr>prr_TTL := prr_TTL rr\<rparr>"],
        simp add: defs, simp add: defs,
        subst decode_omitempty [where upd = "\<lambda>x. x\<lparr>prr_ChangeType := prr_ChangeType rr\<rparr>"],
        simp add: defs, simp add: defs,
        subst decode_omitempty_last [where upd = "\<lambda>x. x\<lparr>prr_Records := prr_Records rr\<rparr>"],
        simp add: defs, simp add: defs decode_marshal_Record, simp add: defs)
  finally show ?thesis by (simp add: zeroPdnsRRSet_def)
qed

text \<open>A zone survives the wire up to the one thing \<open>omitempty\<close> loses: an empty list of
  masters comes back as nil.\<close>

definition wire_Zone :: "PdnsZone \<Rightarrow> PdnsZone" where
  "wire_Zone z = z\<lparr>pz_Masters := (if elems (pz_Masters z) = [] then None else pz_Masters z)\<rparr>"

lemma decode_marshal_Zone:
  assumes "int64_ok (pz_Serial z)" "\<forall>rr \<in> set (pz_RRSets z). int32_ok (prr_TTL rr)"
  shows "decode_Zone (marshal_Zone z) = Inr (wire_Zone z)"
proof -
  note defs = field_Zone_def setField_def zeroPdnsZone_def pdns_simps
  define m where "m = pz_Masters (wire_Zone z)"
  have m: "elems (pz_Masters z) = [] \<Longrightarrow> m = None" "elems (pz_Masters z) \<noteq> [] \<Longrightarrow> m = pz_Masters z"
    by (simp_all add: m_def wire_Zone_def)
  have "decode_Zone (marshal_Zone z) = Inr (zeroPdnsZone\<lparr>pz_ID := pz_ID z, pz_Name := pz_Name z,
     pz_Kind := pz_Kind z, pz_Serial := pz_Serial z, pz_Masters := m,
     pz_Nameservers := pz_Nameservers z, pz_DNSSEC := pz_DNSSEC z, pz_RRSets := pz_RRSets z\<rparr>)"
    unfolding decode_Zone_def marshal_Zone_def decode_struct_def json.case
    by (subst decode_omitempty [where upd = "\<lambda>x. x\<lparr>pz_ID := pz_ID z\<rparr>"],
        simp add: defs, simp add: defs,
        simp add: defs del: append_assoc,
        subst decode_omitempty [where upd = "\<lambda>x. x\<lparr>pz_Kind := pz_Kind z\<rparr>"],
        simp add: defs, simp add: defs,
        subst decode_omitempty [where upd = "\<lambda>x. x\<lparr>pz_Serial := pz_Serial z\<rparr>"],
        simp add: defs, simp add: defs assms,
        subst decode_omitempty [where upd = "\<lambda>x. x\<lparr>pz_Masters := m\<rparr>"],
        simp add: defs m, simp add: defs m,
        simp add: defs,
        subst decode_omitempty [where upd = "\<lambda>x. x\<lparr>pz_DNSSEC := pz_DNSSEC z\<rparr>"],
        simp add: defs, simp add: defs,
        subst decode_omitempty_last [where upd = "\<lambda>x. x\<lparr>pz_RRSets := pz_RRSets z\<rparr>"],
        simp add: defs, simp add: defs assms decode_marshal_RRSet, simp add: defs)
  then show ?thesis by (simp add: zeroPdnsZone_def wire_Zone_def m_def)
qed

lemma decode_marshal_Cryptokey:
  assumes "int64_ok (ck_ID k)"
  shows "decode_Cryptokey (marshal_Cryptokey k) = Inr k"
proof -
  note defs = field_Cryptokey_def setField_def zeroCryptokey_def pdns_simps
  have "decode_Cryptokey (marshal_Cryptokey k) = Inr (zeroCryptokey\<lparr>ck_ID := ck_ID k,
     ck_KeyType := ck_KeyType k, ck_Active := ck_Active k, ck_DS := ck_DS k\<rparr>)"
    unfolding decode_Cryptokey_def marshal_Cryptokey_def decode_struct_def json.case
    by (subst decode_omitempty [where upd = "\<lambda>x. x\<lparr>ck_ID := ck_ID k\<rparr>"],
        simp add: defs, simp add: defs assms,
        subst decode_omitempty [where upd = "\<lambda>x. x\<lparr>ck_KeyType := ck_KeyType k\<rparr>"],
        simp add: defs, simp add: defs,
        simp add: defs,
        subst decode_omitempty_last [where upd = "\<lambda>x. x\<lparr>ck_DS := ck_DS k\<rparr>"],
        simp add: defs, simp add: defs, simp add: defs)
  then show ?thesis by (simp add: zeroCryptokey_def)
qed

subsection \<open>Decoding errors are plain errors\<close>

lemma decode_all_err:
  "decode_all d vs = Inl e \<Longrightarrow> (\<And>v e. d v = Inl e \<Longrightarrow> err_kind e = OtherError) \<Longrightarrow>
   err_kind e = OtherError"
  by (induction vs) (auto split: sum.splits)

lemma decode_members_err:
  "decode_members f ms x = Inl e \<Longrightarrow>
   (\<And>n v y e. f n v y = Inl e \<Longrightarrow> err_kind e = OtherError) \<Longrightarrow> err_kind e = OtherError"
  by (induction f ms x rule: decode_members.induct) (auto split: sum.splits)

lemma typeError_err: "typeError x = Inl e \<Longrightarrow> err_kind e = OtherError"
  by (auto simp: typeError_def)

lemma decode_slice_err:
  "decode_slice d v = Inl e \<Longrightarrow> (\<And>v e. d v = Inl e \<Longrightarrow> err_kind e = OtherError) \<Longrightarrow>
   err_kind e = OtherError"
  by (auto simp: decode_slice_def split: json.splits sum.splits
      dest: decode_all_err typeError_err)

lemma decode_list_err:
  "decode_list d v = Inl e \<Longrightarrow> (\<And>v e. d v = Inl e \<Longrightarrow> err_kind e = OtherError) \<Longrightarrow>
   err_kind e = OtherError"
  by (auto simp: decode_list_def split: sum.splits dest: decode_slice_err)

lemma decode_struct_err:
  "decode_struct f z v = Inl e \<Longrightarrow>
   (\<And>n v y e. f n v y = Inl e \<Longrightarrow> err_kind e = OtherError) \<Longrightarrow> err_kind e = OtherError"
  by (auto simp: decode_struct_def split: json.splits dest: decode_members_err typeError_err)

lemma decode_scalar_err:
  "decode_string s v = Inl e \<Longrightarrow> err_kind e = OtherError"
  "decode_int b i v = Inl e \<Longrightarrow> err_kind e = OtherError"
  "decode_bool c v = Inl e \<Longrightarrow> err_kind e = OtherError"
  by (auto simp: decode_string_def decode_int_def decode_bool_def
      split: json.splits if_splits dest: typeError_err)

lemma setField_err: "setField u r = Inl e \<longleftrightarrow> r = Inl e"
  by (auto simp: setField_def split: sum.splits)

lemma decode_Record_err: "decode_Record v = Inl e \<Longrightarrow> err_kind e = OtherError"
  unfolding decode_Record_def
  by (erule decode_struct_err)
    (auto simp: field_Record_def setField_err split: if_splits dest: decode_scalar_err)

lemma decode_RRSet_err: "decode_RRSet v = Inl e \<Longrightarrow> err_kind e = OtherError"
  unfolding decode_RRSet_def
  by (erule decode_struct_err)
    (auto simp: field_RRSet_def setField_err split: if_splits
      dest: decode_scalar_err decode_list_err [OF _ decode_Record_err])

lemma decode_Zone_err: "decode_Zone v = Inl e \<Longrightarrow> err_kind e = OtherError"
  unfolding decode_Zone_def
  by (erule decode_struct_err)
    (auto simp: field_Zone_def setField_err split: if_splits
      dest: decode_scalar_err decode_slice_err [OF _ decode_scalar_err(1)]
        decode_list_err [OF _ decode_RRSet_err])

lemma decode_Cryptokey_err: "decode_Cryptokey v = Inl e \<Longrightarrow> err_kind e = OtherError"
  unfolding decode_Cryptokey_def
  by (erule decode_struct_err)
    (auto simp: field_Cryptokey_def setField_err split: if_splits
      dest: decode_scalar_err decode_list_err [OF _ decode_scalar_err(1)])

end
