(* ===== verification/Api_Types.thy ===== *)
theory Api_Types
  imports Pdns_Types
begin

text \<open>
  The custom resources of \<open>api/v1alpha1\<close> (\<open>types.go\<close>, \<open>dnsdist_types.go\<close>, \<open>zone_types.go\<close>,
  \<open>rrset_types.go\<close>): one record per struct, one constant per Go constant.  A pointer field is
  an option.  Of the Kubernetes metadata the operator reads and writes the name, namespace,
  labels, annotations, finalizers, generation, controller reference and whether a deletion
  time stamp is set.  \<open>int32\<close> and \<open>int64\<close> fields are integers: the sources compute only
  \<open>replicas - 1\<close> on them, under \<open>replicas > 1\<close>.
\<close>

section \<open>Metadata\<close>

record OwnerRef =
  own_Kind :: string
  own_Name :: string

record ObjectMeta =
  om_Name :: string
  om_Namespace :: string
  om_Labels :: gomap
  om_Annotations :: gomap
  om_Finalizers :: "string list"
  om_Deleting :: bool  \<comment> \<open>\<open>!DeletionTimestamp.IsZero()\<close>\<close>
  om_Generation :: int
  om_Owner :: "OwnerRef option"

definition newMeta :: "string \<Rightarrow> string \<Rightarrow> gomap \<Rightarrow> ObjectMeta" where
  \<comment> \<open>the literal \<open>metav1.ObjectMeta{Name: n, Namespace: ns, Labels: ls}\<close>\<close>
  "newMeta n ns ls = \<lparr>om_Name = n, om_Namespace = ns, om_Labels = ls, om_Annotations = [],
     om_Finalizers = [], om_Deleting = False, om_Generation = 0, om_Owner = None\<rparr>"

record Condition =
  cond_Type :: string
  cond_Status :: string
  cond_Reason :: string
  cond_Message :: string
  cond_ObservedGeneration :: int

section \<open>Constants\<close>

definition PhasePending :: string where "PhasePending = ''Pending''"
definition PhaseProvisioningBackend :: string where "PhaseProvisioningBackend = ''ProvisioningBackend''"
definition PhaseInitializingSchema :: string where "PhaseInitializingSchema = ''InitializingSchema''"
definition PhaseDeployingServer :: string where "PhaseDeployingServer = ''DeployingServer''"
definition PhaseExposingDNS :: string where "PhaseExposingDNS = ''ExposingDNS''"
definition PhaseReady :: string where "PhaseReady = ''Ready''"
definition PhaseFailed :: string where "PhaseFailed = ''Failed''"
definition PhaseDeleting :: string where "PhaseDeleting = ''Deleting''"

definition ConditionReady :: string where "ConditionReady = ''Ready''"
definition ConditionBackendProvisioned :: string where "ConditionBackendProvisioned = ''BackendProvisioned''"
definition ConditionSchemaApplied :: string where "ConditionSchemaApplied = ''SchemaApplied''"
definition ConditionAvailable :: string where "ConditionAvailable = ''Available''"
definition ConditionProgressing :: string where "ConditionProgressing = ''Progressing''"
definition ConditionRegistered :: string where "ConditionRegistered = ''Registered''"
definition ConditionDNSSECReady :: string where "ConditionDNSSECReady = ''DNSSECReady''"
definition ConditionBackendsReady :: string where "ConditionBackendsReady = ''BackendsReady''"

definition BackendPostgres :: string where "BackendPostgres = ''postgres''"
definition BackendMySQL :: string where "BackendMySQL = ''mysql''"

definition DNSExposureNone :: string where "DNSExposureNone = ''none''"
definition DNSExposureLoadBalancer :: string where "DNSExposureLoadBalancer = ''loadBalancer''"
definition DNSExposureGateway :: string where "DNSExposureGateway = ''gateway''"

definition ZoneKindNative :: string where "ZoneKindNative = ''Native''"
definition ZoneKindPrimary :: string where "ZoneKindPrimary = ''Primary''"
definition ZoneKindSecondary :: string where "ZoneKindSecondary = ''Secondary''"

definition DeletionPolicyDelete :: string where "DeletionPolicyDelete = ''Delete''"
definition DeletionPolicyOrphan :: string where "DeletionPolicyOrphan = ''Orphan''"

definition ZonePhasePending :: string where "ZonePhasePending = ''Pending''"
definition ZonePhaseReady :: string where "ZonePhaseReady = ''Ready''"
definition ZonePhaseFailed :: string where "ZonePhaseFailed = ''Failed''"

definition DefaultImage :: string where "DefaultImage = ''powerdns/pdns-auth-51''"
definition DefaultDNSDistImage :: string where "DefaultDNSDistImage = ''powerdns/dnsdist-19''"

lemmas phase_defs = PhasePending_def PhaseProvisioningBackend_def PhaseInitializingSchema_def
  PhaseDeployingServer_def PhaseExposingDNS_def PhaseReady_def PhaseFailed_def PhaseDeleting_def
lemmas zone_phase_defs = ZonePhasePending_def ZonePhaseReady_def ZonePhaseFailed_def
lemmas zone_kind_defs = ZoneKindNative_def ZoneKindPrimary_def ZoneKindSecondary_def
lemmas condition_defs = ConditionReady_def ConditionBackendProvisioned_def
  ConditionSchemaApplied_def ConditionAvailable_def ConditionRegistered_def
  ConditionDNSSECReady_def ConditionBackendsReady_def ConditionProgressing_def
lemmas exposure_defs = DNSExposureNone_def DNSExposureLoadBalancer_def DNSExposureGateway_def
lemmas policy_defs = DeletionPolicyDelete_def DeletionPolicyOrphan_def
lemmas api_consts = phase_defs zone_phase_defs zone_kind_defs condition_defs exposure_defs
  policy_defs BackendPostgres_def BackendMySQL_def DefaultImage_def DefaultDNSDistImage_def

section \<open>Shared pieces\<close>

record ObjectRef =
  ref_Name :: string
  ref_Namespace :: string

record PDBSpec =
  pdbs_MinAvailable :: "int option"

record GatewayParentRef =
  gp_Group :: string
  gp_Kind :: string
  gp_Name :: string
  gp_Namespace :: string
  gp_TCPSectionName :: string
  gp_UDPSectionName :: string

record DNSGatewaySpec =
  dgw_ParentRefs :: "GatewayParentRef list"

record AdditionalLoadBalancerService =
  als_NameSuffix :: string
  als_IP :: string
  als_Annotations :: gomap
  als_ExternalTrafficPolicy :: string

record DNSLoadBalancerSpec =
  dlb_IP :: string
  dlb_Annotations :: gomap
  dlb_ExternalTrafficPolicy :: string
  dlb_AdditionalServices :: "AdditionalLoadBalancerService list"

record DNSSpec =
  dns_Exposure :: string
  dns_LoadBalancer :: "DNSLoadBalancerSpec option"
  dns_Gateway :: "DNSGatewaySpec option"

record ResourceRequirements =
  \<comment> \<open>resource lists as printed quantities; \<open>None\<close> for a nil list\<close>
  rr_Requests :: "gomap option"
  rr_Limits :: "gomap option"

record Toleration =
  tol_Key :: string
  tol_Operator :: string
  tol_Value :: string
  tol_Effect :: string

record SchedulingSpec =
  sch_NodeSelector :: gomap
  sch_Tolerations :: "Toleration list"
  sch_PriorityClassName :: string
  sch_SpreadAcrossZones :: bool

section \<open>PowerDNSServer\<close>

record BYOPostgres =
  byo_Host :: string
  byo_Port :: int
  byo_Database :: string
  byo_CredentialsSecretRef :: string
  byo_SSLMode :: string

record PostgresBackendSpec =
  pg_Instances :: "int option"
  pg_StorageSize :: string
  pg_StorageClass :: string
  pg_BYO :: "BYOPostgres option"

record BackendSpec =
  be_Type :: string
  be_Postgres :: "PostgresBackendSpec option"

record APIGatewayParentRef =
  agp_Group :: string
  agp_Kind :: string
  agp_Name :: string
  agp_Namespace :: string
  agp_SectionName :: string

record APIGatewaySpec =
  agw_Hostnames :: "string list"
  agw_ParentRefs :: "APIGatewayParentRef list"

record APISpec =
  api_Port :: int
  api_APIKeySecretRef :: "string option"  \<comment> \<open>the name of the referenced Secret\<close>
  api_Gateway :: "APIGatewaySpec option"

record PodMonitorSpec =
  pm_Enabled :: bool
  pm_Interval :: string
  pm_Labels :: gomap

record NetworkPolicySpec =
  nps_Enabled :: bool
  nps_AdditionalAllowedAPINamespaces :: "string list"

record PowerDNSServerSpec =
  ps_Replicas :: "int option"
  ps_Image :: string
  ps_Resources :: ResourceRequirements
  ps_Backend :: BackendSpec
  ps_DNS :: DNSSpec
  ps_API :: APISpec
  ps_Scheduling :: SchedulingSpec
  ps_PodMonitor :: PodMonitorSpec  \<comment> \<open>\<open>spec.observability.podMonitor\<close>\<close>
  ps_NetworkPolicy :: NetworkPolicySpec
  ps_AllowedNamespaces :: "string list"  \<comment> \<open>\<open>spec.zoneManagement.allowedNamespaces\<close>\<close>
  ps_PodDisruptionBudget :: "PDBSpec option"
  ps_ExtraSettings :: gomap

record PowerDNSServerStatus =
  pst_Phase :: string
  pst_Ready :: bool
  pst_DNSEndpoint :: string
  pst_APIEndpoint :: string
  pst_APIKeySecretName :: string
  pst_BackendSecretName :: string
  pst_SchemaApplied :: bool
  pst_DesiredReplicas :: int
  pst_ReadyReplicas :: int
  pst_ConfigHash :: string
  pst_Conditions :: "Condition list"
  pst_FailureMessage :: string

record PowerDNSServer =
  srv_Meta :: ObjectMeta
  srv_Spec :: PowerDNSServerSpec
  srv_Status :: PowerDNSServerStatus

section \<open>Zone and RRSet\<close>

record SOASpec =
  soa_Hostmaster :: string
  soa_TTL :: "int option"

record ZoneSpec =
  zs_ServerRef :: ObjectRef
  zs_ZoneName :: string
  zs_Kind :: string
  zs_Masters :: "string slice"
  zs_Nameservers :: "string slice"
  zs_SOA :: "SOASpec option"
  zs_DNSSEC_Enabled :: bool
  zs_DeletionPolicy :: string

record ZoneStatus =
  zst_Phase :: string
  zst_Serial :: int
  zst_DSRecords :: "string list"
  zst_ObservedGeneration :: int
  zst_Conditions :: "Condition list"
  zst_FailureMessage :: string

record Zone =
  zone_Meta :: ObjectMeta
  zone_Spec :: ZoneSpec
  zone_Status :: ZoneStatus

record RRSetSpec =
  rs_ZoneRef :: ObjectRef
  rs_Name :: string
  rs_Type :: string
  rs_TTL :: "int option"
  rs_Records :: "string list"
  rs_DeletionPolicy :: string

record RRSetStatus =
  rst_ObservedGeneration :: int
  rst_Conditions :: "Condition list"
  rst_FailureMessage :: string

record RRSet =
  rr_Meta :: ObjectMeta
  rr_Spec :: RRSetSpec
  rr_Status :: RRSetStatus

section \<open>DNSDist\<close>

record DNSDistTLSListener =
  tls_Enabled :: bool
  tls_CertificateSecretRef :: string

record DNSDistSpec =
  ds_Replicas :: "int option"
  ds_Image :: string
  ds_Resources :: ResourceRequirements
  ds_Scheduling :: SchedulingSpec
  ds_BackendRefs :: "ObjectRef list"
  ds_DNS :: DNSSpec
  ds_Cache_Enabled :: "bool option"
  ds_Cache_MaxEntries :: "int option"
  ds_RateLimit_QPSPerClient :: int
  ds_TLS_DoT :: DNSDistTLSListener
  ds_TLS_DoH :: DNSDistTLSListener
  ds_PodDisruptionBudget :: "PDBSpec option"

record DNSDistStatus =
  dst_Phase :: string
  dst_DNSEndpoint :: string
  dst_DesiredReplicas :: int
  dst_ReadyReplicas :: int
  dst_ObservedGeneration :: int
  dst_Conditions :: "Condition list"
  dst_FailureMessage :: string

record DNSDist =
  dd_Meta :: ObjectMeta
  dd_Spec :: DNSDistSpec
  dd_Status :: DNSDistStatus

end
