(* ===== verification/Kube_Objects.thy ===== *)
theory Kube_Objects
  imports Api_Types
begin

text \<open>
  The Kubernetes objects the operator renders, reads and writes.  The types belong to
  Kubernetes, CloudNativePG, the Prometheus operator and the Gateway API; the records keep the
  fields the sources mention.  A Service additionally carries \<open>ss_Other\<close>, the fields of its
  spec the operator never looks at (IP families, session affinity, ...), because whether they
  survive an update is a claim of the sources.
\<close>

section \<open>Secrets, ConfigMaps, Services\<close>

record Secret =
  sec_Meta :: ObjectMeta
  sec_Type :: string
  sec_Data :: gomap

record ConfigMap =
  cm_Meta :: ObjectMeta
  cm_Data :: gomap

record ServicePort =
  sp_Name :: string
  sp_Port :: int
  sp_TargetPort :: int
  sp_Protocol :: string
  sp_NodePort :: int

record ServiceSpec =
  ss_Type :: string
  ss_Selector :: gomap
  ss_Ports :: "ServicePort list"
  ss_ClusterIP :: string
  ss_LoadBalancerIP :: string
  ss_ExternalTrafficPolicy :: string
  ss_Other :: gomap

record LoadBalancerIngress =
  lbi_IP :: string
  lbi_Hostname :: string

record Service =
  svc_Meta :: ObjectMeta
  svc_Spec :: ServiceSpec
  svc_Ingress :: "LoadBalancerIngress list"  \<comment> \<open>\<open>status.loadBalancer.ingress\<close>\<close>

section \<open>Pods, Deployments, Jobs\<close>

record EnvVar =
  env_Name :: string
  env_Value :: string
  env_SecretKeyRef :: "(string \<times> string) option"  \<comment> \<open>Secret name and key\<close>

record VolumeMount =
  vm_Name :: string
  vm_MountPath :: string
  vm_ReadOnly :: bool

datatype VolumeSource = ConfigMapVolume string | SecretVolume string | EmptyDir

record Volume =
  vol_Name :: string
  vol_Source :: VolumeSource

record ContainerPort =
  cp_Name :: string
  cp_ContainerPort :: int
  cp_Protocol :: string

datatype ProbeHandler = ExecProbe "string list" | TCPSocketProbe int

record Probe =
  \<comment> \<open>\<open>TimeoutSeconds\<close> and \<open>FailureThreshold\<close> are 0 where the source leaves them unset\<close>
  probe_Handler :: ProbeHandler
  probe_InitialDelaySeconds :: int
  probe_PeriodSeconds :: int
  probe_TimeoutSeconds :: int
  probe_FailureThreshold :: int

record Container =
  ct_Name :: string
  ct_Image :: string
  ct_Command :: "string list"
  ct_Args :: "string list"
  ct_Ports :: "ContainerPort list"
  ct_Env :: "EnvVar list"
  ct_Resources :: ResourceRequirements
  ct_VolumeMounts :: "VolumeMount list"
  ct_ReadinessProbe :: "Probe option"
  ct_LivenessProbe :: "Probe option"

record AntiAffinityTerm =
  aa_Weight :: int
  aa_MatchLabels :: gomap
  aa_TopologyKey :: string

record TopologySpreadConstraint =
  tsc_MaxSkew :: int
  tsc_TopologyKey :: string
  tsc_WhenUnsatisfiable :: string
  tsc_MatchLabels :: gomap

record PodSpec =
  pod_RestartPolicy :: string
  pod_InitContainers :: "Container list"
  pod_Containers :: "Container list"
  pod_Volumes :: "Volume list"
  pod_AntiAffinity :: "AntiAffinityTerm list"
  pod_TopologySpreadConstraints :: "TopologySpreadConstraint list"
  pod_NodeSelector :: gomap
  pod_Tolerations :: "Toleration list"
  pod_PriorityClassName :: string

record PodTemplateSpec =
  pt_Labels :: gomap
  pt_Annotations :: gomap
  pt_Spec :: PodSpec

record DeploymentSpec =
  dps_Replicas :: "int option"
  dps_Selector :: gomap
  dps_Strategy :: string
  dps_Template :: PodTemplateSpec

record Deployment =
  dep_Meta :: ObjectMeta
  dep_Spec :: DeploymentSpec
  dep_AvailableReplicas :: int
  dep_ReadyReplicas :: int

record JobCondition =
  jc_Type :: string
  jc_Status :: string
  jc_Reason :: string
  jc_Message :: string

record Job =
  job_Meta :: ObjectMeta
  job_BackoffLimit :: int
  job_TTLSecondsAfterFinished :: int
  job_Template :: PodTemplateSpec
  job_Succeeded :: int
  job_Failed :: int
  job_Conditions :: "JobCondition list"

section \<open>Policies\<close>

record PodDisruptionBudget =
  pdb_Meta :: ObjectMeta
  pdb_MinAvailable :: "int option"
  pdb_Selector :: gomap

record NetworkPolicyIngressRule =
  \<comment> \<open>peers by namespace labels (no peer: any source); ports as protocol and number\<close>
  npi_From :: "gomap list"
  npi_Ports :: "(string \<times> int) list"

record NetworkPolicy =
  np_Meta :: ObjectMeta
  np_PodSelector :: gomap
  np_PolicyTypes :: "string list"
  np_Ingress :: "NetworkPolicyIngressRule list"

section \<open>Gateway API routes\<close>

record ParentReference =
  par_Group :: "string option"
  par_Kind :: "string option"
  par_Namespace :: "string option"
  par_Name :: string
  par_SectionName :: "string option"

record BackendRef =
  bref_Name :: string
  bref_Port :: int

record L4Route =
  \<comment> \<open>\<open>TCPRoute\<close> and \<open>UDPRoute\<close>: one rule, its backends\<close>
  l4_Meta :: ObjectMeta
  l4_ParentRefs :: "ParentReference list"
  l4_BackendRefs :: "BackendRef list"

record HTTPRoute =
  hr_Meta :: ObjectMeta
  hr_ParentRefs :: "ParentReference list"
  hr_Hostnames :: "string list"
  hr_PathType :: string
  hr_PathValue :: string
  hr_BackendRefs :: "BackendRef list"

section \<open>Unstructured objects\<close>

record GroupVersionKind =
  gvk_Group :: string
  gvk_Version :: string
  gvk_Kind :: string

record Unstructured =
  un_GVK :: GroupVersionKind
  un_Meta :: ObjectMeta
  un_Object :: json  \<comment> \<open>the object without \<open>apiVersion\<close>, \<open>kind\<close> and \<open>metadata\<close>\<close>

section \<open>All kinds\<close>

datatype kobj =
    ObjServer PowerDNSServer
  | ObjZone Zone
  | ObjRRSet RRSet
  | ObjDNSDist DNSDist
  | ObjSecret Secret
  | ObjConfigMap ConfigMap
  | ObjService Service
  | ObjDeployment Deployment
  | ObjJob Job
  | ObjPDB PodDisruptionBudget
  | ObjNetworkPolicy NetworkPolicy
  | ObjTCPRoute L4Route
  | ObjUDPRoute L4Route
  | ObjHTTPRoute HTTPRoute
  | ObjUnstructured Unstructured

datatype kind =
    KServer | KZone | KRRSet | KDNSDist | KSecret | KConfigMap | KService | KDeployment | KJob
  | KPDB | KNetworkPolicy | KTCPRoute | KUDPRoute | KHTTPRoute | KUnstructured GroupVersionKind

fun obj_meta :: "kobj \<Rightarrow> ObjectMeta" where
  "obj_meta (ObjServer x) = srv_Meta x"
| "obj_meta (ObjZone x) = zone_Meta x"
| "obj_meta (ObjRRSet x) = rr_Meta x"
| "obj_meta (ObjDNSDist x) = dd_Meta x"
| "obj_meta (ObjSecret x) = sec_Meta x"
| "obj_meta (ObjConfigMap x) = cm_Meta x"
| "obj_meta (ObjService x) = svc_Meta x"
| "obj_meta (ObjDeployment x) = dep_Meta x"
| "obj_meta (ObjJob x) = job_Meta x"
| "obj_meta (ObjPDB x) = pdb_Meta x"
| "obj_meta (ObjNetworkPolicy x) = np_Meta x"
| "obj_meta (ObjTCPRoute x) = l4_Meta x"
| "obj_meta (ObjUDPRoute x) = l4_Meta x"
| "obj_meta (ObjHTTPRoute x) = hr_Meta x"
| "obj_meta (ObjUnstructured x) = un_Meta x"

fun set_meta :: "ObjectMeta \<Rightarrow> kobj \<Rightarrow> kobj" where
  "set_meta m (ObjServer x) = ObjServer (x\<lparr>srv_Meta := m\<rparr>)"
| "set_meta m (ObjZone x) = ObjZone (x\<lparr>zone_Meta := m\<rparr>)"
| "set_meta m (ObjRRSet x) = ObjRRSet (x\<lparr>rr_Meta := m\<rparr>)"
| "set_meta m (ObjDNSDist x) = ObjDNSDist (x\<lparr>dd_Meta := m\<rparr>)"
| "set_meta m (ObjSecret x) = ObjSecret (x\<lparr>sec_Meta := m\<rparr>)"
| "set_meta m (ObjConfigMap x) = ObjConfigMap (x\<lparr>cm_Meta := m\<rparr>)"
| "set_meta m (ObjService x) = ObjService (x\<lparr>svc_Meta := m\<rparr>)"
| "set_meta m (ObjDeployment x) = ObjDeployment (x\<lparr>dep_Meta := m\<rparr>)"
| "set_meta m (ObjJob x) = ObjJob (x\<lparr>job_Meta := m\<rparr>)"
| "set_meta m (ObjPDB x) = ObjPDB (x\<lparr>pdb_Meta := m\<rparr>)"
| "set_meta m (ObjNetworkPolicy x) = ObjNetworkPolicy (x\<lparr>np_Meta := m\<rparr>)"
| "set_meta m (ObjTCPRoute x) = ObjTCPRoute (x\<lparr>l4_Meta := m\<rparr>)"
| "set_meta m (ObjUDPRoute x) = ObjUDPRoute (x\<lparr>l4_Meta := m\<rparr>)"
| "set_meta m (ObjHTTPRoute x) = ObjHTTPRoute (x\<lparr>hr_Meta := m\<rparr>)"
| "set_meta m (ObjUnstructured x) = ObjUnstructured (x\<lparr>un_Meta := m\<rparr>)"

fun kind_of :: "kobj \<Rightarrow> kind" where
  "kind_of (ObjServer x) = KServer"
| "kind_of (ObjZone x) = KZone"
| "kind_of (ObjRRSet x) = KRRSet"
| "kind_of (ObjDNSDist x) = KDNSDist"
| "kind_of (ObjSecret x) = KSecret"
| "kind_of (ObjConfigMap x) = KConfigMap"
| "kind_of (ObjService x) = KService"
| "kind_of (ObjDeployment x) = KDeployment"
| "kind_of (ObjJob x) = KJob"
| "kind_of (ObjPDB x) = KPDB"
| "kind_of (ObjNetworkPolicy x) = KNetworkPolicy"
| "kind_of (ObjTCPRoute x) = KTCPRoute"
| "kind_of (ObjUDPRoute x) = KUDPRoute"
| "kind_of (ObjHTTPRoute x) = KHTTPRoute"
| "kind_of (ObjUnstructured x) = KUnstructured (un_GVK x)"

lemma obj_meta_set_meta [simp]: "obj_meta (set_meta m x) = m"
  by (cases x) simp_all

lemma kind_of_set_meta [simp]: "kind_of (set_meta m x) = kind_of x"
  by (cases x) simp_all

lemma set_meta_set_meta [simp]: "set_meta m (set_meta m' x) = set_meta m x"
  by (cases x) simp_all

end
