(* ===== verification/Kube_Client.thy ===== *)
theory Kube_Client
  imports Kube_Objects
begin

text \<open>
  The boundary between the operator and everything that is not its own code.

  \<open>req\<close> and \<open>resp\<close> are the calls of controller-runtime's client, of the event recorder, of
  the HTTP transport and of \<open>crypto/rand\<close>, and their outcomes; a reconciler is a program
  \<open>'a kio\<close> over them.  \<open>controllerutil.CreateOrUpdate\<close> is one call: its mutate function
  always stores the labels, the spec and the controller reference of the object it is given.

  The record \<open>ext\<close> holds the third-party functions the sources apply to values in memory
  (finalizer lists, status conditions, owner references, semantic equality, the retry
  helper).  No definition is given for them; the predicates \<open>finalizer_laws\<close>,
  \<open>condition_laws\<close>, \<open>equality_laws\<close>, \<open>retry_laws\<close> and \<open>owner_laws\<close> state their documented
  behaviour and are hypotheses of the theorems that need them.  \<open>refExt\<close> is an instance that
  satisfies all of them.
\<close>

section \<open>Requests and responses\<close>

type_synonym NamespacedName = "string \<times> string"

definition showKey :: "NamespacedName \<Rightarrow> string" where
  "showKey k = fst k @ ''/'' @ snd k"

definition obj_key :: "kobj \<Rightarrow> NamespacedName" where
  "obj_key x = (om_Namespace (obj_meta x), om_Name (obj_meta x))"

datatype req =
    KGet kind NamespacedName
  | KCreate kobj
  | KUpdate kobj
  | KStatusUpdate kobj
  | KDelete kind NamespacedName
  | KListByIndex kind string string  \<comment> \<open>index name and value\<close>
  | KListByLabels kind string gomap  \<comment> \<open>namespace and required labels\<close>
  | KCreateOrUpdate kobj
  | KEvent kind NamespacedName string string string  \<comment> \<open>object, type, reason, message\<close>
  | HttpDo HttpRequest
  | RandRead nat

datatype resp =
    ROk
  | RErr error
  | RObj kobj
  | RList "kobj list"
  | ROpCreated
  | RHttp HttpReply
  | RBytes string

type_synonym 'a kio = "(req, resp, 'a) io"
type_synonym event = "req \<times> resp"

fun is_http :: "req \<Rightarrow> bool" where
  "is_http (HttpDo h) = True"
| "is_http q = False"

text \<open>The requests that change the state of the cluster.\<close>

fun is_kube_write :: "req \<Rightarrow> bool" where
  "is_kube_write (KCreate x) = True"
| "is_kube_write (KUpdate x) = True"
| "is_kube_write (KStatusUpdate x) = True"
| "is_kube_write (KDelete k n) = True"
| "is_kube_write (KCreateOrUpdate x) = True"
| "is_kube_write q = False"

section \<open>Typed calls\<close>

definition badResp :: error where
  "badResp = mkErr OtherError ''unexpected object''"

fun respUnit :: "resp \<Rightarrow> error + unit" where
  "respUnit (RErr e) = Inl e"
| "respUnit _ = Inr ()"

fun respServer :: "resp \<Rightarrow> error + PowerDNSServer" where
  "respServer (RObj (ObjServer x)) = Inr x"
| "respServer (RErr e) = Inl e"
| "respServer _ = Inl badResp"

fun respZone :: "resp \<Rightarrow> error + Zone" where
  "respZone (RObj (ObjZone x)) = Inr x"
| "respZone (RErr e) = Inl e"
| "respZone _ = Inl badResp"

fun respRRSet :: "resp \<Rightarrow> error + RRSet" where
  "respRRSet (RObj (ObjRRSet x)) = Inr x"
| "respRRSet (RErr e) = Inl e"
| "respRRSet _ = Inl badResp"

fun respDNSDist :: "resp \<Rightarrow> error + DNSDist" where
  "respDNSDist (RObj (ObjDNSDist x)) = Inr x"
| "respDNSDist (RErr e) = Inl e"
| "respDNSDist _ = Inl badResp"

fun respSecret :: "resp \<Rightarrow> error + Secret" where
  "respSecret (RObj (ObjSecret x)) = Inr x"
| "respSecret (RErr e) = Inl e"
| "respSecret _ = Inl badResp"

fun respConfigMap :: "resp \<Rightarrow> error + ConfigMap" where
  "respConfigMap (RObj (ObjConfigMap x)) = Inr x"
| "respConfigMap (RErr e) = Inl e"
| "respConfigMap _ = Inl badResp"

fun respService :: "resp \<Rightarrow> error + Service" where
  "respService (RObj (ObjService x)) = Inr x"
| "respService (RErr e) = Inl e"
| "respService _ = Inl badResp"

fun respDeployment :: "resp \<Rightarrow> error + Deployment" where
  "respDeployment (RObj (ObjDeployment x)) = Inr x"
| "respDeployment (RErr e) = Inl e"
| "respDeployment _ = Inl badResp"

fun respJob :: "resp \<Rightarrow> error + Job" where
  "respJob (RObj (ObjJob x)) = Inr x"
| "respJob (RErr e) = Inl e"
| "respJob _ = Inl badResp"

fun respNetworkPolicy :: "resp \<Rightarrow> error + NetworkPolicy" where
  "respNetworkPolicy (RObj (ObjNetworkPolicy x)) = Inr x"
| "respNetworkPolicy (RErr e) = Inl e"
| "respNetworkPolicy _ = Inl badResp"

fun respUnstructured :: "resp \<Rightarrow> error + Unstructured" where
  "respUnstructured (RObj (ObjUnstructured x)) = Inr x"
| "respUnstructured (RErr e) = Inl e"
| "respUnstructured _ = Inl badResp"

text \<open>The objects of a list call: the items of the asked-for kind.\<close>

fun respList :: "resp \<Rightarrow> error + kobj list" where
  "respList (RList xs) = Inr xs"
| "respList (RErr e) = Inl e"
| "respList _ = Inl badResp"

fun itemRRSet :: "kobj \<Rightarrow> RRSet list" where
  "itemRRSet (ObjRRSet x) = [x]"
| "itemRRSet _ = []"

fun itemZone :: "kobj \<Rightarrow> Zone list" where
  "itemZone (ObjZone x) = [x]"
| "itemZone _ = []"

fun itemService :: "kobj \<Rightarrow> Service list" where
  "itemService (ObjService x) = [x]"
| "itemService _ = []"

fun itemDNSDist :: "kobj \<Rightarrow> DNSDist list" where
  "itemDNSDist (ObjDNSDist x) = [x]"
| "itemDNSDist _ = []"

definition items :: "(kobj \<Rightarrow> 'a list) \<Rightarrow> error + kobj list \<Rightarrow> error + 'a list" where
  "items f r = (case r of Inl e \<Rightarrow> Inl e | Inr xs \<Rightarrow> Inr (concat (map f xs)))"

text \<open>\<open>ask q f\<close>: issue \<open>q\<close>, read the response with \<open>f\<close>.\<close>

definition ask :: "req \<Rightarrow> (resp \<Rightarrow> 'a) \<Rightarrow> 'a kio" where
  "ask q f = andThen (call q) (\<lambda>r. Return (f r))"

lemma exec_ask_iff [simp]: "exec (ask q f) tr x \<longleftrightarrow> (\<exists>r. tr = [(q, r)] \<and> x = f r)"
  by (auto simp: ask_def exec_Call_iff)

lemma andThen_ask [simp]: "andThen (ask q f) g = Call q (\<lambda>r. g (f r))"
  by (simp add: ask_def)

lemma calls_only_ask [calls_intros]: "P q \<Longrightarrow> calls_only P (ask q f)"
  by (simp add: ask_def)

section \<open>Results of a reconcile pass\<close>

datatype Result = Done | Requeue | RequeueAfter int  \<comment> \<open>seconds\<close>

definition requeueShort :: int where "requeueShort = 5"
definition requeueLong :: int where "requeueLong = 30"
definition resyncInterval :: int where "resyncInterval = 300"

type_synonym reconcile = "(error + Result) kio"

text \<open>\<open>client.IgnoreNotFound\<close>.\<close>

definition ignoreNotFound :: "error \<Rightarrow> error + Result" where
  "ignoreNotFound e = (if err_kind e = KubeNotFound then Inr Done else Inl e)"

section \<open>Third-party functions on values\<close>

record ext =
  ContainsFinalizer :: "string list \<Rightarrow> string \<Rightarrow> bool"
  AddFinalizer :: "string list \<Rightarrow> string \<Rightarrow> string list"
  RemoveFinalizer :: "string list \<Rightarrow> string \<Rightarrow> string list"
  SetStatusCondition :: "Condition list \<Rightarrow> Condition \<Rightarrow> Condition list"
  SetControllerReference :: "OwnerRef \<Rightarrow> string \<Rightarrow> ObjectMeta \<Rightarrow> error + ObjectMeta"
    \<comment> \<open>owner, the owner's namespace, the controlled object's metadata\<close>
  RetryOnConflict :: "(error + unit) kio \<Rightarrow> (error + unit) kio"
  SpecDeepEqual :: "ServiceSpec \<Rightarrow> ServiceSpec \<Rightarrow> bool"
  MapDeepEqual :: "gomap \<Rightarrow> gomap \<Rightarrow> bool"
  NestedInt64 :: "json \<Rightarrow> string list \<Rightarrow> error + int option"
  Recorder :: bool  \<comment> \<open>whether the reconciler has an event recorder\<close>

definition findCond :: "string \<Rightarrow> Condition list \<Rightarrow> Condition option" where
  "findCond t cs = find (\<lambda>c. cond_Type c = t) cs"

definition finalizer_laws :: "ext \<Rightarrow> bool" where
  "finalizer_laws X \<longleftrightarrow>
     (\<forall>fs f. ContainsFinalizer X fs f \<longleftrightarrow> f \<in> set fs) \<and>
     (\<forall>fs f. set (AddFinalizer X fs f) = insert f (set fs)) \<and>
     (\<forall>fs f. set (RemoveFinalizer X fs f) = set fs - {f})"

definition condition_laws :: "ext \<Rightarrow> bool" where
  "condition_laws X \<longleftrightarrow>
     (\<forall>cs c. findCond (cond_Type c) (SetStatusCondition X cs c) = Some c) \<and>
     (\<forall>cs c t. t \<noteq> cond_Type c \<longrightarrow> findCond t (SetStatusCondition X cs c) = findCond t cs)"

text \<open>
  \<open>equality.Semantic.DeepEqual\<close>: equality of the fields, with maps compared by content.
\<close>

definition spec_eq :: "ServiceSpec \<Rightarrow> ServiceSpec \<Rightarrow> bool" where
  "spec_eq a b \<longleftrightarrow> ss_Type a = ss_Type b \<and> same_map (ss_Selector a) (ss_Selector b) \<and>
     ss_Ports a = ss_Ports b \<and> ss_ClusterIP a = ss_ClusterIP b \<and>
     ss_LoadBalancerIP a = ss_LoadBalancerIP b \<and>
     ss_ExternalTrafficPolicy a = ss_ExternalTrafficPolicy b \<and>
     same_map (ss_Other a) (ss_Other b)"

definition equality_laws :: "ext \<Rightarrow> bool" where
  "equality_laws X \<longleftrightarrow>
     (\<forall>a b. SpecDeepEqual X a b \<longleftrightarrow> spec_eq a b) \<and>
     (\<forall>a b. MapDeepEqual X a b \<longleftrightarrow> same_map a b)"

definition owner_laws :: "ext \<Rightarrow> bool" where
  "owner_laws X \<longleftrightarrow> (\<forall>ow ns m m'. SetControllerReference X ow ns m = Inr m' \<longrightarrow>
     m' = m\<lparr>om_Owner := Some ow\<rparr>)"

text \<open>
  \<open>retry.RetryOnConflict\<close> runs its function again while it returns a conflict; every attempt
  but the last ended in one, and the result is that of the last attempt.
\<close>

inductive attempts :: "(error + unit) kio \<Rightarrow> event list \<Rightarrow> error + unit \<Rightarrow> bool"
  for p where
  last_attempt: "exec p tr x \<Longrightarrow> attempts p tr x"
| retried: "exec p tr (Inl e) \<Longrightarrow> err_kind e = KubeConflict \<Longrightarrow> attempts p tr' x \<Longrightarrow>
     attempts p (tr @ tr') x"

definition retry_laws :: "ext \<Rightarrow> bool" where
  "retry_laws X \<longleftrightarrow> (\<forall>p tr x. exec (RetryOnConflict X p) tr x \<longrightarrow> attempts p tr x)"

definition ext_laws :: "ext \<Rightarrow> bool" where
  "ext_laws X \<longleftrightarrow> finalizer_laws X \<and> condition_laws X \<and> equality_laws X \<and> owner_laws X \<and>
     retry_laws X"

lemma condition_laws_set:
  "condition_laws X \<Longrightarrow> findCond t (SetStatusCondition X cs c) =
     (if t = cond_Type c then Some c else findCond t cs)"
  by (auto simp: condition_laws_def)

lemma attempts_mem:
  assumes "attempts p tr x" "(q, r) \<in> set tr" "calls_only P p"
  shows "P q"
  using assms by (induction rule: attempts.induct) (auto dest: calls_only_exec)

lemma attempts_result:
  "attempts p tr x \<Longrightarrow> \<exists>t1 t2. tr = t1 @ t2 \<and> exec p t2 x"
proof (induction rule: attempts.induct)
  case (last_attempt tr x)
  then have "tr = [] @ tr \<and> exec p tr x" by simp
  then show ?case by blast
next
  case (retried tr e tr' x)
  then obtain t1 t2 where "tr' = t1 @ t2" "exec p t2 x" by blast
  then have "tr @ tr' = (tr @ t1) @ t2 \<and> exec p t2 x" by simp
  then show ?case by blast
qed

subsection \<open>An instance\<close>

fun set_condition :: "Condition list \<Rightarrow> Condition \<Rightarrow> Condition list" where
  "set_condition [] c = [c]"
| "set_condition (d # ds) c =
     (if cond_Type d = cond_Type c then c # ds else d # set_condition ds c)"

text \<open>One retry after a conflict.\<close>

definition retry_once :: "(error + unit) kio \<Rightarrow> (error + unit) kio" where
  "retry_once p = andThen p (\<lambda>r. case r of
     Inl e \<Rightarrow> if err_kind e = KubeConflict then p else Return (Inl e)
   | Inr u \<Rightarrow> Return (Inr u))"

fun nested_int64 :: "json \<Rightarrow> string list \<Rightarrow> error + int option" where
  "nested_int64 (JNum n) [] = Inr (Some n)"
| "nested_int64 (JObj ms) (f # fs) =
     (case map_of ms f of None \<Rightarrow> Inr None | Some v \<Rightarrow> nested_int64 v fs)"
| "nested_int64 _ _ = Inl (mkErr OtherError ''accessor error'')"

definition refExt :: ext where
  "refExt = \<lparr>
     ContainsFinalizer = (\<lambda>fs f. f \<in> set fs),
     AddFinalizer = (\<lambda>fs f. if f \<in> set fs then fs else fs @ [f]),
     RemoveFinalizer = (\<lambda>fs f. filter (\<lambda>g. g \<noteq> f) fs),
     SetStatusCondition = set_condition,
     SetControllerReference = (\<lambda>ow ns m. Inr (m\<lparr>om_Owner := Some ow\<rparr>)),
     RetryOnConflict = retry_once,
     SpecDeepEqual = spec_eq,
     MapDeepEqual = same_map,
     NestedInt64 = nested_int64,
     Recorder = True\<rparr>"

lemma findCond_set_condition_same:
  "findCond (cond_Type c) (set_condition cs c) = Some c"
  by (induction cs) (auto simp: findCond_def)

lemma findCond_set_condition_other:
  "t \<noteq> cond_Type c \<Longrightarrow> findCond t (set_condition cs c) = findCond t cs"
  by (induction cs) (auto simp: findCond_def)

lemma exec_retry_once: "exec (retry_once p) tr x \<Longrightarrow> attempts p tr x"
  by (auto simp: retry_once_def exec_andThen_iff ex_sum_iff split: if_splits
      intro: attempts.intros)

lemma refExt_laws: "ext_laws refExt"
  by (auto simp: ext_laws_def finalizer_laws_def condition_laws_def equality_laws_def
      owner_laws_def retry_laws_def refExt_def findCond_set_condition_same
      findCond_set_condition_other exec_retry_once)

section \<open>Events\<close>

text \<open>The \<open>event\<close> methods of the reconcilers: nothing without a recorder.\<close>

definition emit :: "ext \<Rightarrow> kind \<Rightarrow> ObjectMeta \<Rightarrow> string \<Rightarrow> string \<Rightarrow> string \<Rightarrow> unit kio" where
  "emit X k m typ reason msg =
     (if Recorder X then ask (KEvent k (om_Namespace m, om_Name m) typ reason msg) (\<lambda>_. ())
      else Return ())"

lemma calls_only_emit [calls_intros]:
  "(\<And>k n a b c. P (KEvent k n a b c)) \<Longrightarrow> calls_only P (emit X k m typ reason msg)"
  by (simp add: emit_def calls_intros)

lemma exec_emitD:
  "exec (emit X k m typ reason msg) tr x \<Longrightarrow>
   tr = [] \<or> (\<exists>r. tr = [(KEvent k (om_Namespace m, om_Name m) typ reason msg, r)])"
  by (auto simp: emit_def split: if_splits)

end
