(* ===== verification/Pdns_Client.thy ===== *)
theory Pdns_Client
  imports Kube_Client
begin

text \<open>
  \<open>internal/pdnsclient/client.go\<close>: the client of the PowerDNS HTTP API.  Every operation is
  one request of the shared transport function \<open>do\<close> (here \<open>doReq\<close>), which sorts replies into
  results and errors.  The locale \<open>pdns_call\<close> is the contract of an operation towards the
  controllers: exactly one request, with the client's key, to the operation's own path, and a
  result that depends on the reply alone; it is interpreted for each of the nine operations.
\<close>

section \<open>URLs\<close>

text \<open>\<open>url.PathEscape\<close> and \<open>url.PathUnescape\<close> of \<open>net/url\<close>.\<close>

definition path_safe :: "char \<Rightarrow> bool" where
  "path_safe c \<longleftrightarrow> (let n = of_char c :: nat in
     48 \<le> n \<and> n \<le> 57 \<or> 65 \<le> n \<and> n \<le> 90 \<or> 97 \<le> n \<and> n \<le> 122 \<or> c \<in> set ''-_.~$&+=:@'')"

definition upper_hex :: "nat \<Rightarrow> char" where
  "upper_hex d = (if d < 10 then char_of (48 + d) else char_of (55 + d))"

definition escape_char :: "char \<Rightarrow> string" where
  "escape_char c = (if path_safe c then [c]
     else let n = of_char c :: nat in [CHR ''%'', upper_hex (n div 16), upper_hex (n mod 16)])"

definition PathEscape :: "string \<Rightarrow> string" where
  "PathEscape s = concat (map escape_char s)"

definition unhex :: "char \<Rightarrow> nat option" where
  "unhex c = (let n = of_char c :: nat in
     if 48 \<le> n \<and> n \<le> 57 then Some (n - 48)
     else if 65 \<le> n \<and> n \<le> 70 then Some (n - 55)
     else if 97 \<le> n \<and> n \<le> 102 then Some (n - 87)
     else None)"

fun PathUnescape :: "string \<Rightarrow> string option" where
  "PathUnescape [] = Some []"
| "PathUnescape (c # cs) =
     (if c = CHR ''%'' then
        (case cs of
           h # l # rest \<Rightarrow>
             (case (unhex h, unhex l) of
                (Some a, Some b) \<Rightarrow> map_option (\<lambda>t. char_of (16 * a + b) # t) (PathUnescape rest)
              | _ \<Rightarrow> None)
         | _ \<Rightarrow> None)
      else map_option (\<lambda>t. c # t) (PathUnescape cs))"

definition zonesPath :: string where
  "zonesPath = ''/servers/localhost/zones''"

definition zonePath :: "string \<Rightarrow> string" where
  "zonePath name = ''/servers/localhost/zones/'' @ PathEscape name"

subsection \<open>Escaping is invertible and keeps a name in one path segment\<close>

lemma of_char_less_256: "(of_char c :: nat) < 256"
  using of_char_mod_256 [of c, where 'a = nat] by (metis mod_less_divisor zero_less_numeral)

lemma unhex_upper_hex: "d < 16 \<Longrightarrow> unhex (upper_hex d) = Some d"
  by (auto simp: unhex_def upper_hex_def Let_def of_char_of)

lemma path_safe_percent [simp]: "\<not> path_safe (CHR ''%'')"
  by (simp add: path_safe_def)

lemma PathUnescape_escape_char:
  "PathUnescape (escape_char c @ rest) = map_option (\<lambda>t. c # t) (PathUnescape rest)"
proof (cases "path_safe c")
  case True
  then have "c \<noteq> CHR ''%''" by auto
  with True show ?thesis by (simp add: escape_char_def)
next
  case False
  define n :: nat where "n = of_char c"
  have n: "n < 256" by (simp add: n_def of_char_less_256)
  have "n div 16 < 16" "n mod 16 < 16" using n by auto
  then have "unhex (upper_hex (n div 16)) = Some (n div 16)"
    "unhex (upper_hex (n mod 16)) = Some (n mod 16)"
    by (simp_all add: unhex_upper_hex)
  moreover have "char_of (16 * (n div 16) + n mod 16) = c"
    by (simp add: n_def)
  ultimately show ?thesis using False
    by (simp add: escape_char_def n_def [symmetric] Let_def)
qed

lemma PathUnescape_PathEscape: "PathUnescape (PathEscape s) = Some s"
  by (induction s) (simp_all add: PathEscape_def PathUnescape_escape_char)

lemma PathEscape_inject: "PathEscape s = PathEscape t \<Longrightarrow> s = t"
  by (metis PathUnescape_PathEscape option.inject)

lemma of_char_upper_hex:
  "d < 16 \<Longrightarrow> (of_char (upper_hex d) :: nat) = (if d < 10 then 48 + d else 55 + d)"
  by (auto simp: upper_hex_def of_char_of)

lemma upper_hex_not_slash: "d < 16 \<Longrightarrow> upper_hex d \<noteq> CHR ''/''"
  using of_char_upper_hex [of d] by (auto split: if_splits)

lemma PathEscape_one_segment: "CHR ''/'' \<notin> set (PathEscape s)"
proof -
  have "CHR ''/'' \<notin> set (escape_char c)" for c
  proof (cases "path_safe c")
    case True
    then have "c \<noteq> CHR ''/''" by (auto simp: path_safe_def)
    with True show ?thesis by (simp add: escape_char_def)
  next
    case False
    have "(of_char c :: nat) div 16 < 16"
      using of_char_less_256 [of c] by (simp add: less_mult_imp_div_less)
    with False show ?thesis
      using upper_hex_not_slash [of "of_char c mod 16"] upper_hex_not_slash [of "of_char c div 16"]
      by (auto simp: escape_char_def Let_def)
  qed
  then show ?thesis by (auto simp: PathEscape_def)
qed

section \<open>The transport\<close>

record Client =
  cl_baseURL :: string
  cl_apiKey :: string

definition New :: "string \<Rightarrow> string \<Rightarrow> Client" where
  "New baseURL apiKey = \<lparr>cl_baseURL = TrimSuffix baseURL ''/'', cl_apiKey = apiKey\<rparr>"

definition ErrNotFound :: error where
  "ErrNotFound = mkErr PdnsNotFound ''pdns: not found''"

definition isAlreadyExists :: "string \<Rightarrow> bool" where
  "isAlreadyExists body = (let b = ToLower body in
     Contains b ''already exists'' \<or> Contains b ''duplicate key'')"

definition mkRequest :: "Client \<Rightarrow> string \<Rightarrow> string \<Rightarrow> json option \<Rightarrow> HttpRequest" where
  "mkRequest c meth path body =
     \<lparr>hq_Method = meth,
      hq_URL = cl_baseURL c @ ''/api/v1'' @ path,
      hq_Header = (''X-API-Key'', cl_apiKey c) #
        (if body = None then [] else [(''Content-Type'', ''application/json'')]),
      hq_Body = body\<rparr>"

text \<open>What \<open>do\<close> makes of a reply; \<open>decode\<close> is the last step, \<open>Decode(out)\<close> or nothing.\<close>

definition outcome ::
  "string \<Rightarrow> string \<Rightarrow> (json option \<Rightarrow> error + 'a) \<Rightarrow> HttpReply \<Rightarrow> error + 'a" where
  "outcome meth path decode reply =
     (case reply of
        RequestRefused m \<Rightarrow> Inl (mkErr OtherError m)
      | TransportFailed m \<Rightarrow> Inl (mkErr PdnsUnreachable (''pdns: unreachable: '' @ m))
      | HttpReply code status bod js \<Rightarrow>
          if code = 404 then Inl ErrNotFound
          else if code < 200 \<or> code > 299 then
            (let body = TrimSpace (take 4096 bod) in
             if code = 409 \<or> isAlreadyExists body
             then Inl (mkErr PdnsAlreadyExists
               (''pdns: already exists: '' @ meth @ '' '' @ path @ '': '' @ body))
             else Inl (mkErr OtherError
               (''pdns: '' @ meth @ '' '' @ path @ '': '' @ status @ '': '' @ body)))
          else decode js)"

fun respHttp :: "resp \<Rightarrow> HttpReply" where
  "respHttp (RHttp h) = h"
| "respHttp _ = TransportFailed ''no reply''"

definition doReq ::
  "Client \<Rightarrow> string \<Rightarrow> string \<Rightarrow> json option \<Rightarrow> (json option \<Rightarrow> error + 'a) \<Rightarrow> (error + 'a) kio"
  where
  "doReq c meth path body decode =
     ask (HttpDo (mkRequest c meth path body)) (\<lambda>r. outcome meth path decode (respHttp r))"

definition into :: "(json \<Rightarrow> error + 'a) \<Rightarrow> json option \<Rightarrow> error + 'a" where
  "into d js = (case js of None \<Rightarrow> Inl (mkErr OtherError ''invalid JSON'') | Some v \<Rightarrow> d v)"

definition noOut :: "json option \<Rightarrow> error + unit" where
  "noOut js = Inr ()"

section \<open>Operations\<close>

definition GetZone :: "Client \<Rightarrow> string \<Rightarrow> (error + PdnsZone) kio" where
  "GetZone c name = doReq c ''GET'' (zonePath name) None (into decode_Zone)"

definition CreateZone :: "Client \<Rightarrow> PdnsZone \<Rightarrow> (error + PdnsZone) kio" where
  "CreateZone c z =
     (let z' = (if pz_Nameservers z = None then z\<lparr>pz_Nameservers := Some []\<rparr> else z) in
      doReq c ''POST'' zonesPath (Some (marshal_Zone z')) (into decode_Zone))"

definition UpdateZone :: "Client \<Rightarrow> string \<Rightarrow> ZoneUpdate \<Rightarrow> (error + unit) kio" where
  "UpdateZone c name u =
     (let u' = (if zu_Masters u = None then u\<lparr>zu_Masters := Some []\<rparr> else u) in
      doReq c ''PUT'' (zonePath name) (Some (marshal_ZoneUpdate u')) noOut)"

text \<open>A 404 counts as success.\<close>

definition gone_ok :: "error + unit \<Rightarrow> error + unit" where
  "gone_ok r = (case r of
     Inl e \<Rightarrow> (if err_kind e = PdnsNotFound then Inr () else Inl e)
   | Inr u \<Rightarrow> Inr u)"

definition DeleteZone :: "Client \<Rightarrow> string \<Rightarrow> (error + unit) kio" where
  "DeleteZone c name =
     andThen (doReq c ''DELETE'' (zonePath name) None noOut) (\<lambda>r. Return (gone_ok r))"

definition PatchRRSets :: "Client \<Rightarrow> string \<Rightarrow> PdnsRRSet list \<Rightarrow> (error + unit) kio" where
  "PatchRRSets c zone rrsets =
     doReq c ''PATCH'' (zonePath zone) (Some (marshal_RRSets rrsets)) noOut"

definition ListCryptokeys :: "Client \<Rightarrow> string \<Rightarrow> (error + Cryptokey list) kio" where
  "ListCryptokeys c zone =
     doReq c ''GET'' (zonePath zone @ ''/cryptokeys'') None (into (decode_list decode_Cryptokey))"

definition CreateCryptokey :: "Client \<Rightarrow> string \<Rightarrow> Cryptokey \<Rightarrow> (error + Cryptokey) kio" where
  "CreateCryptokey c zone k =
     doReq c ''POST'' (zonePath zone @ ''/cryptokeys'') (Some (marshal_Cryptokey k))
       (into decode_Cryptokey)"

definition UpdateCryptokey :: "Client \<Rightarrow> string \<Rightarrow> Cryptokey \<Rightarrow> (error + unit) kio" where
  "UpdateCryptokey c zone k =
     doReq c ''PUT'' (zonePath zone @ ''/cryptokeys/'' @ itoa (ck_ID k))
       (Some (marshal_Cryptokey k)) noOut"

definition RectifyZone :: "Client \<Rightarrow> string \<Rightarrow> (error + unit) kio" where
  "RectifyZone c zone = doReq c ''PUT'' (zonePath zone @ ''/rectify'') None noOut"

section \<open>The contract of an operation\<close>

locale pdns_call =
  fixes op :: "Client \<Rightarrow> (error + 'a) kio"
    and meth path :: string
    and body :: "json option"
    and result :: "HttpReply \<Rightarrow> error + 'a"
  assumes one_request:
    "exec (op c) tr x \<longleftrightarrow>
       (\<exists>r. tr = [(HttpDo (mkRequest c meth path body), r)] \<and> x = result (respHttp r))"
begin

lemma calls: "P (HttpDo (mkRequest c meth path body)) \<Longrightarrow> calls_only P (op c)"
  by (rule calls_onlyI) (auto simp: one_request)

lemma exec_then:
  "exec (andThen (op c) f) tr x \<longleftrightarrow>
     (\<exists>r t. tr = (HttpDo (mkRequest c meth path body), r) # t \<and> exec (f (result (respHttp r))) t x)"
proof
  assume "exec (andThen (op c) f) tr x"
  then show "\<exists>r t. tr = (HttpDo (mkRequest c meth path body), r) # t \<and>
      exec (f (result (respHttp r))) t x"
    by (auto simp: one_request elim!: exec_andThenE)
next
  assume "\<exists>r t. tr = (HttpDo (mkRequest c meth path body), r) # t \<and>
      exec (f (result (respHttp r))) t x"
  then obtain r t where tr: "tr = [(HttpDo (mkRequest c meth path body), r)] @ t"
    and k: "exec (f (result (respHttp r))) t x" by auto
  have "exec (op c) [(HttpDo (mkRequest c meth path body), r)] (result (respHttp r))"
    by (simp add: one_request)
  from exec_andThenI [of _ _ _ f, OF this k] tr show "exec (andThen (op c) f) tr x" by simp
qed

lemma carries_key:
  assumes "exec (op c) tr x" "(HttpDo h, r) \<in> set tr"
  shows "(''X-API-Key'', cl_apiKey c) \<in> set (hq_Header h)"
  using assms by (auto simp: one_request mkRequest_def)

lemma unreachable_iff:
  assumes "exec (op c) [(HttpDo h, RHttp (TransportFailed m))] x"
  shows "x = result (TransportFailed m)"
  using assms by (auto simp: one_request)

end

lemmas operation_defs = GetZone_def CreateZone_def UpdateZone_def DeleteZone_def
  PatchRRSets_def ListCryptokeys_def CreateCryptokey_def UpdateCryptokey_def RectifyZone_def

lemma exec_doReq [simp]:
  "exec (doReq c meth path body decode) tr x \<longleftrightarrow>
     (\<exists>r. tr = [(HttpDo (mkRequest c meth path body), r)] \<and>
        x = outcome meth path decode (respHttp r))"
  by (simp add: doReq_def)

interpretation get_zone: pdns_call "\<lambda>c. GetZone c name" "''GET''" "zonePath name" None
  "outcome ''GET'' (zonePath name) (into decode_Zone)"
  by unfold_locales (simp add: GetZone_def)

interpretation create_zone: pdns_call "\<lambda>c. CreateZone c z" "''POST''" zonesPath
  "Some (marshal_Zone (if pz_Nameservers z = None then z\<lparr>pz_Nameservers := Some []\<rparr> else z))"
  "outcome ''POST'' zonesPath (into decode_Zone)"
  by unfold_locales (simp add: CreateZone_def Let_def)

interpretation update_zone: pdns_call "\<lambda>c. UpdateZone c name u" "''PUT''" "zonePath name"
  "Some (marshal_ZoneUpdate (if zu_Masters u = None then u\<lparr>zu_Masters := Some []\<rparr> else u))"
  "outcome ''PUT'' (zonePath name) noOut"
  by unfold_locales (simp add: UpdateZone_def Let_def)

interpretation delete_zone: pdns_call "\<lambda>c. DeleteZone c name" "''DELETE''" "zonePath name" None
  "\<lambda>h. gone_ok (outcome ''DELETE'' (zonePath name) noOut h)"
  by unfold_locales (auto simp: DeleteZone_def exec_andThen_iff)

interpretation patch_rrsets: pdns_call "\<lambda>c. PatchRRSets c zone rrsets" "''PATCH''" "zonePath zone"
  "Some (marshal_RRSets rrsets)" "outcome ''PATCH'' (zonePath zone) noOut"
  by unfold_locales (simp add: PatchRRSets_def)

interpretation list_cryptokeys: pdns_call "\<lambda>c. ListCryptokeys c zone" "''GET''"
  "zonePath zone @ ''/cryptokeys''" None
  "outcome ''GET'' (zonePath zone @ ''/cryptokeys'') (into (decode_list decode_Cryptokey))"
  by unfold_locales (simp add: ListCryptokeys_def)

interpretation create_cryptokey: pdns_call "\<lambda>c. CreateCryptokey c zone k" "''POST''"
  "zonePath zone @ ''/cryptokeys''" "Some (marshal_Cryptokey k)"
  "outcome ''POST'' (zonePath zone @ ''/cryptokeys'') (into decode_Cryptokey)"
  by unfold_locales (simp add: CreateCryptokey_def)

interpretation update_cryptokey: pdns_call "\<lambda>c. UpdateCryptokey c zone k" "''PUT''"
  "zonePath zone @ ''/cryptokeys/'' @ itoa (ck_ID k)" "Some (marshal_Cryptokey k)"
  "outcome ''PUT'' (zonePath zone @ ''/cryptokeys/'' @ itoa (ck_ID k)) noOut"
  by unfold_locales (simp add: UpdateCryptokey_def)

interpretation rectify_zone: pdns_call "\<lambda>c. RectifyZone c zone" "''PUT''"
  "zonePath zone @ ''/rectify''" None "outcome ''PUT'' (zonePath zone @ ''/rectify'') noOut"
  by unfold_locales (simp add: RectifyZone_def)

section \<open>Properties of the client\<close>

lemma into_err: "(\<And>v e. d v = Inl e \<Longrightarrow> err_kind e = OtherError) \<Longrightarrow>
  into d js = Inl e \<Longrightarrow> err_kind e = OtherError"
  by (auto simp: into_def split: option.splits)

text \<open>The reply says "this object already exists": a 409, or a body that says so.\<close>

definition reply_conflict :: "HttpReply \<Rightarrow> bool" where
  "reply_conflict h = (case h of HttpReply code st body js \<Rightarrow>
     (code < 200 \<or> code > 299) \<and> code \<noteq> 404 \<and>
     (code = 409 \<or> isAlreadyExists (TrimSpace (take 4096 body))) | _ \<Rightarrow> False)"

definition reply_404 :: "HttpReply \<Rightarrow> bool" where
  "reply_404 h = (case h of HttpReply code st body js \<Rightarrow> code = 404 | _ \<Rightarrow> False)"

definition reply_2xx :: "HttpReply \<Rightarrow> bool" where
  "reply_2xx h = (case h of HttpReply code st body js \<Rightarrow> 200 \<le> code \<and> code \<le> 299 | _ \<Rightarrow> False)"

definition is_err :: "err_kind \<Rightarrow> error + 'a \<Rightarrow> bool" where
  "is_err k x = (case x of Inl e \<Rightarrow> err_kind e = k | Inr _ \<Rightarrow> False)"

lemma outcome_classified:
  assumes "\<And>js e. decode js = Inl e \<Longrightarrow> err_kind e = OtherError"
  shows "is_err PdnsNotFound (outcome m p decode h) \<longleftrightarrow> reply_404 h"
    and "is_err PdnsUnreachable (outcome m p decode h) \<longleftrightarrow> (\<exists>s. h = TransportFailed s)"
    and "is_err PdnsAlreadyExists (outcome m p decode h) \<longleftrightarrow> reply_conflict h"
    and "outcome m p decode h = Inr x \<longleftrightarrow> reply_2xx h \<and> decode (reply_JSON h) = Inr x"
  using assms
  by (cases h; force simp: outcome_def is_err_def reply_404_def reply_conflict_def reply_2xx_def
      ErrNotFound_def Let_def split: sum.splits)+

lemma noOut_err: "noOut js = Inl e \<Longrightarrow> err_kind e = OtherError"
  by (simp add: noOut_def)

lemma into_Zone_err: "into decode_Zone js = Inl e \<Longrightarrow> err_kind e = OtherError"
  by (rule into_err [OF decode_Zone_err])

lemma outcome_unit:
  shows "is_err PdnsNotFound (outcome m p noOut h) \<longleftrightarrow> reply_404 h"
    and "is_err PdnsUnreachable (outcome m p noOut h) \<longleftrightarrow> (\<exists>s. h = TransportFailed s)"
    and "is_err PdnsAlreadyExists (outcome m p noOut h) \<longleftrightarrow> reply_conflict h"
    and "outcome m p noOut h = Inr x \<longleftrightarrow> reply_2xx h \<and> noOut (reply_JSON h) = Inr x"
  by (rule outcome_classified, erule noOut_err)+

lemma outcome_zone:
  shows "is_err PdnsNotFound (outcome m p (into decode_Zone) h) \<longleftrightarrow> reply_404 h"
    and "is_err PdnsUnreachable (outcome m p (into decode_Zone) h) \<longleftrightarrow> (\<exists>s. h = TransportFailed s)"
    and "is_err PdnsAlreadyExists (outcome m p (into decode_Zone) h) \<longleftrightarrow> reply_conflict h"
    and "outcome m p (into decode_Zone) h = Inr x \<longleftrightarrow> reply_2xx h \<and> (into decode_Zone) (reply_JSON h) = Inr x"
  by (rule outcome_classified, erule into_Zone_err)+

lemma outcome_noOut_ok: "outcome m p noOut h = Inr () \<longleftrightarrow> reply_2xx h"
  by (simp add: outcome_unit(4) noOut_def)

lemma gone_ok_iff: "gone_ok (outcome m p noOut h) = Inr () \<longleftrightarrow> reply_2xx h \<or> reply_404 h"
  using outcome_unit(1) [of m p h] outcome_noOut_ok [of m p h]
  by (auto simp: gone_ok_def is_err_def split: sum.splits if_splits)

text \<open>
  How an API call ends is decided by the reply.  \<open>GetZone\<close> reports "not found" exactly
  for a 404, "unreachable" exactly when the transport failed, "already exists" exactly for a
  non-2xx reply other than 404 that is a 409 or whose body says so (in PowerDNS's words or
  Postgres's), and returns a zone exactly when the reply is 2xx and its body decodes to it.
\<close>

theorem GetZone_classifies:
  assumes "exec (GetZone c name) [(q, RHttp h)] x"
  shows "(is_err PdnsNotFound x \<longleftrightarrow> reply_404 h) \<and>
    (is_err PdnsUnreachable x \<longleftrightarrow> (\<exists>s. h = TransportFailed s)) \<and>
    (is_err PdnsAlreadyExists x \<longleftrightarrow> reply_conflict h) \<and>
    (\<forall>z. x = Inr z \<longleftrightarrow> reply_2xx h \<and> into decode_Zone (reply_JSON h) = Inr z)"
  using assms by (auto simp: get_zone.one_request outcome_zone)

definition demoClient :: Client where
  "demoClient = New ''http://demo-api.dns.svc:8081/'' ''k3y''"

definition dupReply :: HttpReply where
  "dupReply = HttpReply 500 ''500 Internal Server Error''
     ''Database error: Duplicate key value violates unique constraint'' None"

theorem GetZone_classifies_witness:
  "is_err PdnsAlreadyExists (outcome ''GET'' (zonePath ''a.'') (into decode_Zone) dupReply)
     \<longleftrightarrow> reply_conflict dupReply"
proof -
  have "exec (GetZone demoClient ''a.'')
     [(HttpDo (mkRequest demoClient ''GET'' (zonePath ''a.'') None), RHttp dupReply)]
     (outcome ''GET'' (zonePath ''a.'') (into decode_Zone) dupReply)"
    by (simp add: get_zone.one_request)
  from GetZone_classifies [OF this] show ?thesis by simp
qed

text \<open>
  C26: Zone names cannot escape their place in the URL.  The path of a zone's sub-resource
  (nothing, \<open>/cryptokeys\<close>, \<open>/rectify\<close>, ...) determines the zone name and the sub-resource, so
  requests for two different zones never address the same object, whatever bytes the names
  contain; and unescaping the last segment gives the zone name back.
\<close>

theorem zonePath_unambiguous:
  assumes "zonePath a @ x = zonePath b @ y"
    and "x = [] \<or> hd x = CHR ''/''" and "y = [] \<or> hd y = CHR ''/''"
  shows "a = b \<and> x = y \<and> PathUnescape (drop (Suc (length zonesPath)) (zonePath a)) = Some a"
proof -
  have span: "takeWhile (\<lambda>c. c \<noteq> CHR ''/'') (PathEscape s @ z) = PathEscape s"
    if "z = [] \<or> hd z = CHR ''/''" for s z
    using that PathEscape_one_segment [of s]
    by (cases z) (auto simp: takeWhile_append)
  from assms(1) have eq: "PathEscape a @ x = PathEscape b @ y"
    by (simp add: zonePath_def)
  with span [OF assms(2), of a] span [OF assms(3), of b] have "PathEscape a = PathEscape b" by simp
  with eq have "a = b" "x = y" by (auto dest: PathEscape_inject)
  then show ?thesis by (simp add: zonePath_def zonesPath_def PathUnescape_PathEscape)
qed

theorem zonePath_unambiguous_witness:
  "PathUnescape (drop (Suc (length zonesPath)) (zonePath ''a/../b.'')) = Some ''a/../b.''"
  using zonePath_unambiguous [of "''a/../b.''" "''/rectify''" "''a/../b.''" "''/rectify''"] by simp


definition demoPdnsZone :: PdnsZone where
  "demoPdnsZone = \<lparr>pz_ID = ''a.'', pz_Name = ''a.'', pz_Kind = ''Native'', pz_Serial = 7,
     pz_Masters = Some [], pz_Nameservers = Some [], pz_DNSSEC = False,
     pz_RRSets = [\<lparr>prr_Name = ''w.a.'', prr_Type = ''A'', prr_TTL = 0, prr_ChangeType = [],
       prr_Records = [\<lparr>rec_Content = ''192.0.2.1'', rec_Disabled = False\<rparr>]\<rparr>]\<rparr>"


text \<open>
  Deleting a zone is idempotent at the API: \<open>DeleteZone\<close> issues one DELETE on the zone's
  path and succeeds exactly when the server answers 2xx or 404; any other reply is an error.
\<close>

lemma DeleteZone_outcome:
  assumes "exec (DeleteZone c name) tr x"
  shows "\<exists>r. tr = [(HttpDo (mkRequest c ''DELETE'' (zonePath name) None), r)] \<and>
    (x = Inr () \<longleftrightarrow> reply_2xx (respHttp r) \<or> reply_404 (respHttp r))"
  using assms by (auto simp: delete_zone.one_request gone_ok_iff)

end
