(* ===== verification/Controller_Common.thy ===== *)
theory Controller_Common
  imports Pdns_Client
begin

text \<open>
  What the reconcilers share: \<open>conditions.go\<close>, \<open>pdnsaccess.go\<close>, and the helpers of
  \<open>zone_controller.go\<close>, \<open>rrset_controller.go\<close> and \<open>powerdnsserver_controller.go\<close> that more
  than one controller calls.  The locale \<open>finalizer_protocol\<close> is the opening every
  finalizer-bearing reconciler has: fetch the object, hand a deleting one to the delete path,
  store the finalizer before doing anything else.
\<close>

section \<open>Conditions\<close>

definition setCondOn ::
  "ext \<Rightarrow> Condition list \<Rightarrow> int \<Rightarrow> string \<Rightarrow> string \<Rightarrow> string \<Rightarrow> string \<Rightarrow> Condition list" where
  "setCondOn X conds gen condType status reason message =
     SetStatusCondition X conds
       \<lparr>cond_Type = condType, cond_Status = status, cond_Reason = reason,
        cond_Message = message, cond_ObservedGeneration = gen\<rparr>"

definition setCondition ::
  "ext \<Rightarrow> PowerDNSServer \<Rightarrow> string \<Rightarrow> string \<Rightarrow> string \<Rightarrow> string \<Rightarrow> PowerDNSServer" where
  "setCondition X s condType status reason message =
     s\<lparr>srv_Status := (srv_Status s)\<lparr>pst_Conditions :=
       SetStatusCondition X (pst_Conditions (srv_Status s))
         \<lparr>cond_Type = condType, cond_Status = status, cond_Reason = reason,
          cond_Message = message, cond_ObservedGeneration = om_Generation (srv_Meta s)\<rparr>\<rparr>\<rparr>"

definition trueCond :: "ext \<Rightarrow> PowerDNSServer \<Rightarrow> string \<Rightarrow> string \<Rightarrow> string \<Rightarrow> PowerDNSServer" where
  "trueCond X s condType reason message = setCondition X s condType ''True'' reason message"

definition falseCond :: "ext \<Rightarrow> PowerDNSServer \<Rightarrow> string \<Rightarrow> string \<Rightarrow> string \<Rightarrow> PowerDNSServer" where
  "falseCond X s condType reason message = setCondition X s condType ''False'' reason message"

section \<open>Access to a server\<close>

fun pickKey :: "gomap \<Rightarrow> string list \<Rightarrow> string" where
  "pickKey data [] = []"
| "pickKey data (k # ks) =
     (case map_of data k of
        Some v \<Rightarrow> if length v > 0 then v else pickKey data ks
      | None \<Rightarrow> pickKey data ks)"

definition srv_key :: "PowerDNSServer \<Rightarrow> NamespacedName" where
  "srv_key s = (om_Namespace (srv_Meta s), om_Name (srv_Meta s))"

definition pdnsClientFor :: "PowerDNSServer \<Rightarrow> (error + Client) kio" where
  "pdnsClientFor server =
     (let ns = om_Namespace (srv_Meta server);
          ep = pst_APIEndpoint (srv_Status server);
          sn = pst_APIKeySecretName (srv_Status server) in
      if ep = [] \<or> sn = [] then
        Return (Inl (mkErr OtherError (''PowerDNSServer '' @ showKey (srv_key server) @
          '' has not published its API endpoint yet'')))
      else
        andThen (ask (KGet KSecret (ns, sn)) respSecret) (\<lambda>r. Return (
          case r of
            Inl e \<Rightarrow> Inl (wrapErr (''read API key secret '' @ sn) e)
          | Inr sec \<Rightarrow>
              (let key = pickKey (sec_Data sec) [''api-key''] in
               if key = [] then Inl (mkErr OtherError
                 (''secret '' @ ns @ ''/'' @ sn @ '' has no api-key entry''))
               else Inr (New ep key)))))"

fun allowedBy :: "string list \<Rightarrow> string \<Rightarrow> bool" where
  "allowedBy [] ns = False"
| "allowedBy (a # as) ns = (if a = ''*'' \<or> a = ns then True else allowedBy as ns)"

definition namespaceAllowed :: "PowerDNSServer \<Rightarrow> string \<Rightarrow> bool" where
  "namespaceAllowed server ns =
     (if ns = om_Namespace (srv_Meta server) then True
      else allowedBy (ps_AllowedNamespaces (srv_Spec server)) ns)"

definition refKey :: "ObjectRef \<Rightarrow> string \<Rightarrow> string" where
  "refKey ref defaultNS =
     (let ns = (if ref_Namespace ref = [] then defaultNS else ref_Namespace ref) in
      ns @ ''/'' @ ref_Name ref)"

definition serverKeyFor :: "Zone \<Rightarrow> NamespacedName" where
  "serverKeyFor zone =
     (let ref = zs_ServerRef (zone_Spec zone);
          ns = (if ref_Namespace ref = [] then om_Namespace (zone_Meta zone)
                else ref_Namespace ref) in
      (ns, ref_Name ref))"

definition zoneKeyFor :: "RRSet \<Rightarrow> NamespacedName" where
  "zoneKeyFor rr =
     (let ref = rs_ZoneRef (rr_Spec rr);
          ns = (if ref_Namespace ref = [] then om_Namespace (rr_Meta rr)
                else ref_Namespace ref) in
      (ns, ref_Name ref))"

definition apiReason :: "error \<Rightarrow> string" where
  "apiReason e = (if err_kind e = PdnsUnreachable then ''APIUnreachable'' else ''APIError'')"

lemma allowedBy_iff: "allowedBy as ns \<longleftrightarrow> ''*'' \<in> set as \<or> ns \<in> set as"
  by (induction as) auto

lemma namespaceAllowed_iff:
  "namespaceAllowed server ns \<longleftrightarrow> ns = om_Namespace (srv_Meta server) \<or>
     ''*'' \<in> set (ps_AllowedNamespaces (srv_Spec server)) \<or>
     ns \<in> set (ps_AllowedNamespaces (srv_Spec server))"
  by (auto simp: namespaceAllowed_def allowedBy_iff)

lemma refKey_zoneKeyFor: "refKey (rs_ZoneRef (rr_Spec rr)) (om_Namespace (rr_Meta rr)) = showKey (zoneKeyFor rr)"
  by (simp add: refKey_def zoneKeyFor_def showKey_def Let_def)

lemma refKey_serverKeyFor:
  "refKey (zs_ServerRef (zone_Spec z)) (om_Namespace (zone_Meta z)) = showKey (serverKeyFor z)"
  by (simp add: refKey_def serverKeyFor_def showKey_def Let_def)

lemma pickKey_nonempty: "pickKey data ks \<noteq> [] \<Longrightarrow> \<exists>k \<in> set ks. map_of data k = Some (pickKey data ks)"
  by (induction ks) (auto split: option.splits if_splits)

lemma exec_pdnsClientFor:
  assumes "exec (pdnsClientFor server) tr x"
  shows "tr = [] \<or> (\<exists>r. tr = [(KGet KSecret
      (om_Namespace (srv_Meta server), pst_APIKeySecretName (srv_Status server)), r)])"
  using assms by (auto simp: pdnsClientFor_def Let_def exec_Call_iff split: if_splits)

lemma calls_only_pdnsClientFor [calls_intros]:
  "(\<And>n. P (KGet KSecret n)) \<Longrightarrow> calls_only P (pdnsClientFor server)"
  by (simp add: pdnsClientFor_def Let_def)

text \<open>The client comes from the server's published endpoint and the key in its Secret.\<close>

lemma respSecret_Inr: "respSecret r = Inr sec \<longleftrightarrow> r = RObj (ObjSecret sec)"
  by (cases r rule: respSecret.cases) auto

lemma exec_pdnsClientFor_ok:
  assumes "exec (pdnsClientFor server) tr (Inr c)"
  shows "\<exists>sec. tr = [(KGet KSecret (om_Namespace (srv_Meta server),
      pst_APIKeySecretName (srv_Status server)), RObj (ObjSecret sec))] \<and>
    map_of (sec_Data sec) ''api-key'' = Some (cl_apiKey c) \<and> cl_apiKey c \<noteq> [] \<and>
    c = New (pst_APIEndpoint (srv_Status server)) (cl_apiKey c)"
proof -
  from assms obtain r where r: "tr = [(KGet KSecret (om_Namespace (srv_Meta server),
      pst_APIKeySecretName (srv_Status server)), r)]"
    and c: "(case respSecret r of
        Inl e \<Rightarrow> Inl (wrapErr (''read API key secret '' @ pst_APIKeySecretName (srv_Status server)) e)
      | Inr sec \<Rightarrow> (let key = pickKey (sec_Data sec) [''api-key''] in
         if key = [] then Inl (mkErr OtherError (''secret '' @ om_Namespace (srv_Meta server) @
           ''/'' @ pst_APIKeySecretName (srv_Status server) @ '' has no api-key entry''))
         else Inr (New (pst_APIEndpoint (srv_Status server)) key))) = Inr c"
    by (auto simp: pdnsClientFor_def Let_def exec_Call_iff simp del: pickKey.simps split: if_splits)
  from c obtain sec where sec: "respSecret r = Inr sec"
    and key: "pickKey (sec_Data sec) [''api-key''] \<noteq> []"
    and new: "c = New (pst_APIEndpoint (srv_Status server)) (pickKey (sec_Data sec) [''api-key''])"
    by (auto simp: Let_def simp del: pickKey.simps split: sum.splits if_splits)
  from pickKey_nonempty [OF key] key new r sec show ?thesis
    by (simp add: respSecret_Inr New_def del: pickKey.simps)
qed

lemma respList_Inr: "respList r = Inr xs \<longleftrightarrow> r = RList xs"
  by (cases r) auto

lemma respZone_Inr: "respZone r = Inr x \<longleftrightarrow> r = RObj (ObjZone x)"
  by (cases r rule: respZone.cases) auto

lemma respServer_Inr: "respServer r = Inr x \<longleftrightarrow> r = RObj (ObjServer x)"
  by (cases r rule: respServer.cases) auto

lemma respRRSet_Inr: "respRRSet r = Inr x \<longleftrightarrow> r = RObj (ObjRRSet x)"
  by (cases r rule: respRRSet.cases) auto

section \<open>Requests of a pass\<close>

definition secretRequest :: "PowerDNSServer \<Rightarrow> req" where
  "secretRequest server =
     KGet KSecret (om_Namespace (srv_Meta server), pst_APIKeySecretName (srv_Status server))"

definition getRequest :: "Client \<Rightarrow> Zone \<Rightarrow> req" where
  "getRequest c zone = HttpDo (mkRequest c ''GET'' (zonePath (zs_ZoneName (zone_Spec zone))) None)"

definition patchRequest :: "Client \<Rightarrow> Zone \<Rightarrow> PdnsRRSet \<Rightarrow> req" where
  "patchRequest c zone change = HttpDo (mkRequest c ''PATCH'' (zonePath (zs_ZoneName (zone_Spec zone)))
     (Some (marshal_RRSets [change])))"

text \<open>The client a pass uses: the endpoint of the server's status, the key of its Secret.\<close>

definition client_of :: "PowerDNSServer \<Rightarrow> Secret \<Rightarrow> Client \<Rightarrow> bool" where
  "client_of server sec c \<longleftrightarrow> map_of (sec_Data sec) ''api-key'' = Some (cl_apiKey c) \<and>
     cl_apiKey c \<noteq> [] \<and> c = New (pst_APIEndpoint (srv_Status server)) (cl_apiKey c)"

definition getReply :: "Zone \<Rightarrow> resp \<Rightarrow> error + PdnsZone" where
  "getReply zone r = outcome ''GET'' (zonePath (zs_ZoneName (zone_Spec zone))) (into decode_Zone) (respHttp r)"

definition patchReply :: "Zone \<Rightarrow> resp \<Rightarrow> error + unit" where
  "patchReply zone r = outcome ''PATCH'' (zonePath (zs_ZoneName (zone_Spec zone))) noOut (respHttp r)"

lemma patchReply_ok: "patchReply zone r = Inr () \<longleftrightarrow> reply_2xx (respHttp r)"
  by (simp add: patchReply_def outcome_noOut_ok)

lemma client_cases:
  assumes "exec (andThen (pdnsClientFor server) f) tr res"
  obtains (fail) e t1 t2 where "tr = t1 @ t2" "exec (f (Inl e)) t2 res"
      "\<forall>(q, r) \<in> set t1. q = secretRequest server"
  | (ok) sec c t where "client_of server sec c" "exec (f (Inr c)) t res"
      "tr = (secretRequest server, RObj (ObjSecret sec)) # t"
proof -
  from assms obtain t1 y t2 where tr: "tr = t1 @ t2" and cl: "exec (pdnsClientFor server) t1 y"
    and k: "exec (f y) t2 res"
    by (rule exec_andThenE)
  show thesis
  proof (cases y)
    case (Inl e)
    with k exec_pdnsClientFor [OF cl] tr show ?thesis
      by (intro fail) (auto simp: secretRequest_def)
  next
    case (Inr c)
    with exec_pdnsClientFor_ok [of server t1 c] cl k tr show ?thesis
      by (auto simp: secretRequest_def client_of_def intro: ok)
  qed
qed

lemma setCondOn_Ready:
  "condition_laws X \<Longrightarrow> findCond ConditionReady (setCondOn X cs g ConditionReady s reason msg) =
     Some \<lparr>cond_Type = ConditionReady, cond_Status = s, cond_Reason = reason, cond_Message = msg,
       cond_ObservedGeneration = g\<rparr>"
  by (simp add: setCondOn_def condition_laws_set)

text \<open>The Ready condition  is true.\<close>

definition isReady :: "Condition list \<Rightarrow> bool" where
  "isReady cs \<longleftrightarrow> (case findCond ConditionReady cs of
     None \<Rightarrow> False | Some c \<Rightarrow> cond_Status c = ''True'')"

section \<open>The finalizer protocol\<close>

locale finalizer_protocol =
  fixes reconcile :: "NamespacedName \<Rightarrow> reconcile"
    and kind :: kind
    and read :: "resp \<Rightarrow> error + 'x"
    and deleting protected :: "'x \<Rightarrow> bool"
    and protect :: "'x \<Rightarrow> kobj"
    and delete body :: "'x \<Rightarrow> reconcile"
  assumes unfold_reconcile:
    "reconcile key = andThen (ask (KGet kind key) read) (\<lambda>r. case r of
       Inl e \<Rightarrow> Return (ignoreNotFound e)
     | Inr x \<Rightarrow>
         if deleting x then delete x
         else if \<not> protected x then
           tryIO (ask (KUpdate (protect x)) respUnit) (\<lambda>_. Return (Inr Requeue))
         else body x)"
begin

lemma starts_with_get:
  assumes "exec (reconcile key) tr res"
  shows "\<exists>r t. tr = (KGet kind key, r) # t"
  using assms by (auto simp: unfold_reconcile exec_Call_iff)

text \<open>A pass over an unprotected object stores the finalizer and does nothing else.\<close>

lemma unprotected_pass:
  assumes "exec (reconcile key) ((KGet kind key, r) # t) res"
    and "read r = Inr x" "\<not> deleting x" "\<not> protected x"
  shows "\<exists>r'. t = [(KUpdate (protect x), r')] \<and>
    res = (case respUnit r' of Inl e \<Rightarrow> Inl e | Inr _ \<Rightarrow> Inr Requeue)"
  using assms by (auto simp: unfold_reconcile exec_Call_iff exec_tryIO_iff split: sum.splits)

lemma gone_pass:
  assumes "exec (reconcile key) ((KGet kind key, r) # t) res"
    and "read r = Inl e" "err_kind e = KubeNotFound"
  shows "t = [] \<and> res = Inr Done"
  using assms by (simp add: unfold_reconcile exec_Call_iff ignoreNotFound_def)

lemma body_pass:
  assumes "exec (reconcile key) ((KGet kind key, r) # t) res"
    and "read r = Inr x" "\<not> deleting x" "protected x"
  shows "exec (body x) t res"
  using assms by (simp add: unfold_reconcile exec_Call_iff)

lemma delete_pass:
  assumes "exec (reconcile key) ((KGet kind key, r) # t) res"
    and "read r = Inr x" "deleting x"
  shows "exec (delete x) t res"
  using assms by (simp add: unfold_reconcile exec_Call_iff)

text \<open>An HTTP request in a pass is one of the body of a protected object, or of the delete path.\<close>

lemma http_origin:
  assumes "exec (reconcile key) tr res" "(HttpDo h, hr) \<in> set tr"
  obtains r x t where "tr = (KGet kind key, r) # t" "read r = Inr x" "deleting x"
    "exec (delete x) t res" "(HttpDo h, hr) \<in> set t"
  | r x t where "tr = (KGet kind key, r) # t" "read r = Inr x" "\<not> deleting x" "protected x"
    "exec (body x) t res" "(HttpDo h, hr) \<in> set t"
proof -
  from starts_with_get [OF assms(1)] obtain r t where tr: "tr = (KGet kind key, r) # t" by blast
  with assms have t: "(HttpDo h, hr) \<in> set t" and ex: "exec (reconcile key) ((KGet kind key, r) # t) res"
    by auto
  show thesis
  proof (cases "read r")
    case (Inl e)
    with ex t show ?thesis by (auto simp: unfold_reconcile exec_Call_iff)
  next
    case (Inr x)
    then show ?thesis
      using that tr t delete_pass [OF ex Inr] body_pass [OF ex Inr] unprotected_pass [OF ex Inr]
      by (cases "deleting x"; cases "protected x") auto
  qed
qed

end

section \<open>A small cluster\<close>

text \<open>A Ready server with its API key, and a Ready zone.\<close>

definition demoMeta :: "string \<Rightarrow> ObjectMeta" where
  "demoMeta n = (newMeta n ''dns'' [])\<lparr>om_Generation := 1\<rparr>"

definition demoServer :: PowerDNSServer where
  "demoServer = \<lparr>srv_Meta = demoMeta ''pdns'',
     srv_Spec = \<lparr>ps_Replicas = Some 2, ps_Image = [],
       ps_Resources = \<lparr>rr_Requests = None, rr_Limits = None\<rparr>,
       ps_Backend = \<lparr>be_Type = BackendPostgres, be_Postgres = None\<rparr>,
       ps_DNS = \<lparr>dns_Exposure = DNSExposureNone, dns_LoadBalancer = None, dns_Gateway = None\<rparr>,
       ps_API = \<lparr>api_Port = 8081, api_APIKeySecretRef = None, api_Gateway = None\<rparr>,
       ps_Scheduling = \<lparr>sch_NodeSelector = [], sch_Tolerations = [], sch_PriorityClassName = [],
         sch_SpreadAcrossZones = False\<rparr>,
       ps_PodMonitor = \<lparr>pm_Enabled = False, pm_Interval = [], pm_Labels = []\<rparr>,
       ps_NetworkPolicy = \<lparr>nps_Enabled = False, nps_AdditionalAllowedAPINamespaces = []\<rparr>,
       ps_AllowedNamespaces = [''team''], ps_PodDisruptionBudget = None, ps_ExtraSettings = []\<rparr>,
     srv_Status = \<lparr>pst_Phase = PhaseReady, pst_Ready = True, pst_DNSEndpoint = [],
       pst_APIEndpoint = ''http://pdns-api.dns.svc:8081'', pst_APIKeySecretName = ''pdns-api-key'',
       pst_BackendSecretName = [], pst_SchemaApplied = True, pst_DesiredReplicas = 2,
       pst_ReadyReplicas = 2, pst_ConfigHash = [], pst_Conditions = [], pst_FailureMessage = []\<rparr>\<rparr>"

definition demoSecret :: Secret where
  "demoSecret = \<lparr>sec_Meta = demoMeta ''pdns-api-key'', sec_Type = ''Opaque'', sec_Data = [(''api-key'', ''k3y'')]\<rparr>"

definition demoZone :: Zone where
  "demoZone = \<lparr>zone_Meta = demoMeta ''example'',
     zone_Spec = \<lparr>zs_ServerRef = \<lparr>ref_Name = ''pdns'', ref_Namespace = []\<rparr>, zs_ZoneName = ''a.'',
       zs_Kind = ZoneKindNative, zs_Masters = None, zs_Nameservers = Some [''ns1.a.''],
       zs_SOA = None, zs_DNSSEC_Enabled = False, zs_DeletionPolicy = DeletionPolicyDelete\<rparr>,
     zone_Status = \<lparr>zst_Phase = ZonePhaseReady, zst_Serial = 7, zst_DSRecords = [],
       zst_ObservedGeneration = 1, zst_Conditions = [], zst_FailureMessage = []\<rparr>\<rparr>"

end
