(* ===== verification/RRSet_Controller.thy ===== *)
theory RRSet_Controller
  imports Controller_Common
begin

text \<open>
  \<open>internal/controller/rrset_controller.go\<close>: the reconciler of RRSet resources.  The one long
  \<open>Reconcile\<close> method is split where it has a new object in hand: \<open>rrset_Reconcile\<close> (the
  finalizer protocol), \<open>rrset_body\<close>, \<open>rrset_withZone\<close>, \<open>rrset_withServer\<close>,
  \<open>rrset_apply\<close>, \<open>rrset_sync\<close>, \<open>rrset_patch\<close> and \<open>rrset_markReady\<close>.
\<close>

section \<open>Definitions\<close>

definition rrsetFinalizer :: string where
  "rrsetFinalizer = ''dns.aetherplatform.cloud/rrset-protection''"

definition rrsetZoneIndex :: string where
  "rrsetZoneIndex = ''spec.zoneRef''"

definition nameInZone :: "string \<Rightarrow> string \<Rightarrow> bool" where
  "nameInZone name zone \<longleftrightarrow> name = zone \<or> HasSuffix name (''.'' @ zone)"

definition desiredRRSet :: "RRSet \<Rightarrow> PdnsRRSet" where
  "desiredRRSet rr =
     (let sp = rr_Spec rr;
          ttl = (case rs_TTL sp of None \<Rightarrow> 3600 | Some t \<Rightarrow> t);
          recs = map (\<lambda>c. \<lparr>rec_Content = c, rec_Disabled = False\<rparr>) (rs_Records sp) in
      \<lparr>prr_Name = rs_Name sp, prr_Type = rs_Type sp, prr_TTL = ttl,
       prr_ChangeType = ''REPLACE'', prr_Records = recs\<rparr>)"

text \<open>The counting map of \<open>rrsetMatches\<close>: \<open>want[c]\<close>, filled and then used up.\<close>

definition wantCount :: "(string \<times> int) list \<Rightarrow> string \<Rightarrow> int" where
  "wantCount w c = (case map_of w c of None \<Rightarrow> 0 | Some n \<Rightarrow> n)"

fun fillWant :: "(string \<times> int) list \<Rightarrow> Record list \<Rightarrow> (string \<times> int) list" where
  "fillWant w [] = w"
| "fillWant w (r # rs) = fillWant (put (rec_Content r) (wantCount w (rec_Content r) + 1) w) rs"

fun takeWant :: "(string \<times> int) list \<Rightarrow> Record list \<Rightarrow> bool" where
  "takeWant w [] = True"
| "takeWant w (r # rs) =
     (if wantCount w (rec_Content r) = 0 then False
      else takeWant (put (rec_Content r) (wantCount w (rec_Content r) - 1) w) rs)"

fun rrsetMatches_from :: "PdnsRRSet list \<Rightarrow> PdnsRRSet \<Rightarrow> bool" where
  "rrsetMatches_from [] desired = False"
| "rrsetMatches_from (got # rest) desired =
     (if prr_Name got \<noteq> prr_Name desired \<or> prr_Type got \<noteq> prr_Type desired
      then rrsetMatches_from rest desired
      else if prr_TTL got \<noteq> prr_TTL desired \<or>
              length (prr_Records got) \<noteq> length (prr_Records desired)
      then False
      else takeWant (fillWant [] (prr_Records desired)) (prr_Records got))"

definition rrsetMatches :: "PdnsZone \<Rightarrow> PdnsRRSet \<Rightarrow> bool" where
  "rrsetMatches pz desired = rrsetMatches_from (pz_RRSets pz) desired"

text \<open>The loop of \<open>findConflict\<close> over the listed items.\<close>

fun conflictIn :: "RRSet \<Rightarrow> RRSet list \<Rightarrow> string" where
  "conflictIn rr [] = []"
| "conflictIn rr (x # xs) =
     (if (om_Namespace (rr_Meta x) = om_Namespace (rr_Meta rr) \<and>
          om_Name (rr_Meta x) = om_Name (rr_Meta rr)) \<or> om_Deleting (rr_Meta x)
      then conflictIn rr xs
      else if rs_Name (rr_Spec x) = rs_Name (rr_Spec rr) \<and>
              rs_Type (rr_Spec x) = rs_Type (rr_Spec rr)
      then om_Namespace (rr_Meta x) @ ''/'' @ om_Name (rr_Meta x)
      else conflictIn rr xs)"

definition findConflict :: "RRSet \<Rightarrow> (error + string) kio" where
  "findConflict rr =
     ask (KListByIndex KRRSet rrsetZoneIndex
            (refKey (rs_ZoneRef (rr_Spec rr)) (om_Namespace (rr_Meta rr))))
       (\<lambda>r. case items itemRRSet (respList r) of
              Inl e \<Rightarrow> Inl e
            | Inr xs \<Rightarrow> Inr (conflictIn rr xs))"

definition rrset_markNotReady ::
  "ext \<Rightarrow> RRSet \<Rightarrow> string \<Rightarrow> string \<Rightarrow> int \<Rightarrow> reconcile" where
  "rrset_markNotReady X rr reason msg after =
     (let st = rr_Status rr;
          rr' = rr\<lparr>rr_Status := st\<lparr>rst_FailureMessage := msg,
            rst_Conditions := setCondOn X (rst_Conditions st) (om_Generation (rr_Meta rr))
              ConditionReady ''False'' reason msg\<rparr>\<rparr> in
      tryIO (ask (KStatusUpdate (ObjRRSet rr')) respUnit)
        (\<lambda>_. Return (Inr (RequeueAfter after))))"

definition rrset_event :: "ext \<Rightarrow> RRSet \<Rightarrow> string \<Rightarrow> string \<Rightarrow> string \<Rightarrow> unit kio" where
  "rrset_event X rr typ reason msg = emit X KRRSet (rr_Meta rr) typ reason msg"

definition rrset_markReady :: "ext \<Rightarrow> RRSet \<Rightarrow> reconcile" where
  "rrset_markReady X rr =
     (let st = rr_Status rr; gen = om_Generation (rr_Meta rr);
          rr' = rr\<lparr>rr_Status := st\<lparr>rst_ObservedGeneration := gen, rst_FailureMessage := [],
            rst_Conditions := setCondOn X (rst_Conditions st) gen
              ConditionReady ''True'' ''Applied'' []\<rparr>\<rparr> in
      tryIO (ask (KStatusUpdate (ObjRRSet rr')) respUnit)
        (\<lambda>_. Return (Inr (RequeueAfter resyncInterval))))"

definition rrset_appliedMsg :: "RRSet \<Rightarrow> string" where
  "rrset_appliedMsg rr = ''applied '' @ rs_Name (rr_Spec rr) @ '' '' @ rs_Type (rr_Spec rr) @ '' ('' @
     itoa (int (length (rs_Records (rr_Spec rr)))) @ '' records)''"

definition rrset_patch :: "ext \<Rightarrow> RRSet \<Rightarrow> Zone \<Rightarrow> Client \<Rightarrow> reconcile" where
  "rrset_patch X rr zone pc =
     andThen (PatchRRSets pc (zs_ZoneName (zone_Spec zone)) [desiredRRSet rr]) (\<lambda>rp. case rp of
       Inl e \<Rightarrow> rrset_markNotReady X rr (apiReason e) (err_msg e) requeueLong
     | Inr _ \<Rightarrow>
         andThen (rrset_event X rr ''Normal'' ''RRSetApplied'' (rrset_appliedMsg rr))
         (\<lambda>_. rrset_markReady X rr))"

definition rrset_sync :: "ext \<Rightarrow> RRSet \<Rightarrow> Zone \<Rightarrow> Client \<Rightarrow> reconcile" where
  "rrset_sync X rr zone pc =
     andThen (GetZone pc (zs_ZoneName (zone_Spec zone))) (\<lambda>rz. case rz of
       Inl e \<Rightarrow> rrset_markNotReady X rr (apiReason e) (err_msg e) requeueLong
     | Inr pz \<Rightarrow>
         if \<not> rrsetMatches pz (desiredRRSet rr) then rrset_patch X rr zone pc
         else rrset_markReady X rr)"

definition rrset_apply :: "ext \<Rightarrow> RRSet \<Rightarrow> Zone \<Rightarrow> PowerDNSServer \<Rightarrow> reconcile" where
  "rrset_apply X rr zone server =
     andThen (pdnsClientFor server) (\<lambda>rc. case rc of
       Inl e \<Rightarrow> rrset_markNotReady X rr ''APIUnreachable'' (err_msg e) requeueLong
     | Inr pc \<Rightarrow> rrset_sync X rr zone pc)"

definition rrset_withServer :: "ext \<Rightarrow> RRSet \<Rightarrow> Zone \<Rightarrow> PowerDNSServer \<Rightarrow> reconcile" where
  "rrset_withServer X rr zone server =
     (if \<not> namespaceAllowed server (om_Namespace (rr_Meta rr)) then
        rrset_markNotReady X rr ''NamespaceNotAllowed''
          (''namespace '' @ quote (om_Namespace (rr_Meta rr)) @ '' is not allowed by '' @
           showKey (srv_key server) @ '' spec.zoneManagement.allowedNamespaces'') requeueLong
      else if pst_Phase (srv_Status server) \<noteq> PhaseReady then
        rrset_markNotReady X rr ''ServerNotReady'' ''PowerDNSServer is not Ready yet'' requeueShort
      else
        tryIO (findConflict rr) (\<lambda>other.
          if other \<noteq> [] then
            rrset_markNotReady X rr ''Conflict''
              (''RRSet '' @ other @ '' also declares '' @ rs_Name (rr_Spec rr) @ '' '' @
               rs_Type (rr_Spec rr) @ '' in this zone '' @ em_dash @ '' delete one'') requeueLong
          else if zst_Phase (zone_Status zone) \<noteq> ZonePhaseReady then
            rrset_markNotReady X rr ''ZoneNotReady'' ''Zone is not Ready yet'' requeueShort
          else rrset_apply X rr zone server))"

definition rrset_withZone :: "ext \<Rightarrow> RRSet \<Rightarrow> Zone \<Rightarrow> reconcile" where
  "rrset_withZone X rr zone =
     (if om_Deleting (zone_Meta zone) then
        rrset_markNotReady X rr ''ZoneDeleting'' ''referenced Zone is being deleted'' requeueLong
      else if zs_Kind (zone_Spec zone) = ZoneKindSecondary then
        rrset_markNotReady X rr ''SecondaryZone''
          (''Secondary zone content is replicated from its primaries '' @ em_dash @
           '' manage records there'') requeueLong
      else if \<not> nameInZone (rs_Name (rr_Spec rr)) (zs_ZoneName (zone_Spec zone)) then
        rrset_markNotReady X rr ''NameOutsideZone''
          (quote (rs_Name (rr_Spec rr)) @ '' is not within zone '' @
           quote (zs_ZoneName (zone_Spec zone))) requeueLong
      else
        andThen (ask (KGet KServer (serverKeyFor zone)) respServer) (\<lambda>rs. case rs of
          Inl e \<Rightarrow>
            if err_kind e = KubeNotFound then
              rrset_markNotReady X rr ''ServerNotFound''
                (''PowerDNSServer '' @ showKey (serverKeyFor zone) @ '' not found'') requeueLong
            else Return (Inl e)
        | Inr server \<Rightarrow> rrset_withServer X rr zone server))"

definition rrset_body :: "ext \<Rightarrow> RRSet \<Rightarrow> reconcile" where
  "rrset_body X rr =
     andThen (ask (KGet KZone (zoneKeyFor rr)) respZone) (\<lambda>rz. case rz of
       Inl e \<Rightarrow>
         if err_kind e = KubeNotFound then
           rrset_markNotReady X rr ''ZoneNotFound''
             (''Zone '' @ showKey (zoneKeyFor rr) @ '' not found'') requeueLong
         else Return (Inl e)
     | Inr zone \<Rightarrow> rrset_withZone X rr zone)"

text \<open>The payload of the compensating delete: a change of type \<open>DELETE\<close>, nothing else set.\<close>

definition deletePatch :: "RRSet \<Rightarrow> PdnsRRSet" where
  "deletePatch rr = \<lparr>prr_Name = rs_Name (rr_Spec rr), prr_Type = rs_Type (rr_Spec rr), prr_TTL = 0,
     prr_ChangeType = ''DELETE'', prr_Records = []\<rparr>"

definition rrset_deletedMsg :: "RRSet \<Rightarrow> string" where
  "rrset_deletedMsg rr =
     ''removed '' @ rs_Name (rr_Spec rr) @ '' '' @ rs_Type (rr_Spec rr) @ '' from PowerDNS''"

definition deleteFromServer :: "ext \<Rightarrow> RRSet \<Rightarrow> Zone \<Rightarrow> PowerDNSServer \<Rightarrow> (error + unit) kio" where
  "deleteFromServer X rr zone server =
     tryIO (pdnsClientFor server) (\<lambda>pc.
       andThen (PatchRRSets pc (zs_ZoneName (zone_Spec zone)) [deletePatch rr]) (\<lambda>rd. case rd of
         Inl e \<Rightarrow> if err_kind e = PdnsNotFound then Return (Inr ()) else Return (Inl e)
       | Inr _ \<Rightarrow>
           andThen (rrset_event X rr ''Normal'' ''RRSetDeleted'' (rrset_deletedMsg rr))
           (\<lambda>_. Return (Inr ()))))"

definition deleteFromZone :: "ext \<Rightarrow> RRSet \<Rightarrow> Zone \<Rightarrow> (error + unit) kio" where
  "deleteFromZone X rr zone =
     (if om_Deleting (zone_Meta zone) then Return (Inr ())
      else
        tryIO (findConflict rr) (\<lambda>other.
          if other \<noteq> [] then Return (Inr ())
          else
            andThen (ask (KGet KServer (serverKeyFor zone)) respServer) (\<lambda>rs. case rs of
              Inl e \<Rightarrow> if err_kind e = KubeNotFound then Return (Inr ()) else Return (Inl e)
            | Inr server \<Rightarrow>
                if om_Deleting (srv_Meta server) \<or>
                   pst_Phase (srv_Status server) = PhaseFailed
                then Return (Inr ())
                else deleteFromServer X rr zone server)))"

definition deleteFromPowerDNS :: "ext \<Rightarrow> RRSet \<Rightarrow> (error + unit) kio" where
  "deleteFromPowerDNS X rr =
     andThen (ask (KGet KZone (zoneKeyFor rr)) respZone) (\<lambda>rz. case rz of
       Inl e \<Rightarrow> if err_kind e = KubeNotFound then Return (Inr ()) else Return (Inl e)
     | Inr zone \<Rightarrow> deleteFromZone X rr zone)"

definition rrset_dropFinalizer :: "ext \<Rightarrow> RRSet \<Rightarrow> RRSet" where
  "rrset_dropFinalizer X rr = rr\<lparr>rr_Meta := (rr_Meta rr)\<lparr>om_Finalizers :=
     RemoveFinalizer X (om_Finalizers (rr_Meta rr)) rrsetFinalizer\<rparr>\<rparr>"

definition rrset_reconcileDelete :: "ext \<Rightarrow> RRSet \<Rightarrow> reconcile" where
  "rrset_reconcileDelete X rr =
     (if \<not> ContainsFinalizer X (om_Finalizers (rr_Meta rr)) rrsetFinalizer then Return (Inr Done)
      else
        tryIO (if rs_DeletionPolicy (rr_Spec rr) \<noteq> DeletionPolicyOrphan
               then deleteFromPowerDNS X rr else Return (Inr ()))
          (\<lambda>_. tryIO (ask (KUpdate (ObjRRSet (rrset_dropFinalizer X rr))) respUnit)
                 (\<lambda>_. Return (Inr Done))))"

definition rrset_protect :: "ext \<Rightarrow> RRSet \<Rightarrow> kobj" where
  "rrset_protect X rr = ObjRRSet (rr\<lparr>rr_Meta := (rr_Meta rr)\<lparr>om_Finalizers :=
     AddFinalizer X (om_Finalizers (rr_Meta rr)) rrsetFinalizer\<rparr>\<rparr>)"

definition rrset_Reconcile :: "ext \<Rightarrow> NamespacedName \<Rightarrow> reconcile" where
  "rrset_Reconcile X key =
     andThen (ask (KGet KRRSet key) respRRSet) (\<lambda>r. case r of
       Inl e \<Rightarrow> Return (ignoreNotFound e)
     | Inr rr \<Rightarrow>
         if om_Deleting (rr_Meta rr) then rrset_reconcileDelete X rr
         else if \<not> ContainsFinalizer X (om_Finalizers (rr_Meta rr)) rrsetFinalizer then
           tryIO (ask (KUpdate (rrset_protect X rr)) respUnit) (\<lambda>_. Return (Inr Requeue))
         else rrset_body X rr)"

text \<open>The watch that wakes the RRSets of a Zone (\<open>rrsetsForZone\<close>) and its index function.\<close>

definition rrsetIndexKeys :: "RRSet \<Rightarrow> string list" where
  "rrsetIndexKeys rr = [refKey (rs_ZoneRef (rr_Spec rr)) (om_Namespace (rr_Meta rr))]"

definition rrsetsForZone :: "ObjectMeta \<Rightarrow> NamespacedName list kio" where
  "rrsetsForZone m =
     ask (KListByIndex KRRSet rrsetZoneIndex (om_Namespace m @ ''/'' @ om_Name m))
       (\<lambda>r. case items itemRRSet (respList r) of
              Inl e \<Rightarrow> []
            | Inr xs \<Rightarrow> map (\<lambda>x. (om_Namespace (rr_Meta x), om_Name (rr_Meta x))) xs)"

interpretation rrset_protocol: finalizer_protocol "rrset_Reconcile X" KRRSet respRRSet
  "\<lambda>rr. om_Deleting (rr_Meta rr)"
  "\<lambda>rr. ContainsFinalizer X (om_Finalizers (rr_Meta rr)) rrsetFinalizer"
  "rrset_protect X" "rrset_reconcileDelete X" "rrset_body X"
  by unfold_locales (simp add: rrset_Reconcile_def)

text \<open>A record set of the demonstration zone, and a pass that has to apply it.\<close>

definition demoRR :: RRSet where
  "demoRR = \<lparr>rr_Meta = (demoMeta ''www'')\<lparr>om_Finalizers := [rrsetFinalizer]\<rparr>,
     rr_Spec = \<lparr>rs_ZoneRef = \<lparr>ref_Name = ''example'', ref_Namespace = []\<rparr>, rs_Name = ''w.a.'',
       rs_Type = ''A'', rs_TTL = None, rs_Records = [''192.0.2.1''], rs_DeletionPolicy = DeletionPolicyDelete\<rparr>,
     rr_Status = \<lparr>rst_ObservedGeneration = 0, rst_Conditions = [], rst_FailureMessage = []\<rparr>\<rparr>"

definition demoResponses :: "resp list" where
  "demoResponses = [RObj (ObjRRSet demoRR), RObj (ObjZone demoZone), RObj (ObjServer demoServer),
     RList [ObjRRSet demoRR], RObj (ObjSecret demoSecret),
     RHttp (HttpReply 200 ''200 OK'' [] (Some (marshal_Zone demoPdnsZone))),
     RHttp (HttpReply 204 ''204 No Content'' [] None), ROk, ROk]"

definition demoKey :: NamespacedName where
  "demoKey = (''dns'', ''www'')"

definition demoTrace :: "event list" where
  "demoTrace = tl (trace_of ROk (rrset_Reconcile refExt demoKey) demoResponses)"

text \<open>The same RRSet under deletion, and a second RRSet that declares the same record set.\<close>

definition demoDying :: RRSet where
  "demoDying = demoRR\<lparr>rr_Meta := (rr_Meta demoRR)\<lparr>om_Deleting := True\<rparr>\<rparr>"

definition demoDyingTrace :: "event list" where
  "demoDyingTrace = tl (trace_of ROk (rrset_Reconcile refExt demoKey)
     [RObj (ObjRRSet demoDying), RObj (ObjZone demoZone), RList [ObjRRSet demoDying],
      RObj (ObjServer demoServer), RObj (ObjSecret demoSecret),
      RHttp (HttpReply 204 ''204 No Content'' [] None), ROk, ROk])"

definition demoRival :: RRSet where
  "demoRival = demoRR\<lparr>rr_Meta := (rr_Meta demoRR)\<lparr>om_Name := ''other''\<rparr>\<rparr>"

definition demoRivalTrace :: "event list" where
  "demoRivalTrace = tl (trace_of ROk (rrset_Reconcile refExt demoKey)
     [RObj (ObjRRSet demoRR), RObj (ObjZone demoZone), RObj (ObjServer demoServer),
      RList [ObjRRSet demoRR, ObjRRSet demoRival], ROk])"

lemma demo_passes:
  shows demo_pass: "\<exists>res. exec (rrset_Reconcile refExt demoKey)
      ((KGet KRRSet demoKey, RObj (ObjRRSet demoRR)) # demoTrace) res"
    and demo_dying_pass: "\<exists>res. exec (rrset_Reconcile refExt demoKey)
      ((KGet KRRSet demoKey, RObj (ObjRRSet demoDying)) # demoDyingTrace) res"
    and demo_rival_pass: "\<exists>res. exec (rrset_Reconcile refExt demoKey)
      ((KGet KRRSet demoKey, RObj (ObjRRSet demoRR)) # demoRivalTrace) res"
  unfolding demoTrace_def demoDyingTrace_def demoRivalTrace_def
  by (rule exI, rule exec_tl_trace_of, code_simp)+

end
