(* ===== verification/RRSet_Correct.thy ===== *)
theory RRSet_Correct
  imports RRSet_Controller
begin

text \<open>
  Properties of the RRSet reconciler.  \<open>held_back\<close> describes a pass that leaves PowerDNS
  alone and at most marks the RRSet not ready; \<open>rrset_body_cases\<close>, \<open>rrset_apply_cases\<close>,
  \<open>rrset_sync_cases\<close> and \<open>rrset_patch_cases\<close> say what every pass over a live RRSet looks
  like; the theorems read off those cases.
\<close>


section \<open>Comparing record sets\<close>

lemma wantCount_put: "wantCount (put k n w) c = (if c = k then n else wantCount w c)"
  by (simp add: wantCount_def)

lemma wantCount_fillWant:
  "wantCount (fillWant w rs) c = wantCount w c + int (count (mset (map rec_Content rs)) c)"
  by (induction w rs rule: fillWant.induct) (auto simp: wantCount_put)

lemma takeWant_iff:
  "(\<forall>c. wantCount w c \<ge> 0) \<Longrightarrow>
   takeWant w rs \<longleftrightarrow> (\<forall>c. int (count (mset (map rec_Content rs)) c) \<le> wantCount w c)"
proof (induction w rs rule: takeWant.induct)
  case (1 w)
  then show ?case by simp
next
  case (2 w r rs)
  let ?c = "rec_Content r"
  show ?case
  proof (cases "wantCount w ?c = 0")
    case True
    then show ?thesis by (auto intro!: exI [of _ ?c])
  next
    case False
    with "2.prems" have ge: "\<forall>c. wantCount (put ?c (wantCount w ?c - 1) w) c \<ge> 0"
      by (auto simp: wantCount_put) (metis int_one_le_iff_zero_less le_less)
    from False "2.IH" [OF False ge] show ?thesis
      by (auto simp: wantCount_put split: if_splits)
  qed
qed

lemma takeWant_fillWant:
  assumes "length rs = length rs'"
  shows "takeWant (fillWant [] rs') rs \<longleftrightarrow> mset (map rec_Content rs) = mset (map rec_Content rs')"
proof -
  have "wantCount (fillWant [] rs') c = int (count (mset (map rec_Content rs')) c)" for c
    by (subst wantCount_fillWant) (simp add: wantCount_def)
  then have "takeWant (fillWant [] rs') rs \<longleftrightarrow>
      mset (map rec_Content rs) \<subseteq># mset (map rec_Content rs')"
    by (simp add: takeWant_iff subseteq_mset_def)
  also have "\<dots> \<longleftrightarrow> mset (map rec_Content rs) = mset (map rec_Content rs')"
    using assms by (metis length_map mset_subset_eqD size_mset mset_subset_size
        subset_mset.le_neq_trans subset_mset.order_refl less_irrefl)
  finally show ?thesis .
qed

definition sameNameType :: "PdnsRRSet \<Rightarrow> PdnsRRSet \<Rightarrow> bool" where
  "sameNameType a b \<longleftrightarrow> prr_Name a = prr_Name b \<and> prr_Type a = prr_Type b"

lemma rrsetMatches_from_iff:
  "rrsetMatches_from gots desired \<longleftrightarrow>
     (\<exists>got. find (sameNameType desired) gots = Some got \<and> prr_TTL got = prr_TTL desired \<and>
        mset (map rec_Content (prr_Records got)) = mset (map rec_Content (prr_Records desired)))"
proof (induction gots)
  case (Cons got rest)
  show ?case
  proof (cases "sameNameType desired got")
    case True
    then show ?thesis
      by (auto simp: sameNameType_def takeWant_fillWant dest: arg_cong [where f = size])
  next
    case False
    with Cons show ?thesis by (auto simp: sameNameType_def)
  qed
qed simp

section \<open>Conflicts\<close>

text \<open>A live RRSet, other than \<open>rr\<close> itself, that declares the same name and type.\<close>

definition rival :: "RRSet \<Rightarrow> RRSet \<Rightarrow> bool" where
  "rival rr x \<longleftrightarrow>
     (om_Namespace (rr_Meta x), om_Name (rr_Meta x)) \<noteq> (om_Namespace (rr_Meta rr), om_Name (rr_Meta rr)) \<and>
     \<not> om_Deleting (rr_Meta x) \<and>
     rs_Name (rr_Spec x) = rs_Name (rr_Spec rr) \<and> rs_Type (rr_Spec x) = rs_Type (rr_Spec rr)"

lemma conflictIn_empty_iff: "conflictIn rr xs = [] \<longleftrightarrow> (\<forall>x \<in> set xs. \<not> rival rr x)"
  by (induction xs) (auto simp: rival_def)

definition listedRRSets :: "kobj list \<Rightarrow> RRSet list" where
  "listedRRSets objs = concat (map itemRRSet objs)"

lemma mem_listedRRSets [simp]: "rr \<in> set (listedRRSets objs) \<longleftrightarrow> ObjRRSet rr \<in> set objs"
proof -
  have "rr \<in> set (itemRRSet x) \<longleftrightarrow> x = ObjRRSet rr" for x
    by (cases x rule: itemRRSet.cases) auto
  then show ?thesis by (auto simp: listedRRSets_def)
qed

definition siblingsRequest :: "RRSet \<Rightarrow> req" where
  "siblingsRequest rr = KListByIndex KRRSet rrsetZoneIndex (showKey (zoneKeyFor rr))"

lemma exec_findConflict:
  "exec (findConflict rr) tr x \<longleftrightarrow> (\<exists>r. tr = [(siblingsRequest rr, r)] \<and>
     x = (case respList r of Inl e \<Rightarrow> Inl e | Inr objs \<Rightarrow> Inr (conflictIn rr (listedRRSets objs))))"
  by (auto simp: findConflict_def siblingsRequest_def refKey_zoneKeyFor items_def listedRRSets_def
      split: sum.splits)

lemma exec_findConflict_ok:
  assumes "exec (findConflict rr) tr (Inr c)"
  obtains objs where "tr = [(siblingsRequest rr, RList objs)]"
    "c = [] \<longleftrightarrow> (\<forall>x. ObjRRSet x \<in> set objs \<longrightarrow> \<not> rival rr x)"
proof -
  from assms obtain r where tr: "tr = [(siblingsRequest rr, r)]" and
    "(case respList r of Inl e \<Rightarrow> Inl e | Inr objs \<Rightarrow> Inr (conflictIn rr (listedRRSets objs))) = Inr c"
    unfolding exec_findConflict by metis
  then obtain objs where "r = RList objs" "c = conflictIn rr (listedRRSets objs)"
    by (cases "respList r") (auto simp: respList_Inr)
  with tr show thesis by (intro that [of objs]) (auto simp: conflictIn_empty_iff)
qed

section \<open>What a pass over a live RRSet does\<close>

lemma exec_markNotReady:
  assumes "exec (rrset_markNotReady X rr reason msg after) tr res"
  obtains r st where "tr = [(KStatusUpdate (ObjRRSet (rr\<lparr>rr_Status := st\<rparr>)), r)]"
    "rst_Conditions st = setCondOn X (rst_Conditions (rr_Status rr)) (om_Generation (rr_Meta rr))
       ConditionReady ''False'' reason msg"
    "res = Inr (RequeueAfter after) \<or> (\<exists>e. res = Inl e)"
proof -
  from assms obtain r where "tr = [(KStatusUpdate (ObjRRSet (rr\<lparr>rr_Status :=
      (rr_Status rr)\<lparr>rst_FailureMessage := msg, rst_Conditions :=
        setCondOn X (rst_Conditions (rr_Status rr)) (om_Generation (rr_Meta rr))
          ConditionReady ''False'' reason msg\<rparr>\<rparr>)), r)]"
    "res = Inr (RequeueAfter after) \<or> (\<exists>e. res = Inl e)"
    by (auto simp: rrset_markNotReady_def Let_def exec_tryIO_iff)
  from that [OF this(1) _ this(2)] show thesis by simp
qed

lemma calls_markNotReady [calls_intros]:
  "(\<And>x. P (KStatusUpdate x)) \<Longrightarrow> calls_only P (rrset_markNotReady X rr reason msg after)"
  by (auto simp: rrset_markNotReady_def Let_def intro!: calls_intros)

lemma markNotReady_no_http:
  "exec (rrset_markNotReady X rr reason msg after) tr res \<Longrightarrow> (HttpDo h, r) \<in> set tr \<Longrightarrow> False"
  by (auto elim: exec_markNotReady)

text \<open>The checks a pass makes before it talks to PowerDNS, \<open>objs\<close> being the listed siblings.\<close>

definition rrset_admissible :: "RRSet \<Rightarrow> Zone \<Rightarrow> PowerDNSServer \<Rightarrow> kobj list \<Rightarrow> bool" where
  "rrset_admissible rr zone server objs \<longleftrightarrow>
     \<not> om_Deleting (zone_Meta zone) \<and> zs_Kind (zone_Spec zone) \<noteq> ZoneKindSecondary \<and>
     nameInZone (rs_Name (rr_Spec rr)) (zs_ZoneName (zone_Spec zone)) \<and>
     namespaceAllowed server (om_Namespace (rr_Meta rr)) \<and>
     pst_Phase (srv_Status server) = PhaseReady \<and> zst_Phase (zone_Status zone) = ZonePhaseReady \<and>
     (\<forall>x. ObjRRSet x \<in> set objs \<longrightarrow> \<not> rival rr x)"

definition rrset_gate :: "RRSet \<Rightarrow> Zone \<Rightarrow> PowerDNSServer \<Rightarrow> kobj list \<Rightarrow> event list" where
  "rrset_gate rr zone server objs =
     [(KGet KZone (zoneKeyFor rr), RObj (ObjZone zone)),
      (KGet KServer (serverKeyFor zone), RObj (ObjServer server)),
      (siblingsRequest rr, RList objs)]"


text \<open>An exchange that leaves PowerDNS alone and at most marks the RRSet not ready.\<close>

definition notReadyUpdate :: "ext \<Rightarrow> RRSet \<Rightarrow> req \<Rightarrow> bool" where
  "notReadyUpdate X rr q \<longleftrightarrow> (\<exists>st reason msg. q = KStatusUpdate (ObjRRSet (rr\<lparr>rr_Status := st\<rparr>)) \<and>
     rst_Conditions st = setCondOn X (rst_Conditions (rr_Status rr)) (om_Generation (rr_Meta rr))
       ConditionReady ''False'' reason msg)"

definition held_back :: "ext \<Rightarrow> RRSet \<Rightarrow> event list \<Rightarrow> bool" where
  "held_back X rr tr \<longleftrightarrow> (\<forall>(q, r) \<in> set tr. \<not> is_http q \<and> (is_kube_write q \<longrightarrow> notReadyUpdate X rr q))"

lemma held_back_simps [simp]:
  "held_back X rr []"
  "held_back X rr ((KGet k n, r) # tr) \<longleftrightarrow> held_back X rr tr"
  "held_back X rr ((KListByIndex k a b, r) # tr) \<longleftrightarrow> held_back X rr tr"
  "held_back X rr ((siblingsRequest rr, r) # tr) \<longleftrightarrow> held_back X rr tr"
  by (simp_all add: held_back_def siblingsRequest_def)

lemma markNotReady_held_back:
  "exec (rrset_markNotReady X rr reason msg after) tr res \<Longrightarrow> held_back X rr tr"
proof (erule exec_markNotReady)
  fix r st
  assume "tr = [(KStatusUpdate (ObjRRSet (rr\<lparr>rr_Status := st\<rparr>)), r)]"
    "rst_Conditions st = setCondOn X (rst_Conditions (rr_Status rr)) (om_Generation (rr_Meta rr))
       ConditionReady ''False'' reason msg"
  then show "held_back X rr tr" unfolding held_back_def notReadyUpdate_def by auto
qed

lemma rrset_withServer_cases:
  assumes "exec (rrset_withServer X rr zone server) tr res"
  obtains (stopped) "held_back X rr tr"
  | (applied) objs t where "tr = (siblingsRequest rr, RList objs) # t"
      "exec (rrset_apply X rr zone server) t res"
      "namespaceAllowed server (om_Namespace (rr_Meta rr))"
      "pst_Phase (srv_Status server) = PhaseReady" "zst_Phase (zone_Status zone) = ZonePhaseReady"
      "\<forall>x. ObjRRSet x \<in> set objs \<longrightarrow> \<not> rival rr x"
proof (cases "namespaceAllowed server (om_Namespace (rr_Meta rr)) \<and>
    pst_Phase (srv_Status server) = PhaseReady")
  case False
  with assms stopped show thesis
    by (auto simp: rrset_withServer_def split: if_splits dest: markNotReady_held_back)
next
  case True
  with assms have "exec (tryIO (findConflict rr) (\<lambda>other.
      if other \<noteq> [] then rrset_markNotReady X rr ''Conflict''
          (''RRSet '' @ other @ '' also declares '' @ rs_Name (rr_Spec rr) @ '' '' @
               rs_Type (rr_Spec rr) @ '' in this zone '' @ em_dash @ '' delete one'') requeueLong
      else if zst_Phase (zone_Status zone) \<noteq> ZonePhaseReady
      then rrset_markNotReady X rr ''ZoneNotReady'' ''Zone is not Ready yet'' requeueShort
      else rrset_apply X rr zone server)) tr res"
    by (simp add: rrset_withServer_def)
  then show thesis
  proof (cases rule: exec_tryIOE)
    case (fail e)
    then show ?thesis by (auto simp: exec_findConflict intro!: stopped)
  next
    case (ok t1 c t2)
    from ok(2) obtain objs where t1: "t1 = [(siblingsRequest rr, RList objs)]"
      and c: "c = [] \<longleftrightarrow> (\<forall>x. ObjRRSet x \<in> set objs \<longrightarrow> \<not> rival rr x)"
      by (rule exec_findConflict_ok)
    show ?thesis
    proof (cases "c = [] \<and> zst_Phase (zone_Status zone) = ZonePhaseReady")
      case False
      with ok t1 show ?thesis
        by (intro stopped) (auto split: if_splits dest: markNotReady_held_back)
    next
      case True
      with ok t1 c \<open>namespaceAllowed _ _ \<and> _\<close> show ?thesis by (intro applied) auto
    qed
  qed
qed

text \<open>A pass is either held back or gets past every check.\<close>

lemma rrset_withZone_cases:
  assumes "exec (rrset_withZone X rr zone) tr res"
  obtains (stopped) "held_back X rr tr"
  | (applied) server objs t where "rrset_admissible rr zone server objs"
      "(KGet KZone (zoneKeyFor rr), RObj (ObjZone zone)) # tr = rrset_gate rr zone server objs @ t"
      "exec (rrset_apply X rr zone server) t res"
proof (cases "\<not> om_Deleting (zone_Meta zone) \<and> zs_Kind (zone_Spec zone) \<noteq> ZoneKindSecondary \<and>
    nameInZone (rs_Name (rr_Spec rr)) (zs_ZoneName (zone_Spec zone))")
  case False
  with assms show thesis
    by (intro stopped) (auto simp: rrset_withZone_def split: if_splits dest: markNotReady_held_back)
next
  case ok: True
  with assms obtain r t where tr: "tr = (KGet KServer (serverKeyFor zone), r) # t"
    and s: "exec (case respServer r of
      Inl e \<Rightarrow> if err_kind e = KubeNotFound then rrset_markNotReady X rr ''ServerNotFound''
            (''PowerDNSServer '' @ showKey (serverKeyFor zone) @ '' not found'') requeueLong
        else Return (Inl e)
    | Inr server \<Rightarrow> rrset_withServer X rr zone server) t res"
    by (auto simp: rrset_withZone_def exec_Call_iff)
  show thesis
  proof (cases "respServer r")
    case (Inl e)
    with s tr show ?thesis
      by (intro stopped) (auto split: if_splits dest: markNotReady_held_back)
  next
    case (Inr server)
    with s have "exec (rrset_withServer X rr zone server) t res" by simp
    then show ?thesis
    proof (cases rule: rrset_withServer_cases)
      case stopped
      with tr show ?thesis by (intro that(1)) simp
    next
      case (applied objs t')
      with ok tr Inr show ?thesis
        by (intro that(2) [of server objs t'])
          (simp_all add: rrset_admissible_def rrset_gate_def respServer_Inr)
    qed
  qed
qed

lemma rrset_body_cases:
  assumes "exec (rrset_body X rr) tr res"
  obtains (stopped) "held_back X rr tr"
  | (applied) zone server objs t where "rrset_admissible rr zone server objs"
      "tr = rrset_gate rr zone server objs @ t" "exec (rrset_apply X rr zone server) t res"
proof -
  from assms obtain r t where tr: "tr = (KGet KZone (zoneKeyFor rr), r) # t"
    and rest: "exec (case respZone r of
       Inl e \<Rightarrow> if err_kind e = KubeNotFound then rrset_markNotReady X rr ''ZoneNotFound''
             (''Zone '' @ showKey (zoneKeyFor rr) @ '' not found'') requeueLong
         else Return (Inl e)
     | Inr zone \<Rightarrow> rrset_withZone X rr zone) t res"
    by (auto simp: rrset_body_def exec_Call_iff)
  show thesis
  proof (cases "respZone r")
    case (Inl e)
    with rest tr show ?thesis
      by (intro stopped) (auto split: if_splits dest: markNotReady_held_back)
  next
    case (Inr zone)
    with rest have "exec (rrset_withZone X rr zone) t res" by simp
    then show ?thesis
    proof (cases rule: rrset_withZone_cases)
      case stopped
      with tr show ?thesis by (intro that(1)) simp
    next
      case (applied server objs t')
      with tr Inr show ?thesis by (intro that(2) [of zone server objs t']) (simp_all add: respZone_Inr)
    qed
  qed
qed

lemma rrset_patch_cases:
  assumes "exec (rrset_patch X rr zone c) tr res"
  obtains r t where "tr = (patchRequest c zone (desiredRRSet rr), r) # t"
      "\<not> reply_2xx (respHttp r)" "held_back X rr t"
  | r t u where "tr = (patchRequest c zone (desiredRRSet rr), r) # t @ u"
      "reply_2xx (respHttp r)" "\<forall>(q, r) \<in> set t. \<not> is_http q \<and> \<not> is_kube_write q"
      "exec (rrset_markReady X rr) u res"
proof -
  from assms obtain r t where tr: "tr = (patchRequest c zone (desiredRRSet rr), r) # t"
    and e: "exec (case patchReply zone r of
       Inl e \<Rightarrow> rrset_markNotReady X rr (apiReason e) (err_msg e) requeueLong
     | Inr _ \<Rightarrow>
         andThen (rrset_event X rr ''Normal'' ''RRSetApplied'' (rrset_appliedMsg rr))
         (\<lambda>_. rrset_markReady X rr)) t res"
    unfolding rrset_patch_def
    by (auto simp: patch_rrsets.exec_then patchRequest_def patchReply_def)
  show thesis
  proof (cases "patchReply zone r")
    case (Inl e)
    with e tr patchReply_ok [of zone r] that(1) show ?thesis by (auto dest: markNotReady_held_back)
  next
    case (Inr u)
    with e obtain t1 y t2 where "t = t1 @ t2" "exec (rrset_markReady X rr) t2 res"
      "exec (rrset_event X rr ''Normal'' ''RRSetApplied'' (rrset_appliedMsg rr)) t1 y"
      by (auto elim: exec_andThenE)
    with Inr tr patchReply_ok [of zone r] show ?thesis
      by (intro that(2) [of r t1 t2]) (auto simp: rrset_event_def dest!: exec_emitD)
  qed
qed

lemma rrset_sync_cases:
  assumes "exec (rrset_sync X rr zone c) tr res"
  obtains (no_zone) r t where "tr = (getRequest c zone, r) # t" "held_back X rr t"
  | (in_sync) r pz t where "tr = (getRequest c zone, r) # t" "getReply zone r = Inr pz"
      "rrsetMatches pz (desiredRRSet rr)" "exec (rrset_markReady X rr) t res"
  | (patch) r pz t where "tr = (getRequest c zone, r) # t" "getReply zone r = Inr pz"
      "\<not> rrsetMatches pz (desiredRRSet rr)" "exec (rrset_patch X rr zone c) t res"
proof -
  from assms obtain r t where tr: "tr = (getRequest c zone, r) # t"
    and e: "exec (case getReply zone r of
       Inl e \<Rightarrow> rrset_markNotReady X rr (apiReason e) (err_msg e) requeueLong
     | Inr pz \<Rightarrow>
         if \<not> rrsetMatches pz (desiredRRSet rr) then rrset_patch X rr zone c
         else rrset_markReady X rr) t res"
    unfolding rrset_sync_def
    by (auto simp: get_zone.exec_then getRequest_def getReply_def)
  then show thesis
    by (cases "getReply zone r")
      (auto split: if_splits dest: markNotReady_held_back intro: no_zone in_sync patch)
qed

text \<open>A pass that gets to the API, from the first request to the last.\<close>

lemma rrset_apply_cases:
  assumes "exec (rrset_apply X rr zone server) tr res"
  obtains (no_client) "held_back X rr tr"
  | (synced) sec c t where "client_of server sec c" "exec (rrset_sync X rr zone c) t res"
      "tr = (secretRequest server, RObj (ObjSecret sec)) # t"
proof (cases rule: client_cases [OF assms [unfolded rrset_apply_def]])
  case (1 e t1 t2)
  then have "held_back X rr t1" by (auto simp: held_back_def secretRequest_def)
  with 1 show ?thesis
    by (intro no_client) (auto simp: held_back_def dest!: markNotReady_held_back)
next
  case (2 sec c t)
  then show ?thesis by (intro synced) auto
qed

lemma rrset_apply_http:
  assumes "exec (rrset_apply X rr zone server) tr res" "(HttpDo h, hr) \<in> set tr"
  shows "\<exists>sec c. client_of server sec c \<and> (secretRequest server, RObj (ObjSecret sec)) \<in> set tr \<and>
    (HttpDo h = getRequest c zone \<or> HttpDo h = patchRequest c zone (desiredRRSet rr))"
  using assms(1)
proof (cases rule: rrset_apply_cases)
  case no_client
  with assms(2) show ?thesis by (auto simp: held_back_def)
next
  case (synced sec c t)
  have "HttpDo h = getRequest c zone \<or> HttpDo h = patchRequest c zone (desiredRRSet rr)"
    if "(HttpDo h, hr) \<in> set t"
    using synced(2)
  proof (cases rule: rrset_sync_cases)
    case no_zone
    with that show ?thesis by (auto simp: held_back_def)
  next
    case in_sync
    with that show ?thesis by (auto simp: rrset_markReady_def Let_def exec_tryIO_iff)
  next
    case (patch r pz t')
    from this(4) show ?thesis
      by (cases rule: rrset_patch_cases)
        (use patch that in \<open>auto simp: held_back_def rrset_markReady_def Let_def exec_tryIO_iff\<close>)
  qed
  with synced assms(2) show ?thesis by (auto simp: secretRequest_def)
qed




text \<open>
  C25: \<open>rrsetMatches\<close> compares like the abstract specification: the zone's first record set of
  the desired name and type must have the desired TTL and the desired record contents as a
  multiset.  (The \<open>disabled\<close> flag of a served record plays no part in the comparison.)
\<close>

theorem rrsetMatches_spec:
  "rrsetMatches pz desired \<longleftrightarrow>
     (\<exists>got. find (\<lambda>g. prr_Name g = prr_Name desired \<and> prr_Type g = prr_Type desired) (pz_RRSets pz) = Some got \<and>
        prr_TTL got = prr_TTL desired \<and>
        mset (map rec_Content (prr_Records got)) = mset (map rec_Content (prr_Records desired)))"
proof -
  have "sameNameType desired = (\<lambda>g. prr_Name g = prr_Name desired \<and> prr_Type g = prr_Type desired)"
    by (auto simp: sameNameType_def fun_eq_iff)
  then show ?thesis by (simp add: rrsetMatches_def rrsetMatches_from_iff)
qed

lemma held_back_not_ready:
  assumes "held_back X rr tr" "condition_laws X" "(KStatusUpdate (ObjRRSet rr'), r) \<in> set tr"
  shows "\<not> isReady (rst_Conditions (rr_Status rr'))"
  using assms by (auto simp: held_back_def notReadyUpdate_def isReady_def setCondOn_Ready)

lemma exec_markReady:
  assumes "exec (rrset_markReady X rr) tr res"
  obtains r st where "tr = [(KStatusUpdate (ObjRRSet (rr\<lparr>rr_Status := st\<rparr>)), r)]"
    "rst_ObservedGeneration st = om_Generation (rr_Meta rr)" "rst_FailureMessage st = []"
proof -
  from assms obtain r where "tr = [(KStatusUpdate (ObjRRSet (rr\<lparr>rr_Status :=
      (rr_Status rr)\<lparr>rst_ObservedGeneration := om_Generation (rr_Meta rr), rst_FailureMessage := [],
        rst_Conditions := setCondOn X (rst_Conditions (rr_Status rr)) (om_Generation (rr_Meta rr))
          ConditionReady ''True'' ''Applied'' []\<rparr>\<rparr>)), r)]"
    by (auto simp: rrset_markReady_def Let_def exec_tryIO_iff)
  from that [OF this] show thesis by simp
qed

text \<open>The evidence behind a Ready RRSet: PowerDNS shows the record set or accepted it.\<close>

definition applied_in :: "RRSet \<Rightarrow> Zone \<Rightarrow> Client \<Rightarrow> event list \<Rightarrow> bool" where
  "applied_in rr zone c tr \<longleftrightarrow>
     (\<exists>r pz. (getRequest c zone, r) \<in> set tr \<and> getReply zone r = Inr pz \<and>
        (rrsetMatches pz (desiredRRSet rr) \<or>
         (\<exists>r'. (patchRequest c zone (desiredRRSet rr), r') \<in> set tr \<and> reply_2xx (respHttp r'))))"

lemma rrset_sync_ready:
  assumes "exec (rrset_sync X rr zone c) tr res" "condition_laws X"
    "(KStatusUpdate (ObjRRSet rr'), r0) \<in> set tr" "isReady (rst_Conditions (rr_Status rr'))"
  shows "applied_in rr zone c tr \<and> rst_ObservedGeneration (rr_Status rr') = om_Generation (rr_Meta rr)"
  using assms(1)
proof (cases rule: rrset_sync_cases)
  case (no_zone r t)
  with assms held_back_not_ready [of X rr t rr' r0] show ?thesis by (auto simp: getRequest_def)
next
  case (in_sync r pz t)
  from this(4) show ?thesis
    by (rule exec_markReady) (use in_sync assms(3) in \<open>auto simp: applied_in_def getRequest_def\<close>)
next
  case (patch r pz t)
  from this(4) show ?thesis
  proof (cases rule: rrset_patch_cases)
    case (1 r t)
    with patch assms held_back_not_ready [of X rr t rr' r0] show ?thesis
      by (auto simp: getRequest_def patchRequest_def)
  next
    case (2 r' t1 u)
    with patch have "applied_in rr zone c tr" by (auto simp: applied_in_def)
    moreover have "(KStatusUpdate (ObjRRSet rr'), r0) \<in> set u"
      using 2 patch assms(3) by (auto simp: getRequest_def patchRequest_def)
    ultimately show ?thesis using 2(4) by (auto elim!: exec_markReady)
  qed
qed

text \<open>
  C16: An RRSet is reported Ready honestly.  A pass over a live RRSet stores the condition
  Ready=True only if in the same pass PowerDNS returned the Zone with the declared record set
  in it, or returned it without and then accepted the PATCH of the record set (2xx); the
  stored status names the generation that was applied.
\<close>

theorem rrset_ready_honest:
  assumes "exec (rrset_Reconcile X key) ((KGet KRRSet key, RObj (ObjRRSet rr)) # tr) res"
    and "condition_laws X" and "\<not> om_Deleting (rr_Meta rr)"
    and "(KStatusUpdate (ObjRRSet rr'), r) \<in> set tr" and "isReady (rst_Conditions (rr_Status rr'))"
  shows "\<exists>zone c. (KGet KZone (zoneKeyFor rr), RObj (ObjZone zone)) \<in> set tr \<and>
    applied_in rr zone c tr \<and> rst_ObservedGeneration (rr_Status rr') = om_Generation (rr_Meta rr)"
proof (cases "ContainsFinalizer X (om_Finalizers (rr_Meta rr)) rrsetFinalizer")
  case False
  from rrset_protocol.unprotected_pass [OF assms(1), of rr] assms(3,4) False show ?thesis by auto
next
  case True
  from rrset_protocol.body_pass [OF assms(1), of rr] assms(3) True
  have "exec (rrset_body X rr) tr res" by simp
  then show ?thesis
  proof (cases rule: rrset_body_cases)
    case stopped
    with assms held_back_not_ready show ?thesis by blast
  next
    case (applied zone server objs t)
    then have st: "(KStatusUpdate (ObjRRSet rr'), r) \<in> set t"
      using assms(4) by (auto simp: rrset_gate_def siblingsRequest_def)
    from applied(3) show ?thesis
    proof (cases rule: rrset_apply_cases)
      case no_client
      with assms st held_back_not_ready show ?thesis by blast
    next
      case (synced sec c t')
      with st have "(KStatusUpdate (ObjRRSet rr'), r) \<in> set t'" by (auto simp: secretRequest_def)
      from rrset_sync_ready [OF synced(2) assms(2) this assms(5)] synced(3) applied(2)
      have "applied_in rr zone c tr" "rst_ObservedGeneration (rr_Status rr') = om_Generation (rr_Meta rr)"
        by (auto simp: applied_in_def)
      with applied(2) show ?thesis by (auto simp: rrset_gate_def)
    qed
  qed
qed


theorem rrset_ready_honest_witness: "\<exists>zone c. applied_in demoRR zone c demoTrace"
proof -
  obtain res where pass: "exec (rrset_Reconcile refExt demoKey)
      ((KGet KRRSet demoKey, RObj (ObjRRSet demoRR)) # demoTrace) res"
    using demo_pass by blast
  define rr' where "rr' = (case fst (demoTrace ! 7) of KStatusUpdate (ObjRRSet x) \<Rightarrow> x)"
  have st: "fst (demoTrace ! 7) = KStatusUpdate (ObjRRSet rr')" "7 < length demoTrace"
    and ready: "isReady (rst_Conditions (rr_Status rr'))" and live: "\<not> om_Deleting (rr_Meta demoRR)"
    unfolding rr'_def by code_simp+
  then have "(KStatusUpdate (ObjRRSet rr'), snd (demoTrace ! 7)) \<in> set demoTrace"
    by (metis nth_mem prod.collapse)
  from rrset_ready_honest [OF pass _ live this ready] refExt_laws show ?thesis
    by (auto simp: ext_laws_def)
qed

lemma rrset_sync_patch:
  assumes "exec (rrset_sync X rr zone c) tr res" "(HttpDo h, hr) \<in> set tr" "hq_Method h = ''PATCH''"
  shows "\<exists>r pz. (getRequest c zone, r) \<in> set tr \<and> getReply zone r = Inr pz \<and>
    \<not> rrsetMatches pz (desiredRRSet rr)"
  using assms(1)
proof (cases rule: rrset_sync_cases)
  case (no_zone r t)
  with assms show ?thesis by (auto simp: held_back_def getRequest_def mkRequest_def)
next
  case (in_sync r pz t)
  from this(4) assms(2,3) in_sync(1) show ?thesis
    by (auto simp: getRequest_def mkRequest_def elim!: exec_markReady)
next
  case (patch r pz t)
  then show ?thesis by auto
qed

text \<open>
  No needless PATCH.  When a pass over a live RRSet sends a PATCH, PowerDNS has returned
  the Zone in the same pass and the Zone did not serve the declared record set (its first
  record set of that name and type was missing, or had another TTL or other contents), so a
  resync of a Zone in the declared state never bumps its serial.
\<close>

theorem rrset_no_needless_patch:
  assumes "exec (rrset_Reconcile X key) ((KGet KRRSet key, RObj (ObjRRSet rr)) # tr) res"
    and "\<not> om_Deleting (rr_Meta rr)"
    and "(HttpDo h, hr) \<in> set tr" and "hq_Method h = ''PATCH''"
  shows "\<exists>zone c r pz. (KGet KZone (zoneKeyFor rr), RObj (ObjZone zone)) \<in> set tr \<and>
    (getRequest c zone, r) \<in> set tr \<and> getReply zone r = Inr pz \<and>
    \<not> (\<exists>got. find (sameNameType (desiredRRSet rr)) (pz_RRSets pz) = Some got \<and>
         prr_TTL got = prr_TTL (desiredRRSet rr) \<and>
         mset (map rec_Content (prr_Records got)) = mset (rs_Records (rr_Spec rr)))"
proof (cases "ContainsFinalizer X (om_Finalizers (rr_Meta rr)) rrsetFinalizer")
  case False
  from rrset_protocol.unprotected_pass [OF assms(1), of rr] assms(2,3) False show ?thesis by auto
next
  case True
  from rrset_protocol.body_pass [OF assms(1), of rr] assms(2) True
  have "exec (rrset_body X rr) tr res" by simp
  then show ?thesis
  proof (cases rule: rrset_body_cases)
    case stopped
    with assms show ?thesis by (auto simp: held_back_def)
  next
    case (applied zone server objs t)
    then have ht: "(HttpDo h, hr) \<in> set t"
      using assms(3) by (auto simp: rrset_gate_def siblingsRequest_def)
    from applied(3) show ?thesis
    proof (cases rule: rrset_apply_cases)
      case no_client
      with ht show ?thesis by (auto simp: held_back_def)
    next
      case (synced sec c t')
      with ht have "(HttpDo h, hr) \<in> set t'" by (auto simp: secretRequest_def)
      from rrset_sync_patch [OF synced(2) this assms(4)] obtain r pz
        where "(getRequest c zone, r) \<in> set t'" "getReply zone r = Inr pz"
          "\<not> rrsetMatches pz (desiredRRSet rr)" by blast
      moreover have "map rec_Content (prr_Records (desiredRRSet rr)) = rs_Records (rr_Spec rr)"
        by (simp add: desiredRRSet_def Let_def comp_def)
      ultimately show ?thesis using synced(3) applied(2)
        by (intro exI [of _ zone] exI [of _ c] exI [of _ r] exI [of _ pz])
          (auto simp: rrset_gate_def rrsetMatches_def rrsetMatches_from_iff)
    qed
  qed
qed

theorem rrset_no_needless_patch_witness:
  "\<exists>zone c r pz. (getRequest c zone, r) \<in> set demoTrace \<and> getReply zone r = Inr pz"
proof -
  obtain res where pass: "exec (rrset_Reconcile refExt demoKey)
      ((KGet KRRSet demoKey, RObj (ObjRRSet demoRR)) # demoTrace) res"
    using demo_pass by blast
  define h where "h = (case fst (demoTrace ! 5) of HttpDo h \<Rightarrow> h)"
  have h: "fst (demoTrace ! 5) = HttpDo h" "hq_Method h = ''PATCH''" "5 < length demoTrace"
    and live: "\<not> om_Deleting (rr_Meta demoRR)"
    unfolding h_def by code_simp+
  then have "(HttpDo h, snd (demoTrace ! 5)) \<in> set demoTrace" by (metis nth_mem prod.collapse)
  from rrset_no_needless_patch [OF pass live this h(2)] show ?thesis by blast
qed

section \<open>Deletion\<close>

text \<open>
  Why an RRSet may be released: its record set is gone from PowerDNS (the DELETE was accepted
  or the zone is unknown), or the Zone or the server is gone or going, or a rival declares it.
\<close>

inductive rrset_released :: "RRSet \<Rightarrow> event list \<Rightarrow> bool" for rr tr where
  zone_gone: "(KGet KZone (zoneKeyFor rr), r) \<in> set tr \<Longrightarrow> respZone r = Inl e \<Longrightarrow>
    err_kind e = KubeNotFound \<Longrightarrow> rrset_released rr tr"
| zone_going: "(KGet KZone (zoneKeyFor rr), RObj (ObjZone zone)) \<in> set tr \<Longrightarrow>
    om_Deleting (zone_Meta zone) \<Longrightarrow> rrset_released rr tr"
| claimed: "(siblingsRequest rr, RList objs) \<in> set tr \<Longrightarrow> ObjRRSet x \<in> set objs \<Longrightarrow>
    rival rr x \<Longrightarrow> rrset_released rr tr"
| server_gone: "(KGet KZone (zoneKeyFor rr), RObj (ObjZone zone)) \<in> set tr \<Longrightarrow>
    (KGet KServer (serverKeyFor zone), r) \<in> set tr \<Longrightarrow> respServer r = Inl e \<Longrightarrow>
    err_kind e = KubeNotFound \<Longrightarrow> rrset_released rr tr"
| server_going: "(KGet KZone (zoneKeyFor rr), RObj (ObjZone zone)) \<in> set tr \<Longrightarrow>
    (KGet KServer (serverKeyFor zone), RObj (ObjServer server)) \<in> set tr \<Longrightarrow>
    om_Deleting (srv_Meta server) \<or> pst_Phase (srv_Status server) = PhaseFailed \<Longrightarrow>
    rrset_released rr tr"
| deleted: "(KGet KZone (zoneKeyFor rr), RObj (ObjZone zone)) \<in> set tr \<Longrightarrow>
    (KGet KServer (serverKeyFor zone), RObj (ObjServer server)) \<in> set tr \<Longrightarrow>
    (secretRequest server, RObj (ObjSecret sec)) \<in> set tr \<Longrightarrow> client_of server sec c \<Longrightarrow>
    (patchRequest c zone (deletePatch rr), r) \<in> set tr \<Longrightarrow>
    reply_2xx (respHttp r) \<or> reply_404 (respHttp r) \<Longrightarrow> rrset_released rr tr"

lemma deleteFromServer_ok:
  assumes "exec (deleteFromServer X rr zone server) tr (Inr u)"
  obtains sec c r where "client_of server sec c" "(secretRequest server, RObj (ObjSecret sec)) \<in> set tr"
    "(patchRequest c zone (deletePatch rr), r) \<in> set tr" "reply_2xx (respHttp r) \<or> reply_404 (respHttp r)"
proof (cases rule: client_cases [OF assms [unfolded deleteFromServer_def tryIO_def]])
  case (1 e t1 t2)
  then show ?thesis by simp
next
  case (2 sec c t)
  then obtain r t' where t: "t = (patchRequest c zone (deletePatch rr), r) # t'"
    and "exec (case patchReply zone r of
         Inl e \<Rightarrow> if err_kind e = PdnsNotFound then Return (Inr ()) else Return (Inl e)
       | Inr _ \<Rightarrow> andThen (rrset_event X rr ''Normal'' ''RRSetDeleted'' (rrset_deletedMsg rr))
           (\<lambda>_. Return (Inr ()))) t' (Inr u)"
    by (auto simp: patch_rrsets.exec_then patchRequest_def patchReply_def)
  then have "reply_2xx (respHttp r) \<or> reply_404 (respHttp r)"
    using patchReply_ok [of zone r] outcome_unit(1) [of "''PATCH''" "zonePath (zs_ZoneName (zone_Spec zone))" "respHttp r"]
    by (auto simp: patchReply_def is_err_def split: sum.splits if_splits)
  with 2 t show ?thesis by (intro that [of sec c r]) auto
qed

lemma deleteAtServer_ok:
  assumes "exec (andThen (ask (KGet KServer (serverKeyFor zone)) respServer) (\<lambda>rs. case rs of
      Inl e \<Rightarrow> if err_kind e = KubeNotFound then Return (Inr ()) else Return (Inl e)
    | Inr server \<Rightarrow>
        if om_Deleting (srv_Meta server) \<or> pst_Phase (srv_Status server) = PhaseFailed
        then Return (Inr ())
        else deleteFromServer X rr zone server)) tr (Inr u)"
    and "set tr \<subseteq> set tr'" "(KGet KZone (zoneKeyFor rr), RObj (ObjZone zone)) \<in> set tr'"
  shows "rrset_released rr tr'"
proof -
  from assms(1) obtain r t where tr: "tr = (KGet KServer (serverKeyFor zone), r) # t"
    and s: "exec (case respServer r of
            Inl e \<Rightarrow> if err_kind e = KubeNotFound then Return (Inr ()) else Return (Inl e)
          | Inr server \<Rightarrow>
              if om_Deleting (srv_Meta server) \<or> pst_Phase (srv_Status server) = PhaseFailed
              then Return (Inr ())
              else deleteFromServer X rr zone server) t (Inr u)"
    by (auto simp: exec_Call_iff)
  show ?thesis
  proof (cases "respServer r")
    case (Inl e)
    with s tr assms(2,3) show ?thesis by (auto split: if_splits intro: server_gone)
  next
    case (Inr server)
    show ?thesis
    proof (cases "om_Deleting (srv_Meta server) \<or> pst_Phase (srv_Status server) = PhaseFailed")
      case True
      with Inr tr assms(2,3) show ?thesis by (auto simp: respServer_Inr intro: server_going)
    next
      case False
      with s Inr have "exec (deleteFromServer X rr zone server) t (Inr u)" by simp
      then obtain sec c r' where "client_of server sec c"
        "(secretRequest server, RObj (ObjSecret sec)) \<in> set t"
        "(patchRequest c zone (deletePatch rr), r') \<in> set t"
        "reply_2xx (respHttp r') \<or> reply_404 (respHttp r')" by (rule deleteFromServer_ok)
      with Inr tr assms(2,3) show ?thesis
        by (intro deleted [of rr zone _ server sec c r']) (auto simp: respServer_Inr)
    qed
  qed
qed

lemma deleteFromZone_ok:
  assumes "exec (deleteFromZone X rr zone) tr (Inr u)"
  shows "rrset_released rr ((KGet KZone (zoneKeyFor rr), RObj (ObjZone zone)) # tr)"
proof (cases "om_Deleting (zone_Meta zone)")
  case True
  then show ?thesis by (auto intro: zone_going)
next
  case False
  with assms obtain t1 other t2 where tr: "tr = t1 @ t2" and fc: "exec (findConflict rr) t1 (Inr other)"
    and k: "exec (if other \<noteq> [] then Return (Inr ())
          else
            andThen (ask (KGet KServer (serverKeyFor zone)) respServer) (\<lambda>rs. case rs of
              Inl e \<Rightarrow> if err_kind e = KubeNotFound then Return (Inr ()) else Return (Inl e)
            | Inr server \<Rightarrow>
                if om_Deleting (srv_Meta server) \<or>
                   pst_Phase (srv_Status server) = PhaseFailed
                then Return (Inr ())
                else deleteFromServer X rr zone server)) t2 (Inr u)"
    by (auto simp: deleteFromZone_def exec_tryIO_iff)
  from fc obtain objs where t1: "t1 = [(siblingsRequest rr, RList objs)]"
    and objs: "other = [] \<longleftrightarrow> (\<forall>x. ObjRRSet x \<in> set objs \<longrightarrow> \<not> rival rr x)"
    by (rule exec_findConflict_ok)
  show ?thesis
  proof (cases "other = []")
    case False
    with objs t1 tr show ?thesis by (auto intro: claimed)
  next
    case True
    with k show ?thesis by (intro deleteAtServer_ok [of zone X rr t2 u]) (auto simp: tr)
  qed
qed

lemma deleteFromPowerDNS_ok:
  assumes "exec (deleteFromPowerDNS X rr) tr (Inr u)"
  shows "rrset_released rr tr"
proof -
  from assms obtain r t where tr: "tr = (KGet KZone (zoneKeyFor rr), r) # t"
    and k: "exec (case respZone r of
       Inl e \<Rightarrow> if err_kind e = KubeNotFound then Return (Inr ()) else Return (Inl e)
     | Inr zone \<Rightarrow> deleteFromZone X rr zone) t (Inr u)"
    by (auto simp: deleteFromPowerDNS_def exec_Call_iff)
  show ?thesis
  proof (cases "respZone r")
    case (Inl e)
    with k tr show ?thesis by (auto split: if_splits intro: zone_gone)
  next
    case (Inr zone)
    with k tr deleteFromZone_ok [of X rr zone t u] show ?thesis by (simp add: respZone_Inr)
  qed
qed

lemma rrset_released_mono:
  "rrset_released rr t \<Longrightarrow> set t \<subseteq> set tr \<Longrightarrow> rrset_released rr tr"
  by (induction rule: rrset_released.induct) (blast intro: rrset_released.intros)+

lemma calls_deleteFromPowerDNS:
  "calls_only (\<lambda>q. \<not> is_kube_write q \<and>
     (is_http q \<longrightarrow> (\<exists>c zone. q = patchRequest c zone (deletePatch rr)))) (deleteFromPowerDNS X rr)"
  unfolding deleteFromPowerDNS_def deleteFromZone_def deleteFromServer_def findConflict_def
    rrset_event_def
  by (intro calls_intros patch_rrsets.calls) (auto simp: patchRequest_def)

text \<open>
  C17: An RRSet under deletion is released only when that leaves no garbage behind.  In a pass
  over a deleting RRSet the only object ever written is the RRSet itself without its
  finalizer; with the policy Orphan no HTTP request is sent at all; otherwise every HTTP
  request is the PATCH that deletes exactly the declared record set, and the finalizer is
  dropped only if PowerDNS accepted that PATCH (or does not know the zone), or the Zone or
  the server is gone, deleting or (the server) failed, or a live rival declares the record set.
\<close>

theorem rrset_delete_releases:
  assumes "exec (rrset_Reconcile X key) ((KGet KRRSet key, RObj (ObjRRSet rr)) # tr) res"
    and "om_Deleting (rr_Meta rr)"
  shows "\<forall>(q, r) \<in> set tr.
      (is_kube_write q \<longrightarrow> q = KUpdate (ObjRRSet (rrset_dropFinalizer X rr)) \<and>
         (rs_DeletionPolicy (rr_Spec rr) = DeletionPolicyOrphan \<or> rrset_released rr tr)) \<and>
      (is_http q \<longrightarrow> rs_DeletionPolicy (rr_Spec rr) \<noteq> DeletionPolicyOrphan \<and>
         (\<exists>c zone. q = patchRequest c zone (deletePatch rr)))"
proof (cases "ContainsFinalizer X (om_Finalizers (rr_Meta rr)) rrsetFinalizer")
  case False
  with rrset_protocol.delete_pass [OF assms(1), of rr] assms(2) show ?thesis
    by (simp add: rrset_reconcileDelete_def)
next
  case fin: True
  from rrset_protocol.delete_pass [OF assms(1), of rr] assms(2)
  have del: "exec (rrset_reconcileDelete X rr) tr res" by simp
  show ?thesis
  proof (cases "rs_DeletionPolicy (rr_Spec rr) = DeletionPolicyOrphan")
    case True
    with fin del show ?thesis by (auto simp: rrset_reconcileDelete_def exec_tryIO_iff)
  next
    case False
    from fin del False have "exec (tryIO (deleteFromPowerDNS X rr) (\<lambda>_.
       tryIO (ask (KUpdate (ObjRRSet (rrset_dropFinalizer X rr))) respUnit) (\<lambda>_. Return (Inr Done)))) tr res"
      by (simp add: rrset_reconcileDelete_def)
    then show ?thesis
    proof (cases rule: exec_tryIOE)
      case (fail e)
      from calls_only_exec [OF fail(1) calls_deleteFromPowerDNS] False show ?thesis by blast
    next
      case (ok t1 u t2)
      from rrset_released_mono [OF deleteFromPowerDNS_ok [OF ok(2)], of tr] ok(1)
      have "rrset_released rr tr" by simp
      moreover from ok(3) obtain r where "t2 = [(KUpdate (ObjRRSet (rrset_dropFinalizer X rr)), r)]"
        by (auto simp: exec_tryIO_iff)
      ultimately show ?thesis
        using calls_only_exec [OF ok(2) calls_deleteFromPowerDNS] ok(1) False by auto
    qed
  qed
qed

theorem rrset_delete_releases_witness:
  "fst (demoDyingTrace ! 6) = KUpdate (ObjRRSet (rrset_dropFinalizer refExt demoDying)) \<and>
   rrset_released demoDying demoDyingTrace"
proof -
  obtain res where pass: "exec (rrset_Reconcile refExt demoKey)
      ((KGet KRRSet demoKey, RObj (ObjRRSet demoDying)) # demoDyingTrace) res"
    using demo_dying_pass by blast
  have "om_Deleting (rr_Meta demoDying)" "6 < length demoDyingTrace"
    and w: "is_kube_write (fst (demoDyingTrace ! 6))"
    and pol: "rs_DeletionPolicy (rr_Spec demoDying) \<noteq> DeletionPolicyOrphan"
    by code_simp+
  then have "demoDyingTrace ! 6 \<in> set demoDyingTrace" by simp
  with rrset_delete_releases [OF pass \<open>om_Deleting _\<close>] w pol show ?thesis
    by (auto simp: case_prod_beta)
qed

text \<open>
  C24: Conflicting RRSets are rejected symmetrically.  If two live RRSets of the same Zone
  declare the same name and type, each is a rival of the other, and whichever of the two a
  pass runs over, when the other is among the RRSets listed for the Zone the pass sends no
  HTTP request: neither claimant writes to PowerDNS.
\<close>

theorem rrset_conflict_rejects_both:
  assumes "rival a b" and "\<not> om_Deleting (rr_Meta a)"
    and "zoneKeyFor a = zoneKeyFor b"
    and "x = a \<and> y = b \<or> x = b \<and> y = a"
    and "exec (rrset_Reconcile X key) ((KGet KRRSet key, RObj (ObjRRSet x)) # tr) res"
    and "\<forall>objs. (siblingsRequest a, RList objs) \<in> set tr \<longrightarrow> ObjRRSet y \<in> set objs"
  shows "\<forall>(q, r) \<in> set tr. \<not> is_http q"
proof (rule ccontr)
  assume "\<not> ?thesis"
  then obtain h hr where h: "(HttpDo h, hr) \<in> set tr"
    by (auto elim!: is_http.elims(2))
  have riv: "rival x y" and live: "\<not> om_Deleting (rr_Meta x)"
    using assms(1,2,4) by (auto simp: rival_def)
  have req: "siblingsRequest x = siblingsRequest a"
    using assms(3,4) by (auto simp: siblingsRequest_def)
  show False
  proof (cases "ContainsFinalizer X (om_Finalizers (rr_Meta x)) rrsetFinalizer")
    case False
    from rrset_protocol.unprotected_pass [OF assms(5), of x] h live False show False by auto
  next
    case True
    from rrset_protocol.body_pass [OF assms(5), of x] live True
    have "exec (rrset_body X x) tr res" by simp
    then show False
    proof (cases rule: rrset_body_cases)
      case stopped
      with h show False by (auto simp: held_back_def)
    next
      case (applied zone server objs t)
      with assms(6) req riv show False by (auto simp: rrset_gate_def rrset_admissible_def)
    qed
  qed
qed

theorem rrset_conflict_rejects_both_witness:
  "rival demoRR demoRival \<and> \<not> list_ex (\<lambda>(q, r). is_http q) demoRivalTrace"
proof -
  obtain res where pass: "exec (rrset_Reconcile refExt demoKey)
      ((KGet KRRSet demoKey, RObj (ObjRRSet demoRR)) # demoRivalTrace) res"
    using demo_rival_pass by blast
  have riv: "rival demoRR demoRival" and live: "\<not> om_Deleting (rr_Meta demoRR)"
    and key: "zoneKeyFor demoRR = zoneKeyFor demoRival"
    and all: "list_all (\<lambda>(q, r). q = siblingsRequest demoRR \<longrightarrow>
       (case r of RList objs \<Rightarrow> list_ex (\<lambda>x. x = ObjRRSet demoRival) objs | _ \<Rightarrow> True)) demoRivalTrace"
    by code_simp+
  have "\<forall>objs. (siblingsRequest demoRR, RList objs) \<in> set demoRivalTrace \<longrightarrow>
      ObjRRSet demoRival \<in> set objs"
    using all by (fastforce simp: list_all_iff list_ex_iff)
  from rrset_conflict_rejects_both [OF riv live key _ pass this] riv show ?thesis
    by (auto simp: list_ex_iff)
qed

end
