(* ===== verification/Zone_Controller.thy ===== *)
theory Zone_Controller
  imports Controller_Common
begin

text \<open>
  \<open>internal/controller/zone_controller.go\<close>: the reconciler of Zone resources.  \<open>Reconcile\<close> is
  split into \<open>zone_Reconcile\<close> (the finalizer protocol), \<open>zone_body\<close> and \<open>zone_withServer\<close>;
  \<open>reconcileZone\<close> into \<open>zone_lookup\<close> (find, create or adopt), \<open>zone_registered\<close> (kind and
  masters), \<open>zone_dnssec\<close> and \<open>zone_finish\<close>; \<open>createZone\<close> into the request and \<open>seedSOA\<close>;
  \<open>ensureDNSSEC\<close> into the loops it consists of.
\<close>

section \<open>Status\<close>

definition zoneFinalizer :: string where
  "zoneFinalizer = ''dns.aetherplatform.cloud/zone-protection''"

definition zoneServerIndex :: string where
  "zoneServerIndex = ''spec.serverRef''"

definition zone_setCond ::
  "ext \<Rightarrow> Zone \<Rightarrow> string \<Rightarrow> string \<Rightarrow> string \<Rightarrow> string \<Rightarrow> Zone" where
  "zone_setCond X zone condType status reason msg =
     zone\<lparr>zone_Status := (zone_Status zone)\<lparr>zst_Conditions :=
       setCondOn X (zst_Conditions (zone_Status zone)) (om_Generation (zone_Meta zone))
         condType status reason msg\<rparr>\<rparr>"

definition zone_setPhase :: "Zone \<Rightarrow> string \<Rightarrow> string \<Rightarrow> Zone" where
  "zone_setPhase zone phase msg =
     zone\<lparr>zone_Status := (zone_Status zone)\<lparr>zst_Phase := phase, zst_FailureMessage := msg\<rparr>\<rparr>"

definition zone_markNotReady ::
  "ext \<Rightarrow> Zone \<Rightarrow> string \<Rightarrow> string \<Rightarrow> int \<Rightarrow> reconcile" where
  "zone_markNotReady X zone reason msg after =
     tryIO (ask (KStatusUpdate (ObjZone (zone_setCond X (zone_setPhase zone ZonePhasePending msg)
              ConditionReady ''False'' reason msg))) respUnit)
       (\<lambda>_. Return (Inr (RequeueAfter after)))"

definition zone_event :: "ext \<Rightarrow> Zone \<Rightarrow> string \<Rightarrow> string \<Rightarrow> string \<Rightarrow> unit kio" where
  "zone_event X zone typ reason msg = emit X KZone (zone_Meta zone) typ reason msg"

definition zone_markFailed :: "ext \<Rightarrow> Zone \<Rightarrow> string \<Rightarrow> reconcile" where
  "zone_markFailed X zone msg =
     tryIO (ask (KStatusUpdate (ObjZone (zone_setCond X (zone_setPhase zone ZonePhaseFailed msg)
              ConditionReady ''False'' ''InvalidSpec'' msg))) respUnit)
       (\<lambda>_. andThen (zone_event X zone ''Warning'' ''InvalidSpec'' msg) (\<lambda>_. Return (Inr Done)))"

section \<open>Creating a zone\<close>

definition wantKind :: "Zone \<Rightarrow> string" where
  "wantKind zone = (if zs_Kind (zone_Spec zone) = [] then ZoneKindNative else zs_Kind (zone_Spec zone))"

definition newZone :: "Zone \<Rightarrow> PdnsZone" where
  "newZone zone = zeroPdnsZone\<lparr>pz_Name := zs_ZoneName (zone_Spec zone), pz_Kind := wantKind zone,
     pz_Masters := zs_Masters (zone_Spec zone),
     pz_Nameservers := (case zs_Nameservers (zone_Spec zone) of None \<Rightarrow> Some [] | Some ns \<Rightarrow> Some ns)\<rparr>"

definition soaPrimary :: "Zone \<Rightarrow> string" where
  "soaPrimary zone = (case elems (zs_Nameservers (zone_Spec zone)) of
     [] \<Rightarrow> zs_ZoneName (zone_Spec zone) | ns # _ \<Rightarrow> ns)"

definition soaHostmaster :: "Zone \<Rightarrow> string" where
  "soaHostmaster zone =
     (let def = ''hostmaster.'' @ zs_ZoneName (zone_Spec zone) in
      case zs_SOA (zone_Spec zone) of
        None \<Rightarrow> def
      | Some soa \<Rightarrow> if soa_Hostmaster soa \<noteq> [] then soa_Hostmaster soa else def)"

definition soaTTL :: "Zone \<Rightarrow> int" where
  "soaTTL zone =
     (case zs_SOA (zone_Spec zone) of
        None \<Rightarrow> 3600
      | Some soa \<Rightarrow> (case soa_TTL soa of None \<Rightarrow> 3600 | Some t \<Rightarrow> t))"

definition soaRRSet :: "Zone \<Rightarrow> PdnsRRSet" where
  "soaRRSet zone = \<lparr>prr_Name = zs_ZoneName (zone_Spec zone), prr_Type = ''SOA'', prr_TTL = soaTTL zone,
     prr_ChangeType = ''REPLACE'',
     prr_Records = [\<lparr>rec_Content = soaPrimary zone @ '' '' @ soaHostmaster zone @
       '' 0 10800 3600 604800 3600'', rec_Disabled = False\<rparr>]\<rparr>"

definition soaSeedFailedMsg :: "error \<Rightarrow> string" where
  "soaSeedFailedMsg e = ''zone created but SOA seed and compensating delete both failed; '' @
     ''zone keeps the PowerDNS default SOA: '' @ err_msg e"

definition zoneCreatedMsg :: "Zone \<Rightarrow> string" where
  "zoneCreatedMsg zone = ''registered '' @ zs_ZoneName (zone_Spec zone) @ '' in PowerDNS''"

text \<open>Seed the SOA; roll the zone back when that fails.\<close>

definition seedSOA :: "ext \<Rightarrow> Zone \<Rightarrow> Client \<Rightarrow> (error + unit) kio" where
  "seedSOA X zone pc =
     andThen (PatchRRSets pc (zs_ZoneName (zone_Spec zone)) [soaRRSet zone]) (\<lambda>r. case r of
       Inr _ \<Rightarrow> Return (Inr ())
     | Inl e \<Rightarrow>
         andThen (DeleteZone pc (zs_ZoneName (zone_Spec zone))) (\<lambda>rd. case rd of
           Inl _ \<Rightarrow> andThen (zone_event X zone ''Warning'' ''SOASeedFailed'' (soaSeedFailedMsg e))
                      (\<lambda>_. Return (Inl (wrapErr ''seed SOA'' e)))
         | Inr _ \<Rightarrow> Return (Inl (wrapErr ''seed SOA (zone rolled back, will retry)'' e))))"

definition createZone :: "ext \<Rightarrow> Zone \<Rightarrow> Client \<Rightarrow> (error + PdnsZone) kio" where
  "createZone X zone pc =
     tryIO (CreateZone pc (newZone zone)) (\<lambda>created.
       tryIO (if wantKind zone \<noteq> ZoneKindSecondary then seedSOA X zone pc else Return (Inr ()))
         (\<lambda>_. andThen (zone_event X zone ''Normal'' ''ZoneCreated'' (zoneCreatedMsg zone))
                (\<lambda>_. Return (Inr created))))"

section \<open>DNSSEC\<close>

text \<open>The loop that deactivates every active key.\<close>

fun deactivateKeys :: "Client \<Rightarrow> string \<Rightarrow> Cryptokey list \<Rightarrow> (error + unit) kio" where
  "deactivateKeys pc zn [] = Return (Inr ())"
| "deactivateKeys pc zn (k # ks) =
     (if \<not> ck_Active k then deactivateKeys pc zn ks
      else tryIO (UpdateCryptokey pc zn (k\<lparr>ck_Active := False\<rparr>)) (\<lambda>_. deactivateKeys pc zn ks))"

text \<open>No key is active: reactivate the first one, or create one; then rectify.\<close>

definition activateKey :: "Client \<Rightarrow> string \<Rightarrow> Cryptokey list \<Rightarrow> (error + unit) kio" where
  "activateKey pc zn keys =
     tryIO (case keys of
              k # _ \<Rightarrow> UpdateCryptokey pc zn (k\<lparr>ck_Active := True\<rparr>)
            | [] \<Rightarrow> tryIO (CreateCryptokey pc zn (zeroCryptokey\<lparr>ck_KeyType := ''csk'', ck_Active := True\<rparr>))
                      (\<lambda>_. Return (Inr ())))
       (\<lambda>_. RectifyZone pc zn)"

fun activeDS :: "Cryptokey list \<Rightarrow> string list" where
  "activeDS [] = []"
| "activeDS (k # ks) = (if ck_Active k then ck_DS k @ activeDS ks else activeDS ks)"

definition ensureDNSSEC :: "Zone \<Rightarrow> Client \<Rightarrow> (error + string list) kio" where
  "ensureDNSSEC zone pc =
     (let zn = zs_ZoneName (zone_Spec zone) in
      tryIO (ListCryptokeys pc zn) (\<lambda>keys.
        if \<not> zs_DNSSEC_Enabled (zone_Spec zone) then
          tryIO (deactivateKeys pc zn keys) (\<lambda>_. Return (Inr []))
        else if \<not> list_ex ck_Active keys then
          tryIO (activateKey pc zn keys) (\<lambda>_.
            tryIO (ListCryptokeys pc zn) (\<lambda>keys'. Return (Inr (activeDS keys'))))
        else Return (Inr (activeDS keys))))"

section \<open>Converging a zone\<close>

definition zone_lookup :: "ext \<Rightarrow> Zone \<Rightarrow> Client \<Rightarrow> (error + PdnsZone) kio" where
  "zone_lookup X zone pc =
     (let zn = zs_ZoneName (zone_Spec zone) in
      andThen (GetZone pc zn) (\<lambda>rz.
        if is_err PdnsNotFound rz then
          andThen (createZone X zone pc) (\<lambda>rc.
            if is_err PdnsAlreadyExists rc then GetZone pc zn else Return rc)
        else Return rz))"

definition zone_finish :: "ext \<Rightarrow> Zone \<Rightarrow> PdnsZone \<Rightarrow> string list \<Rightarrow> reconcile" where
  "zone_finish X zone pz ds =
     (let st = zone_Status zone;
          z1 = zone\<lparr>zone_Status := st\<lparr>zst_DSRecords := ds\<rparr>\<rparr>;
          z2 = (if zs_DNSSEC_Enabled (zone_Spec zone)
                then zone_setCond X z1 ConditionDNSSECReady ''True'' ''Secured''
                  ''zone is signed; lodge status.dsRecords at the registrar''
                else zone_setCond X z1 ConditionDNSSECReady ''False'' ''Disabled'' ''dnssec not enabled'');
          z3 = z2\<lparr>zone_Status := (zone_Status z2)\<lparr>zst_Phase := ZonePhaseReady,
                 zst_Serial := pz_Serial pz, zst_ObservedGeneration := om_Generation (zone_Meta zone),
                 zst_FailureMessage := []\<rparr>\<rparr>;
          z4 = zone_setCond X z3 ConditionReady ''True'' ''Reconciled'' [] in
      tryIO (ask (KStatusUpdate (ObjZone z4)) respUnit)
        (\<lambda>_. Return (Inr (RequeueAfter resyncInterval))))"

definition zone_dnssec :: "ext \<Rightarrow> Zone \<Rightarrow> Client \<Rightarrow> PdnsZone \<Rightarrow> reconcile" where
  "zone_dnssec X zone pc pz =
     andThen (ensureDNSSEC zone pc) (\<lambda>rd. case rd of
       Inl e \<Rightarrow> zone_markNotReady X
                  (zone_setCond X zone ConditionDNSSECReady ''False'' (apiReason e) (err_msg e))
                  (apiReason e) (err_msg e) requeueLong
     | Inr ds \<Rightarrow> zone_finish X zone pz ds)"

definition zone_drifted :: "Zone \<Rightarrow> PdnsZone \<Rightarrow> bool" where
  "zone_drifted zone pz \<longleftrightarrow>
     pz_Kind pz \<noteq> wantKind zone \<or> \<not> slices_Equal (pz_Masters pz) (zs_Masters (zone_Spec zone))"

definition zone_registered :: "ext \<Rightarrow> Zone \<Rightarrow> Client \<Rightarrow> PdnsZone \<Rightarrow> reconcile" where
  "zone_registered X zone pc pz =
     andThen (if zone_drifted zone pz
              then UpdateZone pc (zs_ZoneName (zone_Spec zone))
                     \<lparr>zu_Kind = wantKind zone, zu_Masters = zs_Masters (zone_Spec zone)\<rparr>
              else Return (Inr ())) (\<lambda>ru. case ru of
       Inl e \<Rightarrow> zone_markNotReady X zone (apiReason e) (err_msg e) requeueLong
     | Inr _ \<Rightarrow> zone_dnssec X zone pc pz)"

definition reconcileZone :: "ext \<Rightarrow> Zone \<Rightarrow> Client \<Rightarrow> reconcile" where
  "reconcileZone X zone pc =
     andThen (zone_lookup X zone pc) (\<lambda>rz. case rz of
       Inl e \<Rightarrow> zone_markNotReady X
                  (zone_setCond X zone ConditionRegistered ''False'' (apiReason e) (err_msg e))
                  (apiReason e) (err_msg e) requeueLong
     | Inr pz \<Rightarrow> zone_registered X
                  (zone_setCond X zone ConditionRegistered ''True'' ''ZoneExists''
                     ''zone registered in PowerDNS'') pc pz)"

definition zone_withServer :: "ext \<Rightarrow> Zone \<Rightarrow> PowerDNSServer \<Rightarrow> reconcile" where
  "zone_withServer X zone server =
     (if \<not> namespaceAllowed server (om_Namespace (zone_Meta zone)) then
        zone_markNotReady X zone ''NamespaceNotAllowed''
          (''namespace '' @ quote (om_Namespace (zone_Meta zone)) @ '' is not allowed by '' @
           showKey (srv_key server) @ '' spec.zoneManagement.allowedNamespaces'') requeueLong
      else if pst_Phase (srv_Status server) \<noteq> PhaseReady then
        zone_markNotReady X zone ''ServerNotReady'' ''PowerDNSServer is not Ready yet'' requeueShort
      else
        andThen (pdnsClientFor server) (\<lambda>rc. case rc of
          Inl e \<Rightarrow> zone_markNotReady X zone ''APIUnreachable'' (err_msg e) requeueLong
        | Inr pc \<Rightarrow> reconcileZone X zone pc))"

definition zone_body :: "ext \<Rightarrow> Zone \<Rightarrow> reconcile" where
  "zone_body X zone =
     (if zs_Kind (zone_Spec zone) = ZoneKindSecondary \<and> zs_DNSSEC_Enabled (zone_Spec zone) then
        zone_markFailed X zone
          (''dnssec cannot be enabled on Secondary zones '' @ em_dash @ '' sign at the primary'')
      else
        andThen (ask (KGet KServer (serverKeyFor zone)) respServer) (\<lambda>rs. case rs of
          Inl e \<Rightarrow>
            if err_kind e = KubeNotFound then
              zone_markNotReady X zone ''ServerNotFound''
                (''PowerDNSServer '' @ showKey (serverKeyFor zone) @ '' not found'') requeueLong
            else Return (Inl e)
        | Inr server \<Rightarrow> zone_withServer X zone server))"

section \<open>Deleting a zone\<close>

definition zoneDeletedMsg :: "Zone \<Rightarrow> string" where
  "zoneDeletedMsg zone = ''removed '' @ zs_ZoneName (zone_Spec zone) @ '' from PowerDNS''"

definition zone_removeData :: "ext \<Rightarrow> Zone \<Rightarrow> (error + unit) kio" where
  "zone_removeData X zone =
     andThen (ask (KGet KServer (serverKeyFor zone)) respServer) (\<lambda>rs. case rs of
       Inl e \<Rightarrow> if err_kind e = KubeNotFound then Return (Inr ()) else Return (Inl e)
     | Inr server \<Rightarrow>
         if om_Deleting (srv_Meta server) \<or> pst_Phase (srv_Status server) = PhaseFailed
         then Return (Inr ())
         else
           tryIO (pdnsClientFor server) (\<lambda>pc.
             tryIO (DeleteZone pc (zs_ZoneName (zone_Spec zone))) (\<lambda>_.
               andThen (zone_event X zone ''Normal'' ''ZoneDeleted'' (zoneDeletedMsg zone))
                 (\<lambda>_. Return (Inr ())))))"

definition zone_dropFinalizer :: "ext \<Rightarrow> Zone \<Rightarrow> Zone" where
  "zone_dropFinalizer X zone = zone\<lparr>zone_Meta := (zone_Meta zone)\<lparr>om_Finalizers :=
     RemoveFinalizer X (om_Finalizers (zone_Meta zone)) zoneFinalizer\<rparr>\<rparr>"

definition zone_reconcileDelete :: "ext \<Rightarrow> Zone \<Rightarrow> reconcile" where
  "zone_reconcileDelete X zone =
     (if \<not> ContainsFinalizer X (om_Finalizers (zone_Meta zone)) zoneFinalizer then Return (Inr Done)
      else
        tryIO (if zs_DeletionPolicy (zone_Spec zone) \<noteq> DeletionPolicyOrphan
               then zone_removeData X zone else Return (Inr ()))
          (\<lambda>_. tryIO (ask (KUpdate (ObjZone (zone_dropFinalizer X zone))) respUnit)
                 (\<lambda>_. Return (Inr Done))))"

section \<open>The reconciler\<close>

definition zone_protect :: "ext \<Rightarrow> Zone \<Rightarrow> kobj" where
  "zone_protect X zone = ObjZone (zone\<lparr>zone_Meta := (zone_Meta zone)\<lparr>om_Finalizers :=
     AddFinalizer X (om_Finalizers (zone_Meta zone)) zoneFinalizer\<rparr>\<rparr>)"

definition zone_Reconcile :: "ext \<Rightarrow> NamespacedName \<Rightarrow> reconcile" where
  "zone_Reconcile X key =
     andThen (ask (KGet KZone key) respZone) (\<lambda>r. case r of
       Inl e \<Rightarrow> Return (ignoreNotFound e)
     | Inr zone \<Rightarrow>
         if om_Deleting (zone_Meta zone) then zone_reconcileDelete X zone
         else if \<not> ContainsFinalizer X (om_Finalizers (zone_Meta zone)) zoneFinalizer then
           tryIO (ask (KUpdate (zone_protect X zone)) respUnit) (\<lambda>_. Return (Inr Requeue))
         else zone_body X zone)"

interpretation zone_protocol: finalizer_protocol "zone_Reconcile X" KZone respZone
  "\<lambda>z. om_Deleting (zone_Meta z)"
  "\<lambda>z. ContainsFinalizer X (om_Finalizers (zone_Meta z)) zoneFinalizer"
  "zone_protect X" "zone_reconcileDelete X" "zone_body X"
  by unfold_locales (simp add: zone_Reconcile_def)

text \<open>The watch that wakes the zones of a server (\<open>zonesForServer\<close>) and its index function.\<close>

definition zoneIndexKeys :: "Zone \<Rightarrow> string list" where
  "zoneIndexKeys z = [refKey (zs_ServerRef (zone_Spec z)) (om_Namespace (zone_Meta z))]"

definition zonesForServer :: "ObjectMeta \<Rightarrow> NamespacedName list kio" where
  "zonesForServer m =
     ask (KListByIndex KZone zoneServerIndex (om_Namespace m @ ''/'' @ om_Name m))
       (\<lambda>r. case items itemZone (respList r) of
              Inl e \<Rightarrow> []
            | Inr xs \<Rightarrow> map (\<lambda>x. (om_Namespace (zone_Meta x), om_Name (zone_Meta x))) xs)"

section \<open>Demonstration passes\<close>

definition liveZone :: Zone where
  "liveZone = demoZone\<lparr>zone_Meta := (zone_Meta demoZone)\<lparr>om_Finalizers := [zoneFinalizer]\<rparr>\<rparr>"

definition dyingZone :: Zone where
  "dyingZone = liveZone\<lparr>zone_Meta := (zone_Meta liveZone)\<lparr>om_Deleting := True\<rparr>\<rparr>"

definition zoneKey :: NamespacedName where
  "zoneKey = (''dns'', ''example'')"

definition httpOk :: "json option \<Rightarrow> resp" where
  "httpOk js = RHttp (HttpReply 200 ''200 OK'' [] js)"

definition http404 :: resp where
  "http404 = RHttp (HttpReply 404 ''404 Not Found'' [] None)"

text \<open>The zone exists and is in the declared state, with one active key to deactivate.\<close>

definition readyTrace :: "event list" where
  "readyTrace = tl (trace_of ROk (zone_Reconcile refExt zoneKey)
     [RObj (ObjZone liveZone), RObj (ObjServer demoServer), RObj (ObjSecret demoSecret),
      httpOk (Some (marshal_Zone demoPdnsZone)),
      httpOk (Some (JArr [marshal_Cryptokey \<lparr>ck_ID = 3, ck_KeyType = ''csk'', ck_Active = True, ck_DS = []\<rparr>])),
      httpOk None, ROk])"

text \<open>The zone is created, its SOA refused, and the zone rolled back.\<close>

definition rollbackTrace :: "event list" where
  "rollbackTrace = tl (trace_of ROk (zone_Reconcile refExt zoneKey)
     [RObj (ObjZone liveZone), RObj (ObjServer demoServer), RObj (ObjSecret demoSecret),
      http404, httpOk (Some (marshal_Zone demoPdnsZone)),
      RHttp (HttpReply 422 ''422 Unprocessable Entity'' [] None), httpOk None, ROk])"

definition dyingTrace :: "event list" where
  "dyingTrace = tl (trace_of ROk (zone_Reconcile refExt zoneKey)
     [RObj (ObjZone dyingZone), RObj (ObjServer demoServer), RObj (ObjSecret demoSecret),
      httpOk None, ROk, ROk])"

lemma zone_demo_passes:
  shows ready_pass: "\<exists>res. exec (zone_Reconcile refExt zoneKey)
      ((KGet KZone zoneKey, RObj (ObjZone liveZone)) # readyTrace) res"
    and rollback_pass: "\<exists>res. exec (zone_Reconcile refExt zoneKey)
      ((KGet KZone zoneKey, RObj (ObjZone liveZone)) # rollbackTrace) res"
    and dying_pass: "\<exists>res. exec (zone_Reconcile refExt zoneKey)
      ((KGet KZone zoneKey, RObj (ObjZone dyingZone)) # dyingTrace) res"
  unfolding readyTrace_def rollbackTrace_def dyingTrace_def
  by (rule exI, rule exec_tl_trace_of, code_simp)+

end
