(* ===== verification/Zone_Correct.thy ===== *)
theory Zone_Correct
  imports Zone_Controller
begin

text \<open>
  Properties of the Zone reconciler: which requests a pass can send (\<open>zone_request\<close>), what has
  happened when a step succeeds (\<open>zone_found\<close>, \<open>dnssec_done\<close>), and the theorems about whole
  passes built from them.
\<close>

section \<open>Requests\<close>

abbreviation zname :: "Zone \<Rightarrow> string" where
  "zname zone \<equiv> zs_ZoneName (zone_Spec zone)"

definition createRequest :: "Client \<Rightarrow> Zone \<Rightarrow> req" where
  "createRequest c zone = HttpDo (mkRequest c ''POST'' zonesPath (Some (marshal_Zone (newZone zone))))"

definition deleteRequest :: "Client \<Rightarrow> Zone \<Rightarrow> req" where
  "deleteRequest c zone = HttpDo (mkRequest c ''DELETE'' (zonePath (zname zone)) None)"

definition metaRequest :: "Client \<Rightarrow> Zone \<Rightarrow> req" where
  "metaRequest c zone = HttpDo (mkRequest c ''PUT'' (zonePath (zname zone))
     (Some (marshal_ZoneUpdate \<lparr>zu_Kind = wantKind zone,
        zu_Masters = Some (elems (zs_Masters (zone_Spec zone)))\<rparr>)))"

definition listKeysRequest :: "Client \<Rightarrow> Zone \<Rightarrow> req" where
  "listKeysRequest c zone = HttpDo (mkRequest c ''GET'' (zonePath (zname zone) @ ''/cryptokeys'') None)"

definition newKeyRequest :: "Client \<Rightarrow> Zone \<Rightarrow> req" where
  "newKeyRequest c zone = HttpDo (mkRequest c ''POST'' (zonePath (zname zone) @ ''/cryptokeys'')
     (Some (marshal_Cryptokey (zeroCryptokey\<lparr>ck_KeyType := ''csk'', ck_Active := True\<rparr>))))"

definition setKeyRequest :: "Client \<Rightarrow> Zone \<Rightarrow> Cryptokey \<Rightarrow> req" where
  "setKeyRequest c zone k = HttpDo (mkRequest c ''PUT'' (zonePath (zname zone) @ ''/cryptokeys/'' @ itoa (ck_ID k))
     (Some (marshal_Cryptokey k)))"

definition rectifyRequest :: "Client \<Rightarrow> Zone \<Rightarrow> req" where
  "rectifyRequest c zone = HttpDo (mkRequest c ''PUT'' (zonePath (zname zone) @ ''/rectify'') None)"

lemmas zone_request_defs = createRequest_def deleteRequest_def metaRequest_def listKeysRequest_def
  newKeyRequest_def setKeyRequest_def rectifyRequest_def getRequest_def patchRequest_def

lemma zone_setCond_sel [simp]:
  "zone_Spec (zone_setCond X z t s r m) = zone_Spec z"
  "zone_Meta (zone_setCond X z t s r m) = zone_Meta z"
  "zst_Phase (zone_Status (zone_setCond X z t s r m)) = zst_Phase (zone_Status z)"
  "zst_DSRecords (zone_Status (zone_setCond X z t s r m)) = zst_DSRecords (zone_Status z)"
  "zst_Serial (zone_Status (zone_setCond X z t s r m)) = zst_Serial (zone_Status z)"
  "zst_ObservedGeneration (zone_Status (zone_setCond X z t s r m)) = zst_ObservedGeneration (zone_Status z)"
  by (simp_all add: zone_setCond_def)

lemma zone_setPhase_sel [simp]:
  "zone_Spec (zone_setPhase z p m) = zone_Spec z" "zone_Meta (zone_setPhase z p m) = zone_Meta z"
  "zst_Phase (zone_Status (zone_setPhase z p m)) = p"
  by (simp_all add: zone_setPhase_def)

lemma zone_spec_only:
  assumes "zone_Spec z' = zone_Spec z"
  shows "wantKind z' = wantKind z" "newZone z' = newZone z" "soaRRSet z' = soaRRSet z"
    "zone_drifted z' pz = zone_drifted z pz"
    "createRequest c z' = createRequest c z" "deleteRequest c z' = deleteRequest c z"
    "metaRequest c z' = metaRequest c z" "listKeysRequest c z' = listKeysRequest c z"
    "newKeyRequest c z' = newKeyRequest c z" "setKeyRequest c z' k = setKeyRequest c z k"
    "rectifyRequest c z' = rectifyRequest c z" "getRequest c z' = getRequest c z"
    "patchRequest c z' x = patchRequest c z x" "ensureDNSSEC z' pc = ensureDNSSEC z pc"
  using assms by (simp_all add: zone_request_defs wantKind_def newZone_def soaRRSet_def soaTTL_def
      soaPrimary_def soaHostmaster_def zone_drifted_def ensureDNSSEC_def cong: list.case_cong option.case_cong)

text \<open>Each step as its request and the reply it gets.\<close>

lemma newZone_nameservers: "pz_Nameservers (newZone zone) \<noteq> None"
  by (simp add: newZone_def split: option.splits)

definition createReply :: "resp \<Rightarrow> error + PdnsZone" where
  "createReply r = outcome ''POST'' zonesPath (into decode_Zone) (respHttp r)"

lemma exec_CreateZone:
  "exec (andThen (CreateZone c (newZone zone)) f) tr x \<longleftrightarrow>
     (\<exists>r t. tr = (createRequest c zone, r) # t \<and> exec (f (createReply r)) t x)"
  using newZone_nameservers [of zone]
  by (auto simp: create_zone.exec_then createRequest_def createReply_def)

lemma exec_GetZone:
  "exec (andThen (GetZone c (zname zone)) f) tr x \<longleftrightarrow>
     (\<exists>r t. tr = (getRequest c zone, r) # t \<and> exec (f (getReply zone r)) t x)"
  by (auto simp: get_zone.exec_then getRequest_def getReply_def)

lemma exec_Patch:
  "exec (andThen (PatchRRSets c (zname zone) [rrs]) f) tr x \<longleftrightarrow>
     (\<exists>r t. tr = (patchRequest c zone rrs, r) # t \<and> exec (f (patchReply zone r)) t x)"
  by (auto simp: patch_rrsets.exec_then patchRequest_def patchReply_def)

definition unitReply :: "string \<Rightarrow> string \<Rightarrow> resp \<Rightarrow> error + unit" where
  "unitReply m p r = outcome m p noOut (respHttp r)"

lemma unitReply_ok [simp]: "unitReply m p r = Inr u \<longleftrightarrow> reply_2xx (respHttp r)"
  by (simp add: unitReply_def outcome_noOut_ok)

lemma exec_UpdateZone:
  "exec (UpdateZone c (zname zone) \<lparr>zu_Kind = wantKind zone, zu_Masters = zs_Masters (zone_Spec zone)\<rparr>) tr x
   \<longleftrightarrow> (\<exists>r. tr = [(metaRequest c zone, r)] \<and> unitReply ''PUT'' (zonePath (zname zone)) r = x)"
  by (cases "zs_Masters (zone_Spec zone)") (auto simp: update_zone.one_request metaRequest_def unitReply_def)

definition listKeysReply :: "Zone \<Rightarrow> resp \<Rightarrow> error + Cryptokey list" where
  "listKeysReply zone r = outcome ''GET'' (zonePath (zname zone) @ ''/cryptokeys'')
     (into (decode_list decode_Cryptokey)) (respHttp r)"

lemma exec_ListCryptokeys:
  "exec (ListCryptokeys c (zname zone)) tr x \<longleftrightarrow>
     (\<exists>r. tr = [(listKeysRequest c zone, r)] \<and> listKeysReply zone r = x)"
  by (auto simp: list_cryptokeys.one_request listKeysRequest_def listKeysReply_def)

lemma exec_UpdateCryptokey:
  "exec (UpdateCryptokey c (zname zone) k) tr x \<longleftrightarrow>
     (\<exists>r. tr = [(setKeyRequest c zone k, r)] \<and>
        unitReply ''PUT'' (zonePath (zname zone) @ ''/cryptokeys/'' @ itoa (ck_ID k)) r = x)"
  by (auto simp: update_cryptokey.one_request setKeyRequest_def unitReply_def)

lemma exec_RectifyZone:
  "exec (RectifyZone c (zname zone)) tr x \<longleftrightarrow>
     (\<exists>r. tr = [(rectifyRequest c zone, r)] \<and> unitReply ''PUT'' (zonePath (zname zone) @ ''/rectify'') r = x)"
  by (auto simp: rectify_zone.one_request rectifyRequest_def unitReply_def)

section \<open>What has happened when a step succeeds\<close>

text \<open>The zone was there, or was created (and, unless Secondary, its SOA accepted).\<close>

definition zone_found :: "Zone \<Rightarrow> Client \<Rightarrow> PdnsZone \<Rightarrow> event list \<Rightarrow> bool" where
  "zone_found zone c pz tr \<longleftrightarrow>
     (\<exists>r. (getRequest c zone, r) \<in> set tr \<and> getReply zone r = Inr pz) \<or>
     (\<exists>r. (createRequest c zone, r) \<in> set tr \<and> createReply r = Inr pz \<and>
        (wantKind zone \<noteq> ZoneKindSecondary \<longrightarrow>
           (\<exists>r'. (patchRequest c zone (soaRRSet zone), r') \<in> set tr \<and> reply_2xx (respHttp r'))))"

lemma exec_seedSOA_cases:
  assumes "exec (seedSOA X zone c) tr x"
  obtains (seeded) r where "tr = [(patchRequest c zone (soaRRSet zone), r)]" "reply_2xx (respHttp r)" "x = Inr ()"
  | (rolled_back) r r' t e where
      "tr = (patchRequest c zone (soaRRSet zone), r) # (deleteRequest c zone, r') # t"
      "\<not> reply_2xx (respHttp r)" "\<forall>(q, r) \<in> set t. \<not> is_http q" "x = Inl e"
      "\<not> (reply_2xx (respHttp r') \<or> reply_404 (respHttp r')) \<and> Recorder X \<longrightarrow>
         (\<exists>r''. t = [(KEvent KZone (om_Namespace (zone_Meta zone), om_Name (zone_Meta zone))
           ''Warning'' ''SOASeedFailed'' (soaSeedFailedMsg (projl (patchReply zone r))), r'')])"
proof -
  from assms obtain r t where tr: "tr = (patchRequest c zone (soaRRSet zone), r) # t"
    and k: "exec (case patchReply zone r of
       Inr _ \<Rightarrow> Return (Inr ())
     | Inl e \<Rightarrow>
         andThen (DeleteZone c (zname zone)) (\<lambda>rd. case rd of
           Inl _ \<Rightarrow> andThen (zone_event X zone ''Warning'' ''SOASeedFailed'' (soaSeedFailedMsg e))
                      (\<lambda>_. Return (Inl (wrapErr ''seed SOA'' e)))
         | Inr _ \<Rightarrow> Return (Inl (wrapErr ''seed SOA (zone rolled back, will retry)'' e)))) t x"
    by (auto simp: seedSOA_def exec_Patch)
  show thesis
  proof (cases "patchReply zone r")
    case (Inr u)
    with k tr patchReply_ok [of zone r] show ?thesis by (auto intro: seeded)
  next
    case (Inl e)
    with k obtain r' t' where t: "t = (deleteRequest c zone, r') # t'"
      and k': "exec (case gone_ok (outcome ''DELETE'' (zonePath (zname zone)) noOut (respHttp r')) of
           Inl _ \<Rightarrow> andThen (zone_event X zone ''Warning'' ''SOASeedFailed'' (soaSeedFailedMsg e))
                      (\<lambda>_. Return (Inl (wrapErr ''seed SOA'' e)))
         | Inr _ \<Rightarrow> Return (Inl (wrapErr ''seed SOA (zone rolled back, will retry)'' e))) t' x"
      by (auto simp: delete_zone.exec_then deleteRequest_def)
    show ?thesis
    proof (cases "gone_ok (outcome ''DELETE'' (zonePath (zname zone)) noOut (respHttp r'))")
      case (Inr u)
      with k' gone_ok_iff [of "''DELETE''" "zonePath (zname zone)" "respHttp r'"]
      have "t' = []" "x = Inl (wrapErr ''seed SOA (zone rolled back, will retry)'' e)"
        "reply_2xx (respHttp r') \<or> reply_404 (respHttp r')" by auto
      with Inl t tr patchReply_ok [of zone r] show ?thesis by (intro rolled_back [of r r' t']) auto
    next
      case Inl': (Inl e')
      with k' have x: "x = Inl (wrapErr ''seed SOA'' e)"
        and ev: "exec (zone_event X zone ''Warning'' ''SOASeedFailed'' (soaSeedFailedMsg e)) t' ()"
        by (auto elim!: exec_andThenE)
      have "\<forall>(q, r) \<in> set t'. \<not> is_http q"
        using ev by (auto simp: zone_event_def dest!: exec_emitD)
      moreover have "Recorder X \<longrightarrow> (\<exists>r''. t' = [(KEvent KZone (om_Namespace (zone_Meta zone), om_Name (zone_Meta zone))
           ''Warning'' ''SOASeedFailed'' (soaSeedFailedMsg e), r'')])"
        using ev by (auto simp: zone_event_def emit_def)
      ultimately show ?thesis using Inl x t tr patchReply_ok [of zone r]
        by (intro rolled_back [of r r' t']) auto
    qed
  qed
qed

text \<open>How \<open>createZone\<close> can go.\<close>

lemma exec_createZone_cases:
  assumes "exec (createZone X zone c) tr x"
  obtains (refused) r e where "tr = [(createRequest c zone, r)]" "createReply r = Inl e" "x = Inl e"
  | (seed_failed) r pz t e where "tr = (createRequest c zone, r) # t" "createReply r = Inr pz"
      "wantKind zone \<noteq> ZoneKindSecondary" "exec (seedSOA X zone c) t (Inl e)" "x = Inl e"
  | (created) r pz t1 t2 where "tr = (createRequest c zone, r) # t1 @ t2" "createReply r = Inr pz" "x = Inr pz"
      "if wantKind zone \<noteq> ZoneKindSecondary then exec (seedSOA X zone c) t1 (Inr ()) else t1 = []"
      "\<forall>(q, r) \<in> set t2. \<not> is_http q \<and> \<not> is_kube_write q"
proof -
  from assms obtain r t where tr: "tr = (createRequest c zone, r) # t"
    and k: "exec (case createReply r of Inl e \<Rightarrow> Return (Inl e) | Inr created \<Rightarrow>
       tryIO (if wantKind zone \<noteq> ZoneKindSecondary then seedSOA X zone c else Return (Inr ()))
         (\<lambda>_. andThen (zone_event X zone ''Normal'' ''ZoneCreated'' (zoneCreatedMsg zone))
                (\<lambda>_. Return (Inr created)))) t x"
    by (auto simp: createZone_def tryIO_def [of "CreateZone c (newZone zone)"] exec_CreateZone)
  show thesis
  proof (cases "createReply r")
    case (Inl e)
    with k tr show ?thesis by (intro refused) auto
  next
    case (Inr pz)
    with k have "exec (tryIO (if wantKind zone \<noteq> ZoneKindSecondary then seedSOA X zone c else Return (Inr ()))
         (\<lambda>_. andThen (zone_event X zone ''Normal'' ''ZoneCreated'' (zoneCreatedMsg zone))
                (\<lambda>_. Return (Inr pz)))) t x" by simp
    then show ?thesis
    proof (cases rule: exec_tryIOE)
      case (fail e)
      with tr Inr show ?thesis by (intro seed_failed) (auto split: if_splits)
    next
      case (ok t1 u t2)
      from ok(3) have "x = Inr pz" "\<forall>(q, r) \<in> set t2. \<not> is_http q \<and> \<not> is_kube_write q"
        by (auto simp: zone_event_def elim!: exec_andThenE dest!: exec_emitD)
      with ok tr Inr show ?thesis by (intro created [of r t1 t2 pz]) (auto split: if_splits)
    qed
  qed
qed

lemma createZone_found:
  assumes "exec (createZone X zone c) tr (Inr pz)"
  shows "zone_found zone c pz tr"
  using assms
proof (cases rule: exec_createZone_cases)
  case (created r pz' t1 t2)
  have "\<exists>r'. (patchRequest c zone (soaRRSet zone), r') \<in> set t1 \<and> reply_2xx (respHttp r')"
    if "wantKind zone \<noteq> ZoneKindSecondary"
  proof -
    from created that have "exec (seedSOA X zone c) t1 (Inr ())" by simp
    then show ?thesis by (cases rule: exec_seedSOA_cases) auto
  qed
  with created show ?thesis by (auto simp: zone_found_def)
qed auto

lemma zone_lookup_cases:
  assumes "exec (zone_lookup X zone c) tr x"
  obtains (there) r where "tr = [(getRequest c zone, r)]" "x = getReply zone r" "\<not> is_err PdnsNotFound x"
  | (created) r t where "tr = (getRequest c zone, r) # t" "is_err PdnsNotFound (getReply zone r)"
      "exec (createZone X zone c) t x" "\<not> is_err PdnsAlreadyExists x"
  | (adopted) r t e r' where "tr = (getRequest c zone, r) # t @ [(getRequest c zone, r')]"
      "is_err PdnsNotFound (getReply zone r)" "exec (createZone X zone c) t (Inl e)"
      "err_kind e = PdnsAlreadyExists" "x = getReply zone r'"
proof -
  from assms obtain r t where tr: "tr = (getRequest c zone, r) # t"
    and k: "exec (if is_err PdnsNotFound (getReply zone r) then
          andThen (createZone X zone c) (\<lambda>rc.
            if is_err PdnsAlreadyExists rc then GetZone c (zname zone) else Return rc)
        else Return (getReply zone r)) t x"
    by (auto simp: zone_lookup_def Let_def exec_GetZone)
  show thesis
  proof (cases "is_err PdnsNotFound (getReply zone r)")
    case False
    with k tr show ?thesis by (intro there) auto
  next
    case True
    with k obtain t1 y t2 where t: "t = t1 @ t2" and cr: "exec (createZone X zone c) t1 y"
      and k': "exec (if is_err PdnsAlreadyExists y then GetZone c (zname zone) else Return y) t2 x"
      by (auto elim: exec_andThenE)
    show ?thesis
    proof (cases "is_err PdnsAlreadyExists y")
      case False
      with k' t tr cr True show ?thesis by (intro created) auto
    next
      case ex: True
      then obtain e where "y = Inl e" "err_kind e = PdnsAlreadyExists"
        by (auto simp: is_err_def split: sum.splits)
      with k' ex t tr cr True show ?thesis
        by (auto simp: get_zone.one_request getRequest_def getReply_def intro: adopted)
    qed
  qed
qed

lemma zone_lookup_found:
  assumes "exec (zone_lookup X zone c) tr (Inr pz)"
  shows "zone_found zone c pz tr"
  using assms
proof (cases rule: zone_lookup_cases)
  case (there r)
  then show ?thesis by (auto simp: zone_found_def)
next
  case (created r t)
  from createZone_found [OF created(3)] created(1) show ?thesis by (auto simp: zone_found_def)
next
  case (adopted r t e r')
  then show ?thesis by (auto simp: zone_found_def)
qed

subsection \<open>DNSSEC\<close>

lemma activeDS_concat: "activeDS keys = concat (map ck_DS (filter ck_Active keys))"
  by (induction keys) auto

definition keyAccepted :: "Client \<Rightarrow> Zone \<Rightarrow> Cryptokey \<Rightarrow> event list \<Rightarrow> bool" where
  "keyAccepted c zone k tr \<longleftrightarrow> (\<exists>r. (setKeyRequest c zone k, r) \<in> set tr \<and> reply_2xx (respHttp r))"

text \<open>
  The key state a successful \<open>ensureDNSSEC\<close> leaves behind.  Disabled: every key the server
  listed as active has been stored as inactive.  Enabled: the DS records are those of the
  active keys the server listed last; if it listed no active key at first, the first key was
  reactivated, or (there being none) a new one created, and the zone rectified.
\<close>

inductive dnssec_done :: "Zone \<Rightarrow> Client \<Rightarrow> string list \<Rightarrow> event list \<Rightarrow> bool" for zone c ds tr where
  disabled: "\<not> zs_DNSSEC_Enabled (zone_Spec zone) \<Longrightarrow> ds = [] \<Longrightarrow>
    (listKeysRequest c zone, r) \<in> set tr \<Longrightarrow> listKeysReply zone r = Inr keys \<Longrightarrow>
    (\<forall>k \<in> set keys. ck_Active k \<longrightarrow> keyAccepted c zone (k\<lparr>ck_Active := False\<rparr>) tr) \<Longrightarrow>
    dnssec_done zone c ds tr"
| signed: "zs_DNSSEC_Enabled (zone_Spec zone) \<Longrightarrow>
    (listKeysRequest c zone, r) \<in> set tr \<Longrightarrow> listKeysReply zone r = Inr keys \<Longrightarrow>
    list_ex ck_Active keys \<Longrightarrow> ds = concat (map ck_DS (filter ck_Active keys)) \<Longrightarrow>
    dnssec_done zone c ds tr"
| activated: "zs_DNSSEC_Enabled (zone_Spec zone) \<Longrightarrow>
    (listKeysRequest c zone, r) \<in> set tr \<Longrightarrow> listKeysReply zone r = Inr keys \<Longrightarrow>
    \<not> list_ex ck_Active keys \<Longrightarrow>
    (case keys of
       k # _ \<Rightarrow> keyAccepted c zone (k\<lparr>ck_Active := True\<rparr>) tr
     | [] \<Rightarrow> (\<exists>r'. (newKeyRequest c zone, r') \<in> set tr \<and> reply_2xx (respHttp r'))) \<Longrightarrow>
    (rectifyRequest c zone, r1) \<in> set tr \<Longrightarrow> reply_2xx (respHttp r1) \<Longrightarrow>
    (listKeysRequest c zone, r2) \<in> set tr \<Longrightarrow> listKeysReply zone r2 = Inr keys' \<Longrightarrow>
    ds = concat (map ck_DS (filter ck_Active keys')) \<Longrightarrow> dnssec_done zone c ds tr"

lemma keyAccepted_mono: "keyAccepted c zone k t \<Longrightarrow> set t \<subseteq> set tr \<Longrightarrow> keyAccepted c zone k tr"
  by (auto simp: keyAccepted_def)

lemma dnssec_done_mono:
  assumes "dnssec_done zone c ds t" "set t \<subseteq> set tr"
  shows "dnssec_done zone c ds tr"
  using assms
proof (induction rule: dnssec_done.induct)
  case (disabled r keys)
  then show ?case by (intro dnssec_done.disabled [of zone ds c r tr keys]) (auto intro: keyAccepted_mono)
next
  case (signed r keys)
  then show ?case by (intro dnssec_done.signed [of zone c r tr keys]) auto
next
  case (activated r keys r1 r2 keys')
  then have "case keys of
       k # _ \<Rightarrow> keyAccepted c zone (k\<lparr>ck_Active := True\<rparr>) tr
     | [] \<Rightarrow> (\<exists>r'. (newKeyRequest c zone, r') \<in> set tr \<and> reply_2xx (respHttp r'))"
    by (cases keys) (auto intro: keyAccepted_mono)
  with activated show ?case by (intro dnssec_done.activated [of zone c r tr keys r1 r2 keys']) auto
qed

lemma dnssec_done_spec_only:
  assumes "dnssec_done z' c ds tr" "zone_Spec z' = zone_Spec zone"
  shows "dnssec_done zone c ds tr"
proof -
  have reply: "listKeysReply z' = listKeysReply zone" "keyAccepted c z' = keyAccepted c zone"
    using zone_spec_only [OF assms(2)] assms(2) by (auto simp: listKeysReply_def keyAccepted_def fun_eq_iff)
  note eq = reply zone_spec_only [OF assms(2)] assms(2)
  from assms(1) show ?thesis
  proof (induction rule: dnssec_done.induct)
    case (disabled r keys)
    then show ?case unfolding eq by (rule dnssec_done.disabled)
  next
    case (signed r keys)
    then show ?case unfolding eq by (rule dnssec_done.signed)
  next
    case (activated r keys r1 r2 keys')
    then show ?case unfolding eq by (rule dnssec_done.activated)
  qed
qed

lemma deactivateKeys_ok:
  assumes "exec (deactivateKeys c (zname zone) keys) tr (Inr u)" "k \<in> set keys" "ck_Active k"
  shows "keyAccepted c zone (k\<lparr>ck_Active := False\<rparr>) tr"
  using assms
proof (induction keys arbitrary: tr)
  case (Cons k' keys)
  show ?case
  proof (cases "ck_Active k'")
    case False
    with Cons show ?thesis by auto
  next
    case True
    with Cons.prems(1) obtain r t where "tr = (setKeyRequest c zone (k'\<lparr>ck_Active := False\<rparr>), r) # t"
      "reply_2xx (respHttp r)" "exec (deactivateKeys c (zname zone) keys) t (Inr u)"
      by (auto simp: exec_tryIO_iff exec_UpdateCryptokey)
    with Cons.IH [of t] Cons.prems(2,3) show ?thesis by (auto simp: keyAccepted_def)
  qed
qed simp

lemma exec_CreateCryptokey_ok:
  assumes "exec (CreateCryptokey c (zname zone) (zeroCryptokey\<lparr>ck_KeyType := ''csk'', ck_Active := True\<rparr>)) tr (Inr k)"
  shows "\<exists>r. tr = [(newKeyRequest c zone, r)] \<and> reply_2xx (respHttp r)"
proof -
  from assms obtain r where tr: "tr = [(newKeyRequest c zone, r)]" and
    o: "outcome ''POST'' (zonePath (zname zone) @ ''/cryptokeys'') (into decode_Cryptokey) (respHttp r) = Inr k"
    by (auto simp: create_cryptokey.one_request newKeyRequest_def)
  have "err_kind e = OtherError" if "into decode_Cryptokey js = Inl e" for js e
    using into_err [OF decode_Cryptokey_err that] .
  from outcome_classified(4) [of "into decode_Cryptokey", OF this] o tr show ?thesis by auto
qed

lemma activateKey_ok:
  assumes "exec (activateKey c (zname zone) keys) tr (Inr u)"
  shows "(case keys of
            k # _ \<Rightarrow> keyAccepted c zone (k\<lparr>ck_Active := True\<rparr>) tr
          | [] \<Rightarrow> (\<exists>r'. (newKeyRequest c zone, r') \<in> set tr \<and> reply_2xx (respHttp r'))) \<and>
    (\<exists>r'. (rectifyRequest c zone, r') \<in> set tr \<and> reply_2xx (respHttp r'))"
proof -
  from assms obtain t1 t2 v where tr: "tr = t1 @ t2"
    and a: "exec (case keys of
              k # _ \<Rightarrow> UpdateCryptokey c (zname zone) (k\<lparr>ck_Active := True\<rparr>)
            | [] \<Rightarrow> tryIO (CreateCryptokey c (zname zone) (zeroCryptokey\<lparr>ck_KeyType := ''csk'', ck_Active := True\<rparr>))
                      (\<lambda>_. Return (Inr ()))) t1 (Inr v)"
    and b: "exec (RectifyZone c (zname zone)) t2 (Inr u)"
    by (auto simp: activateKey_def exec_tryIO_iff)
  from b have "\<exists>r'. (rectifyRequest c zone, r') \<in> set tr \<and> reply_2xx (respHttp r')"
    using tr by (auto simp: exec_RectifyZone)
  moreover have "case keys of
            k # _ \<Rightarrow> keyAccepted c zone (k\<lparr>ck_Active := True\<rparr>) tr
          | [] \<Rightarrow> (\<exists>r'. (newKeyRequest c zone, r') \<in> set tr \<and> reply_2xx (respHttp r'))"
    using a tr by (cases keys)
      (auto simp: exec_tryIO_iff exec_UpdateCryptokey keyAccepted_def
        dest!: exec_CreateCryptokey_ok)
  ultimately show ?thesis by blast
qed

lemma ensureDNSSEC_done:
  assumes "exec (ensureDNSSEC zone c) tr (Inr ds)"
  shows "dnssec_done zone c ds tr"
proof -
  from assms obtain r keys t where tr: "tr = (listKeysRequest c zone, r) # t"
    and keys: "listKeysReply zone r = Inr keys"
    and k: "exec (if \<not> zs_DNSSEC_Enabled (zone_Spec zone) then
          tryIO (deactivateKeys c (zname zone) keys) (\<lambda>_. Return (Inr []))
        else if \<not> list_ex ck_Active keys then
          tryIO (activateKey c (zname zone) keys) (\<lambda>_.
            tryIO (ListCryptokeys c (zname zone)) (\<lambda>keys'. Return (Inr (activeDS keys'))))
        else Return (Inr (activeDS keys))) t (Inr ds)"
    by (auto simp: ensureDNSSEC_def Let_def exec_tryIO_iff [of "ListCryptokeys c (zname zone)"]
        exec_ListCryptokeys)
  consider "\<not> zs_DNSSEC_Enabled (zone_Spec zone)"
    | "zs_DNSSEC_Enabled (zone_Spec zone)" "list_ex ck_Active keys"
    | "zs_DNSSEC_Enabled (zone_Spec zone)" "\<not> list_ex ck_Active keys" by blast
  then show ?thesis
  proof cases
    case 1
    with k have "ds = []" "exec (deactivateKeys c (zname zone) keys) t (Inr ())"
      by (auto simp: exec_tryIO_iff)
    with 1 tr keys deactivateKeys_ok [of c zone keys t] show ?thesis
      by (intro dnssec_done.disabled [of zone ds c r tr keys]) (auto simp: keyAccepted_def)
  next
    case 2
    with k tr keys show ?thesis
      by (intro dnssec_done.signed [of zone c r tr keys]) (auto simp: activeDS_concat)
  next
    case 3
    with k obtain t1 u r' keys' where t: "t = t1 @ [(listKeysRequest c zone, r')]"
      and a: "exec (activateKey c (zname zone) keys) t1 (Inr u)"
      and l: "listKeysReply zone r' = Inr keys'" "ds = activeDS keys'"
      by (auto simp: exec_tryIO_iff exec_ListCryptokeys)
    from activateKey_ok [OF a] obtain r1 where r1: "(rectifyRequest c zone, r1) \<in> set t1" "reply_2xx (respHttp r1)"
      by blast
    from activateKey_ok [OF a] t tr have "case keys of
            k # _ \<Rightarrow> keyAccepted c zone (k\<lparr>ck_Active := True\<rparr>) tr
          | [] \<Rightarrow> (\<exists>r'. (newKeyRequest c zone, r') \<in> set tr \<and> reply_2xx (respHttp r'))"
      by (cases keys) (auto intro: keyAccepted_mono)
    with 3 t tr keys l r1 show ?thesis
      by (intro dnssec_done.activated [of zone c r tr keys r1 r' keys']) (auto simp: activeDS_concat)
  qed
qed

section \<open>A pass over a live zone\<close>

text \<open>No HTTP request, and no status written but one that is not Ready.\<close>

definition zone_idle :: "event list \<Rightarrow> bool" where
  "zone_idle tr \<longleftrightarrow> (\<forall>(q, r) \<in> set tr. \<not> is_http q \<and>
     (is_kube_write q \<longrightarrow> (\<exists>z. q = KStatusUpdate (ObjZone z) \<and> zst_Phase (zone_Status z) \<noteq> ZonePhaseReady)))"

lemma zone_idle_simps [simp]:
  "zone_idle []" "zone_idle ((KGet k n, r) # tr) \<longleftrightarrow> zone_idle tr"
  "zone_idle (t1 @ t2) \<longleftrightarrow> zone_idle t1 \<and> zone_idle t2"
  by (auto simp: zone_idle_def)

lemma zone_markNotReady_idle:
  "exec (zone_markNotReady X zone reason msg after) tr res \<Longrightarrow> zone_idle tr"
  by (auto simp: zone_markNotReady_def exec_tryIO_iff zone_idle_def zone_phase_defs)

lemma zone_markFailed_idle: "exec (zone_markFailed X zone msg) tr res \<Longrightarrow> zone_idle tr"
  by (auto simp: zone_markFailed_def exec_tryIO_iff zone_idle_def zone_phase_defs zone_event_def
      elim!: exec_andThenE dest!: exec_emitD)

definition zone_reported :: "Zone \<Rightarrow> PdnsZone \<Rightarrow> string list \<Rightarrow> Zone \<Rightarrow> bool" where
  "zone_reported zone pz ds z \<longleftrightarrow> zone_Spec z = zone_Spec zone \<and> zone_Meta z = zone_Meta zone \<and>
     zst_DSRecords (zone_Status z) = ds \<and> zst_Serial (zone_Status z) = pz_Serial pz \<and>
     zst_ObservedGeneration (zone_Status z) = om_Generation (zone_Meta zone)"

lemma exec_zone_finish:
  assumes "exec (zone_finish X zone pz ds) tr res"
  obtains z r where "tr = [(KStatusUpdate (ObjZone z), r)]" "zone_reported zone pz ds z"
proof -
  from assms obtain z r where "tr = [(KStatusUpdate (ObjZone z), r)]" "zone_reported zone pz ds z"
    by (auto simp: zone_finish_def Let_def exec_tryIO_iff zone_reported_def)
  then show thesis by (rule that)
qed

lemma zone_server_cases:
  assumes "exec (zone_body X zone) tr res"
  obtains (held) "zone_idle tr"
  | (served) server sec c t where "client_of server sec c" "exec (reconcileZone X zone c) t res"
      "tr = (KGet KServer (serverKeyFor zone), RObj (ObjServer server)) #
         (secretRequest server, RObj (ObjSecret sec)) # t"
      "namespaceAllowed server (om_Namespace (zone_Meta zone))" "pst_Phase (srv_Status server) = PhaseReady"
      "\<not> (zs_Kind (zone_Spec zone) = ZoneKindSecondary \<and> zs_DNSSEC_Enabled (zone_Spec zone))"
proof (cases "zs_Kind (zone_Spec zone) = ZoneKindSecondary \<and> zs_DNSSEC_Enabled (zone_Spec zone)")
  case True
  with assms held show ?thesis by (auto simp: zone_body_def dest: zone_markFailed_idle)
next
  case False
  with assms obtain r t where tr: "tr = (KGet KServer (serverKeyFor zone), r) # t"
    and k: "exec (case respServer r of
          Inl e \<Rightarrow>
            if err_kind e = KubeNotFound then
              zone_markNotReady X zone ''ServerNotFound''
                (''PowerDNSServer '' @ showKey (serverKeyFor zone) @ '' not found'') requeueLong
            else Return (Inl e)
        | Inr server \<Rightarrow> zone_withServer X zone server) t res"
    by (auto simp: zone_body_def exec_Call_iff)
  show ?thesis
  proof (cases "respServer r")
    case (Inl e)
    with k tr show ?thesis by (intro held) (auto split: if_splits dest: zone_markNotReady_idle)
  next
    case (Inr server)
    show ?thesis
    proof (cases "namespaceAllowed server (om_Namespace (zone_Meta zone)) \<and>
        pst_Phase (srv_Status server) = PhaseReady")
      case False
      with k Inr tr show ?thesis
        by (intro held) (auto simp: zone_withServer_def split: if_splits dest: zone_markNotReady_idle)
    next
      case True
      with k Inr have "exec (andThen (pdnsClientFor server) (\<lambda>rc. case rc of
          Inl e \<Rightarrow> zone_markNotReady X zone ''APIUnreachable'' (err_msg e) requeueLong
        | Inr pc \<Rightarrow> reconcileZone X zone pc)) t res" by (simp add: zone_withServer_def)
      then show ?thesis
      proof (cases rule: client_cases)
        case (fail e t1 t2)
        have "zone_idle t1" using fail(3) by (auto simp: zone_idle_def secretRequest_def)
        with fail tr show ?thesis by (intro held) (auto dest: zone_markNotReady_idle)
      next
        case (ok sec c t')
        with True \<open>\<not> (_ \<and> _)\<close> Inr tr show ?thesis by (intro served) (auto simp: respServer_Inr)
      qed
    qed
  qed
qed

text \<open>The steps after the lookup, up to the status that reports Ready.\<close>

lemma zone_idle_not_ready:
  "zone_idle tr \<Longrightarrow> (KStatusUpdate (ObjZone z), r) \<in> set tr \<Longrightarrow> zst_Phase (zone_Status z) \<noteq> ZonePhaseReady"
  by (auto simp: zone_idle_def)

lemma calls_deactivateKeys [calls_intros]:
  "(\<And>k. P (HttpDo (mkRequest c ''PUT'' (zonePath zn @ ''/cryptokeys/'' @ itoa (ck_ID k))
      (Some (marshal_Cryptokey (k\<lparr>ck_Active := False\<rparr>)))))) \<Longrightarrow> calls_only P (deactivateKeys c zn ks)"
  by (induction ks) (auto intro!: calls_intros update_cryptokey.calls)

lemmas http_op_calls = get_zone.calls create_zone.calls update_zone.calls delete_zone.calls
  patch_rrsets.calls list_cryptokeys.calls create_cryptokey.calls update_cryptokey.calls rectify_zone.calls

lemma dnssec_no_write: "calls_only (\<lambda>q. \<not> is_kube_write q) (ensureDNSSEC zone c)"
  unfolding ensureDNSSEC_def activateKey_def
  by (intro calls_intros http_op_calls | simp split: list.splits add: calls_intros http_op_calls)+

lemma lookup_no_write: "calls_only (\<lambda>q. \<not> is_kube_write q) (zone_lookup X zone c)"
  unfolding zone_lookup_def createZone_def seedSOA_def zone_event_def
  by (intro calls_intros http_op_calls | simp)+

lemma no_write_no_status:
  "exec p tr x \<Longrightarrow> calls_only (\<lambda>q. \<not> is_kube_write q) p \<Longrightarrow> (KStatusUpdate z, r) \<notin> set tr"
  by (auto dest: calls_only_exec)

lemma zone_dnssec_ready:
  assumes "exec (zone_dnssec X zone c pz) tr res"
    and "(KStatusUpdate (ObjZone z), r0) \<in> set tr" "zst_Phase (zone_Status z) = ZonePhaseReady"
  shows "dnssec_done zone c (zst_DSRecords (zone_Status z)) tr \<and>
    zone_reported zone pz (zst_DSRecords (zone_Status z)) z"
proof -
  from assms(1) [unfolded zone_dnssec_def] obtain t1 y t2 where tr: "tr = t1 @ t2"
    and d: "exec (ensureDNSSEC zone c) t1 y"
    and k: "exec (case y of
       Inl e \<Rightarrow> zone_markNotReady X
                  (zone_setCond X zone ConditionDNSSECReady ''False'' (apiReason e) (err_msg e))
                  (apiReason e) (err_msg e) requeueLong
     | Inr ds \<Rightarrow> zone_finish X zone pz ds) t2 res" by (rule exec_andThenE)
  from no_write_no_status [OF d dnssec_no_write] assms(2) tr
  have z: "(KStatusUpdate (ObjZone z), r0) \<in> set t2" by auto
  show ?thesis
  proof (cases y)
    case (Inl e)
    with k z assms(3) show ?thesis by (auto dest!: zone_markNotReady_idle zone_idle_not_ready)
  next
    case (Inr ds)
    with k have "exec (zone_finish X zone pz ds) t2 res" by simp
    then obtain z' r where "t2 = [(KStatusUpdate (ObjZone z'), r)]" "zone_reported zone pz ds z'"
      by (rule exec_zone_finish)
    with z have "zone_reported zone pz ds z" by simp
    moreover from ensureDNSSEC_done [of zone c t1 ds] d Inr tr have "dnssec_done zone c ds tr"
      by (auto intro: dnssec_done_mono)
    ultimately show ?thesis by (auto simp: zone_reported_def)
  qed
qed

lemma zone_registered_ready:
  assumes "exec (zone_registered X zone c pz) tr res"
    and "(KStatusUpdate (ObjZone z), r0) \<in> set tr" "zst_Phase (zone_Status z) = ZonePhaseReady"
  shows "(zone_drifted zone pz \<longrightarrow> (\<exists>r. (metaRequest c zone, r) \<in> set tr \<and> reply_2xx (respHttp r))) \<and>
    dnssec_done zone c (zst_DSRecords (zone_Status z)) tr \<and>
    zone_reported zone pz (zst_DSRecords (zone_Status z)) z"
proof -
  from assms(1) [unfolded zone_registered_def] obtain t1 y t2 where tr: "tr = t1 @ t2"
    and u: "exec (if zone_drifted zone pz
              then UpdateZone c (zname zone)
                     \<lparr>zu_Kind = wantKind zone, zu_Masters = zs_Masters (zone_Spec zone)\<rparr>
              else Return (Inr ())) t1 y"
    and k: "exec (case y of
       Inl e \<Rightarrow> zone_markNotReady X zone (apiReason e) (err_msg e) requeueLong
     | Inr _ \<Rightarrow> zone_dnssec X zone c pz) t2 res" by (rule exec_andThenE)
  from u have m: "if zone_drifted zone pz then (\<exists>r. t1 = [(metaRequest c zone, r)] \<and>
      unitReply ''PUT'' (zonePath (zname zone)) r = y) else t1 = [] \<and> y = Inr ()"
    by (auto simp: exec_UpdateZone)
  then have z: "(KStatusUpdate (ObjZone z), r0) \<in> set t2"
    using assms(2) tr by (auto simp: metaRequest_def split: if_splits)
  show ?thesis
  proof (cases y)
    case (Inl e)
    with k z assms(3) show ?thesis by (auto dest!: zone_markNotReady_idle zone_idle_not_ready)
  next
    case (Inr u)
    with k have "exec (zone_dnssec X zone c pz) t2 res" by simp
    from zone_dnssec_ready [OF this z assms(3)] m Inr tr show ?thesis
      by (auto intro: dnssec_done_mono split: if_splits)
  qed
qed

lemma reconcileZone_ready:
  assumes "exec (reconcileZone X zone c) tr res"
    and "(KStatusUpdate (ObjZone z), r0) \<in> set tr" "zst_Phase (zone_Status z) = ZonePhaseReady"
  shows "\<exists>pz. zone_found zone c pz tr \<and>
    (zone_drifted zone pz \<longrightarrow> (\<exists>r. (metaRequest c zone, r) \<in> set tr \<and> reply_2xx (respHttp r))) \<and>
    dnssec_done zone c (zst_DSRecords (zone_Status z)) tr \<and>
    zone_reported zone pz (zst_DSRecords (zone_Status z)) z"
proof -
  let ?z = "zone_setCond X zone ConditionRegistered ''True'' ''ZoneExists'' ''zone registered in PowerDNS''"
  from assms(1) [unfolded reconcileZone_def] obtain t1 y t2 where tr: "tr = t1 @ t2"
    and l: "exec (zone_lookup X zone c) t1 y"
    and k: "exec (case y of
       Inl e \<Rightarrow> zone_markNotReady X
                  (zone_setCond X zone ConditionRegistered ''False'' (apiReason e) (err_msg e))
                  (apiReason e) (err_msg e) requeueLong
     | Inr pz \<Rightarrow> zone_registered X ?z c pz) t2 res" by (rule exec_andThenE)
  from no_write_no_status [OF l lookup_no_write] assms(2) tr
  have z: "(KStatusUpdate (ObjZone z), r0) \<in> set t2" by auto
  show ?thesis
  proof (cases y)
    case (Inl e)
    with k z assms(3) show ?thesis by (auto dest!: zone_markNotReady_idle zone_idle_not_ready)
  next
    case (Inr pz)
    with k have "exec (zone_registered X ?z c pz) t2 res" by simp
    note ready = zone_registered_ready [OF this z assms(3)]
    from zone_lookup_found [of X zone c t1 pz] l Inr tr have "zone_found zone c pz tr"
      by (auto simp: zone_found_def)
    moreover have "dnssec_done zone c (zst_DSRecords (zone_Status z)) tr"
      by (rule dnssec_done_mono [OF dnssec_done_spec_only [of ?z c _ t2]]) (use ready tr in simp_all)
    moreover from ready have "zone_reported zone pz (zst_DSRecords (zone_Status z)) z"
      "zone_drifted zone pz \<longrightarrow> (\<exists>r. (metaRequest c zone, r) \<in> set tr \<and> reply_2xx (respHttp r))"
      using tr by (auto simp: zone_reported_def zone_spec_only [of ?z zone])
    ultimately show ?thesis by blast
  qed
qed



section \<open>Safety of the requests\<close>

text \<open>The requests a pass over a live zone may send.\<close>

inductive zone_request :: "Zone \<Rightarrow> Client \<Rightarrow> req \<Rightarrow> bool" for zone c where
  "zone_request zone c (getRequest c zone)"
| "zone_request zone c (createRequest c zone)"
| "zone_request zone c (patchRequest c zone (soaRRSet zone))"
| "zone_request zone c (deleteRequest c zone)"
| "zone_request zone c (metaRequest c zone)"
| "zone_request zone c (listKeysRequest c zone)"
| "\<not> zs_DNSSEC_Enabled (zone_Spec zone) \<Longrightarrow> zone_request zone c (setKeyRequest c zone (k\<lparr>ck_Active := False\<rparr>))"
| "zs_DNSSEC_Enabled (zone_Spec zone) \<Longrightarrow> zone_request zone c (setKeyRequest c zone (k\<lparr>ck_Active := True\<rparr>))"
| "zs_DNSSEC_Enabled (zone_Spec zone) \<Longrightarrow> zone_request zone c (newKeyRequest c zone)"
| "zs_DNSSEC_Enabled (zone_Spec zone) \<Longrightarrow> zone_request zone c (rectifyRequest c zone)"

definition zone_call :: "Zone \<Rightarrow> Client \<Rightarrow> req \<Rightarrow> bool" where
  "zone_call zone c q \<longleftrightarrow> (is_http q \<longrightarrow> zone_request zone c q)"

lemma zone_call_kube [simp]:
  "zone_call zone c (KStatusUpdate x)" "zone_call zone c (KEvent k n a b d)"
  by (simp_all add: zone_call_def)

lemma zone_call_http [simp]:
  "zone_call zone c (HttpDo (mkRequest c ''GET'' (zonePath (zname zone)) None))"
  "zone_call zone c (HttpDo (mkRequest c ''POST'' zonesPath (Some (marshal_Zone (newZone zone)))))"
  "zone_call zone c (HttpDo (mkRequest c ''PATCH'' (zonePath (zname zone)) (Some (marshal_RRSets [soaRRSet zone]))))"
  "zone_call zone c (HttpDo (mkRequest c ''DELETE'' (zonePath (zname zone)) None))"
  "zone_call zone c (HttpDo (mkRequest c ''GET'' (zonePath (zname zone) @ ''/cryptokeys'') None))"
  "\<not> zs_DNSSEC_Enabled (zone_Spec zone) \<Longrightarrow>
   zone_call zone c (HttpDo (mkRequest c ''PUT'' (zonePath (zname zone) @ ''/cryptokeys/'' @ itoa (ck_ID k))
      (Some (marshal_Cryptokey (k\<lparr>ck_Active := False\<rparr>)))))"
  "zs_DNSSEC_Enabled (zone_Spec zone) \<Longrightarrow>
   zone_call zone c (HttpDo (mkRequest c ''PUT'' (zonePath (zname zone) @ ''/cryptokeys/'' @ itoa (ck_ID k))
      (Some (marshal_Cryptokey (k\<lparr>ck_Active := True\<rparr>)))))"
  "zs_DNSSEC_Enabled (zone_Spec zone) \<Longrightarrow>
   zone_call zone c (HttpDo (mkRequest c ''POST'' (zonePath (zname zone) @ ''/cryptokeys'')
      (Some (marshal_Cryptokey (zeroCryptokey\<lparr>ck_KeyType := ''csk'', ck_Active := True\<rparr>)))))"
  "zs_DNSSEC_Enabled (zone_Spec zone) \<Longrightarrow>
   zone_call zone c (HttpDo (mkRequest c ''PUT'' (zonePath (zname zone) @ ''/rectify'') None))"
  using zone_request.intros [of zone c] by (simp_all add: zone_call_def zone_request_defs)

lemma zone_call_meta [simp]:
  assumes "u = \<lparr>zu_Kind = wantKind zone, zu_Masters = zs_Masters (zone_Spec zone)\<rparr>"
  shows "zone_call zone c (HttpDo (mkRequest c ''PUT'' (zonePath (zname zone))
     (Some (marshal_ZoneUpdate (if zu_Masters u = None then u\<lparr>zu_Masters := Some []\<rparr> else u)))))"
  using zone_request.intros(5) [of zone c] assms
  by (cases "zs_Masters (zone_Spec zone)") (simp_all add: zone_call_def metaRequest_def)

lemma zone_call_create [simp]:
  "zone_call zone c (HttpDo (mkRequest c ''POST'' zonesPath (Some (marshal_Zone
     (if pz_Nameservers (newZone zone) = None then newZone zone\<lparr>pz_Nameservers := Some []\<rparr>
      else newZone zone)))))"
  using newZone_nameservers [of zone] zone_call_http(2) [of zone c] by auto

lemma calls_zone_lookup: "calls_only (zone_call zone c) (zone_lookup X zone c)"
  unfolding zone_lookup_def createZone_def seedSOA_def zone_event_def
  by (intro calls_intros http_op_calls | simp only: zone_call_http zone_call_kube zone_call_create Let_def)+

lemma calls_zone_finish [calls_intros]: "(\<And>x. P (KStatusUpdate x)) \<Longrightarrow> calls_only P (zone_finish X zone pz ds)"
  by (simp add: zone_finish_def Let_def calls_intros)

lemma calls_zone_markNotReady [calls_intros]:
  "(\<And>x. P (KStatusUpdate x)) \<Longrightarrow> calls_only P (zone_markNotReady X zone reason msg after)"
  by (simp add: zone_markNotReady_def calls_intros)

lemma calls_ensureDNSSEC: "calls_only (zone_call zone c) (ensureDNSSEC zone c)"
proof -
  have "calls_only (zone_call zone c) (activateKey c (zname zone) keys)"
    if "zs_DNSSEC_Enabled (zone_Spec zone)" for keys
  proof (cases keys)
    case Nil
    show ?thesis unfolding activateKey_def Nil list.case
      by (intro calls_intros http_op_calls zone_call_http that)
  next
    case (Cons k ks)
    have "calls_only (zone_call zone c) (UpdateCryptokey c (zname zone) (k\<lparr>ck_Active := True\<rparr>))"
      by (rule update_cryptokey.calls) (use zone_call_http(7) [OF that, of c k] in simp)
    then show ?thesis unfolding activateKey_def Cons list.case
      by (intro calls_intros rectify_zone.calls zone_call_http that)
  qed
  moreover have "calls_only (zone_call zone c) (deactivateKeys c (zname zone) keys)"
    if "\<not> zs_DNSSEC_Enabled (zone_Spec zone)" for keys
    by (intro calls_intros zone_call_http that)
  ultimately show ?thesis unfolding ensureDNSSEC_def Let_def
    by (intro calls_intros http_op_calls zone_call_http) auto
qed

lemma calls_zone_registered:
  assumes "zone_Spec z = zone_Spec zone"
  shows "calls_only (zone_call zone c) (zone_registered X z c pz)"
proof -
  have "calls_only (zone_call zone c) (UpdateZone c (zname zone)
     \<lparr>zu_Kind = wantKind zone, zu_Masters = zs_Masters (zone_Spec zone)\<rparr>)"
    by (rule update_zone.calls, rule zone_call_meta) (rule refl)
  then show ?thesis
    unfolding zone_registered_def zone_dnssec_def zone_spec_only [OF assms] assms
    by (intro calls_intros calls_ensureDNSSEC zone_call_kube)
qed

lemma calls_reconcileZone: "calls_only (zone_call zone c) (reconcileZone X zone c)"
  unfolding reconcileZone_def
  by (intro calls_intros calls_zone_lookup calls_zone_registered) simp_all

text \<open>
  C13: The Zone reconciler touches nothing but its zone, and only where it may.  If a pass over
  a live Zone sends an HTTP request, the server it read allowed the Zone's namespace and was
  Ready, the client has the server's published endpoint and the key of its Secret, and the
  request is one of: read or create the zone, write its SOA, roll it back, write its kind and
  masters, list its keys, and, with DNSSEC disabled, store a key as inactive, or, with DNSSEC
  enabled, store a key as active, create a key, rectify.  So no key is ever deleted, no record
  set but the SOA is ever written, and no other zone is ever addressed.
\<close>

theorem zone_requests_confined:
  assumes "exec (zone_Reconcile X key) ((KGet KZone key, RObj (ObjZone zone)) # tr) res"
    and "\<not> om_Deleting (zone_Meta zone)" and "(HttpDo h, hr) \<in> set tr"
  shows "\<exists>server sec c t.
    tr = (KGet KServer (serverKeyFor zone), RObj (ObjServer server)) #
      (secretRequest server, RObj (ObjSecret sec)) # t \<and>
    namespaceAllowed server (om_Namespace (zone_Meta zone)) \<and> pst_Phase (srv_Status server) = PhaseReady \<and>
    client_of server sec c \<and> zone_request zone c (HttpDo h)"
proof (cases "ContainsFinalizer X (om_Finalizers (zone_Meta zone)) zoneFinalizer")
  case False
  from zone_protocol.unprotected_pass [OF assms(1), of zone] assms(2,3) False show ?thesis by auto
next
  case True
  from zone_protocol.body_pass [OF assms(1), of zone] assms(2) True
  have "exec (zone_body X zone) tr res" by simp
  then show ?thesis
  proof (cases rule: zone_server_cases)
    case held
    with assms(3) show ?thesis by (auto simp: zone_idle_def)
  next
    case (served server sec c t)
    then have "(HttpDo h, hr) \<in> set t" using assms(3) by (auto simp: secretRequest_def)
    from calls_only_exec [OF served(2) calls_reconcileZone this]
    have "zone_request zone c (HttpDo h)" by (simp add: zone_call_def)
    with served show ?thesis by blast
  qed
qed

theorem zone_requests_confined_witness:
  "\<exists>server c. namespaceAllowed server ''dns'' \<and> zone_request liveZone c (fst (readyTrace ! 4))"
proof -
  obtain res where pass: "exec (zone_Reconcile refExt zoneKey)
      ((KGet KZone zoneKey, RObj (ObjZone liveZone)) # readyTrace) res"
    using ready_pass by blast
  define h where "h = (case fst (readyTrace ! 4) of HttpDo h \<Rightarrow> h)"
  have h: "fst (readyTrace ! 4) = HttpDo h" "4 < length readyTrace"
    and live: "\<not> om_Deleting (zone_Meta liveZone)" "om_Namespace (zone_Meta liveZone) = ''dns''"
    unfolding h_def by code_simp+
  then have "(HttpDo h, snd (readyTrace ! 4)) \<in> set readyTrace" by (metis nth_mem prod.collapse)
  from zone_requests_confined [OF pass live(1) this] live(2) h show ?thesis by auto
qed

section \<open>Creation and rollback\<close>

definition is_create :: "req \<Rightarrow> bool" where
  "is_create q \<longleftrightarrow> (\<exists>c zone. q = createRequest c zone)"

definition is_delete :: "req \<Rightarrow> bool" where
  "is_delete q \<longleftrightarrow> (case q of HttpDo h \<Rightarrow> hq_Method h = ''DELETE'' | _ \<Rightarrow> False)"

lemma is_delete_simps [simp]:
  "is_delete (HttpDo (mkRequest c m p b)) \<longleftrightarrow> m = ''DELETE''"
  "\<not> is_delete (KStatusUpdate x)" "\<not> is_delete (KEvent k n a b' d)" "\<not> is_delete (KGet k' n')"
  by (simp_all add: is_delete_def mkRequest_def)

lemma is_create_simps [simp]:
  "m \<noteq> ''POST'' \<Longrightarrow> \<not> is_create (HttpDo (mkRequest c m p b))"
  "\<not> is_create (HttpDo (mkRequest c m p (Some (marshal_Cryptokey (zeroCryptokey\<lparr>ck_KeyType := ''csk'', ck_Active := True\<rparr>)))))"
  "\<not> is_create (KStatusUpdate x)" "\<not> is_create (KEvent k n a b' d)" "\<not> is_create (KGet k' n')"
  by (auto simp: is_create_def createRequest_def mkRequest_def marshal_Cryptokey_def marshal_Zone_def
      newZone_def zeroPdnsZone_def zeroCryptokey_def omitempty_def)

text \<open>After the lookup a pass neither creates nor deletes a zone.\<close>

lemma calls_after_lookup:
  "calls_only (\<lambda>q. \<not> is_create q \<and> \<not> is_delete q) (zone_registered X zone c pz)"
proof -
  have "calls_only (\<lambda>q. \<not> is_create q \<and> \<not> is_delete q) (activateKey c zn keys)" for zn keys
    unfolding activateKey_def by (cases keys; simp only: list.case) (intro calls_intros http_op_calls; simp)+
  then show ?thesis
    unfolding zone_registered_def zone_dnssec_def ensureDNSSEC_def
    by (intro calls_intros http_op_calls) (simp_all)
qed

lemma mkRequest_client: "mkRequest c m p b = mkRequest c' m p' b' \<Longrightarrow> p = p' \<Longrightarrow> c = c'"
  by (cases c; cases c') (auto simp: mkRequest_def)

lemma request_client:
  "createRequest c zone = createRequest c' zone \<Longrightarrow> c = c'"
  "deleteRequest c zone = deleteRequest c' zone \<Longrightarrow> c = c'"
  by (auto simp: createRequest_def deleteRequest_def dest: mkRequest_client)

lemma is_create_not_other [simp]:
  "\<not> is_create (getRequest c zone)" "\<not> is_create (patchRequest c zone x)" "\<not> is_create (deleteRequest c zone)"
  "\<not> is_delete (getRequest c zone)" "\<not> is_delete (patchRequest c zone x)" "is_delete (deleteRequest c zone)"
  "\<not> is_delete (createRequest c zone)" "is_create (createRequest c zone)"
  "\<not> is_delete (secretRequest s)" "\<not> is_create (secretRequest s)"
  by (simp_all add: getRequest_def patchRequest_def deleteRequest_def createRequest_def secretRequest_def
      is_create_def [of "createRequest c zone"], auto simp: is_create_def createRequest_def)

lemma plain_not_create: "\<not> is_http q \<Longrightarrow> \<not> is_create q \<and> \<not> is_delete q"
  by (cases q) (auto simp: is_create_def createRequest_def is_delete_def)

definition quiet :: "event list \<Rightarrow> bool" where
  "quiet tr \<longleftrightarrow> (\<forall>(q, r) \<in> set tr. \<not> is_create q \<and> \<not> is_delete q)"

lemma quiet_simps [simp]:
  "quiet []" "quiet ((q, r) # tr) \<longleftrightarrow> \<not> is_create q \<and> \<not> is_delete q \<and> quiet tr"
  "quiet (t1 @ t2) \<longleftrightarrow> quiet t1 \<and> quiet t2"
  by (auto simp: quiet_def)

text \<open>A lookup that creates or deletes: the one place in a pass where either happens.\<close>

lemma lookup_creates:
  assumes "exec (zone_lookup X zone c) tr x" "(q, r) \<in> set tr" "is_create q \<or> is_delete q"
  obtains r0 t1 t2 y where "tr = (getRequest c zone, r0) # t1 @ t2" "reply_404 (respHttp r0)"
    "exec (createZone X zone c) t1 y" "quiet t2"
    "is_err PdnsAlreadyExists y \<longrightarrow> (\<exists>r2. t2 = [(getRequest c zone, r2)])" "(q, r) \<in> set t1"
  using assms(1)
proof (cases rule: zone_lookup_cases)
  case (there r)
  with assms(2,3) show ?thesis by auto
next
  case (created r0 t)
  then have "(q, r) \<in> set t" using assms(2,3) by auto
  with created that [of r0 t "[]" x] show ?thesis
    by (auto simp: getReply_def outcome_zone)
next
  case (adopted r0 t e r2)
  then have "(q, r) \<in> set t" using assms(2,3) by auto
  with adopted that [of r0 t "[(getRequest c zone, r2)]" "Inl e"] show ?thesis
    by (auto simp: getReply_def outcome_zone)
qed

lemma zone_pass_creates:
  assumes "exec (zone_Reconcile X key) ((KGet KZone key, RObj (ObjZone zone)) # tr) res"
    and "\<not> om_Deleting (zone_Meta zone)" "(q, r) \<in> set tr" "is_create q \<or> is_delete q"
  obtains c t0 r0 t1 t2 y where "tr = t0 @ (getRequest c zone, r0) # t1 @ t2" "reply_404 (respHttp r0)"
    "exec (createZone X zone c) t1 y" "quiet t0" "quiet t2" "(q, r) \<in> set t1"
    "is_err PdnsAlreadyExists y \<longrightarrow> (\<exists>r2 t3. t2 = (getRequest c zone, r2) # t3)"
proof (cases "ContainsFinalizer X (om_Finalizers (zone_Meta zone)) zoneFinalizer")
  case False
  from zone_protocol.unprotected_pass [OF assms(1), of zone] assms(2) False
  obtain r' where "tr = [(KUpdate (zone_protect X zone), r')]" by auto
  with assms(3,4) plain_not_create [of q] show ?thesis by auto
next
  case True
  from zone_protocol.body_pass [OF assms(1), of zone] assms(2) True
  have "exec (zone_body X zone) tr res" by simp
  then show ?thesis
  proof (cases rule: zone_server_cases)
    case held
    with assms(3,4) plain_not_create [of q] show ?thesis by (auto simp: zone_idle_def)
  next
    case (served server sec c t)
    let ?z = "zone_setCond X zone ConditionRegistered ''True'' ''ZoneExists'' ''zone registered in PowerDNS''"
    from served(2) [unfolded reconcileZone_def] obtain u1 y u2 where t: "t = u1 @ u2"
      and l: "exec (zone_lookup X zone c) u1 y"
      and k: "exec (case y of
         Inl e \<Rightarrow> zone_markNotReady X
                    (zone_setCond X zone ConditionRegistered ''False'' (apiReason e) (err_msg e))
                    (apiReason e) (err_msg e) requeueLong
       | Inr pz \<Rightarrow> zone_registered X ?z c pz) u2 res" by (rule exec_andThenE)
    have u2: "quiet u2"
    proof (cases y)
      case (Inl e)
      with k have "zone_idle u2" by (auto dest: zone_markNotReady_idle)
      then show ?thesis using plain_not_create by (fastforce simp: zone_idle_def quiet_def)
    next
      case (Inr pz)
      with k calls_only_exec [OF _ calls_after_lookup, of X ?z c pz u2 res] show ?thesis
        by (auto simp: quiet_def)
    qed
    with t served(3) assms(3,4) have "(q, r) \<in> set u1" by (auto simp: quiet_def)
    then obtain r0 t1 t2 y' where
      "u1 = (getRequest c zone, r0) # t1 @ t2" "reply_404 (respHttp r0)"
      "exec (createZone X zone c) t1 y'" "quiet t2"
      "is_err PdnsAlreadyExists y' \<longrightarrow> (\<exists>r2. t2 = [(getRequest c zone, r2)])" "(q, r) \<in> set t1"
      by (rule lookup_creates [OF l _ assms(4)])
    with t served(3) u2 that [of "[(KGet KServer (serverKeyFor zone), RObj (ObjServer server)),
        (secretRequest server, RObj (ObjSecret sec))]" c r0 t1 "t2 @ u2" y'] show ?thesis by auto
  qed
qed

text \<open>
  C6: The Zone reconciler deletes a live zone's data only to undo its own creation.  A DELETE
  in a pass over a live Zone directly follows, in that pass, a GET that found no such zone, the
  POST that created it and the PATCH of its SOA, which failed.  Data that existed before the
  pass is never deleted.
\<close>

theorem zone_deletes_only_its_creation:
  assumes "exec (zone_Reconcile X key) ((KGet KZone key, RObj (ObjZone zone)) # tr) res"
    and "\<not> om_Deleting (zone_Meta zone)"
    and "(HttpDo h, hr) \<in> set tr" and "hq_Method h = ''DELETE''"
  shows "\<exists>c t1 r0 r1 pz r2 t2.
    tr = t1 @ [(getRequest c zone, r0), (createRequest c zone, r1),
               (patchRequest c zone (soaRRSet zone), r2), (deleteRequest c zone, hr)] @ t2 \<and>
    HttpDo h = deleteRequest c zone \<and> wantKind zone \<noteq> ZoneKindSecondary \<and>
    reply_404 (respHttp r0) \<and> createReply r1 = Inr pz \<and> \<not> reply_2xx (respHttp r2)"
proof -
  have del: "is_delete (HttpDo h)" using assms(4) by (simp add: is_delete_def)
  obtain c t0 r0 t1 t2 y where tr: "tr = t0 @ (getRequest c zone, r0) # t1 @ t2" "reply_404 (respHttp r0)"
    and cr: "exec (createZone X zone c) t1 y" and "quiet t0" "quiet t2" and mem: "(HttpDo h, hr) \<in> set t1"
    and "is_err PdnsAlreadyExists y \<longrightarrow> (\<exists>r2 t3. t2 = (getRequest c zone, r2) # t3)"
    by (rule zone_pass_creates [OF assms(1-3) disjI2 [OF del]])
  have seed: False if "exec (seedSOA X zone c) t (Inr ())" "(HttpDo h, hr) \<in> set t" for t
    using that(1) by (cases rule: exec_seedSOA_cases) (use that(2) del in auto)
  from cr show ?thesis
  proof (cases rule: exec_createZone_cases)
    case (refused r e)
    with mem del show ?thesis by auto
  next
    case (created r pz u1 u2)
    with mem del seed [of u1] plain_not_create [of "HttpDo h"] show ?thesis by (auto split: if_splits)
  next
    case (seed_failed r1 pz t e)
    from seed_failed(4) show ?thesis
    proof (cases rule: exec_seedSOA_cases)
      case (rolled_back r2 r3 u e)
      then have "(HttpDo h, hr) \<notin> set u" by auto
      with mem del seed_failed(1) rolled_back(1) have "HttpDo h = deleteRequest c zone" "hr = r3" by auto
      with tr seed_failed rolled_back show ?thesis
        by (intro exI [of _ c] exI [of _ t0] exI [of _ r0] exI [of _ r1] exI [of _ pz] exI [of _ r2]
            exI [of _ "u @ t2"]) simp
    qed auto
  qed
qed

theorem zone_deletes_only_its_creation_witness:
  "\<exists>c. fst (rollbackTrace ! 5) = deleteRequest c liveZone"
proof -
  obtain res where pass: "exec (zone_Reconcile refExt zoneKey)
      ((KGet KZone zoneKey, RObj (ObjZone liveZone)) # rollbackTrace) res"
    using rollback_pass by blast
  define h where "h = (case fst (rollbackTrace ! 5) of HttpDo h \<Rightarrow> h)"
  have h: "fst (rollbackTrace ! 5) = HttpDo h" "hq_Method h = ''DELETE''" "5 < length rollbackTrace"
    and live: "\<not> om_Deleting (zone_Meta liveZone)"
    unfolding h_def by code_simp+
  then have "(HttpDo h, snd (rollbackTrace ! 5)) \<in> set rollbackTrace" by (metis nth_mem prod.collapse)
  from zone_deletes_only_its_creation [OF pass live this h(2)] h(1) show ?thesis by auto
qed

text \<open>One POST, followed by what creation owes the zone.\<close>

definition creation_steps :: "Zone \<Rightarrow> Client \<Rightarrow> resp \<Rightarrow> event list \<Rightarrow> bool" where
  "creation_steps zone c r1 u \<longleftrightarrow> (\<forall>(q, r) \<in> set u. \<not> is_create q) \<and>
     (\<forall>pz. createReply r1 = Inr pz \<and> wantKind zone \<noteq> ZoneKindSecondary \<longrightarrow>
      (\<exists>r2 t3. u = (patchRequest c zone (soaRRSet zone), r2) # t3 \<and>
        (reply_2xx (respHttp r2) \<or> (\<exists>r3 t4. t3 = (deleteRequest c zone, r3) # t4))))"

lemma createReply_conflict: "reply_conflict (respHttp r) \<longleftrightarrow> is_err PdnsAlreadyExists (createReply r)"
  by (simp add: createReply_def outcome_zone)

lemma seedSOA_steps:
  assumes "exec (seedSOA X zone c) t x" "\<forall>(q, r) \<in> set u. \<not> is_create q"
  shows "creation_steps zone c r1 (t @ u)"
  using assms(1) by (cases rule: exec_seedSOA_cases)
    (use assms(2) plain_not_create in \<open>fastforce simp: creation_steps_def\<close>)+

lemma createZone_shape:
  assumes "exec (createZone X zone c) t y"
  obtains r1 u where "t = (createRequest c zone, r1) # u" "creation_steps zone c r1 u"
    "reply_conflict (respHttp r1) \<longrightarrow> u = [] \<and> is_err PdnsAlreadyExists y"
  using assms
proof (cases rule: exec_createZone_cases)
  case (refused r e)
  then show ?thesis by (intro that [of r "[]"]) (simp_all add: creation_steps_def createReply_conflict)
next
  case (seed_failed r pz u e)
  then show ?thesis
    using seedSOA_steps [OF seed_failed(4), of "[]" r]
    by (intro that [of r u]) (simp_all add: createReply_conflict is_err_def)
next
  case (created r pz u1 u2)
  have u2: "\<forall>(q, r) \<in> set u2. \<not> is_create q" using created(5) plain_not_create by fastforce
  have "creation_steps zone c r (u1 @ u2)"
  proof (cases "wantKind zone = ZoneKindSecondary")
    case True
    with created u2 show ?thesis by (simp add: creation_steps_def)
  next
    case False
    with created have "exec (seedSOA X zone c) u1 (Inr ())" by simp
    then show ?thesis using u2 by (rule seedSOA_steps)
  qed
  with created show ?thesis
    by (intro that [of r "u1 @ u2"]) (simp_all add: createReply_conflict is_err_def)
qed

text \<open>
  C10: Creation is atomic by retry.  A pass over a live Zone sends at most one POST of the zone, only after a
  GET found none.  Once a POST of a non-Secondary zone succeeded, the very next request is the
  PATCH of its SOA, and either that is accepted or the request after it is the DELETE that
  rolls the zone back, so no half-created zone survives unless the rollback fails as well.
  When the POST is answered "already exists", the next request is the GET that adopts the zone.
\<close>

theorem zone_creation_atomic:
  assumes "exec (zone_Reconcile X key) ((KGet KZone key, RObj (ObjZone zone)) # tr) res"
    and "\<not> om_Deleting (zone_Meta zone)" and "(createRequest c zone, r1) \<in> set tr"
  shows "\<exists>t1 r0 t2. tr = t1 @ [(getRequest c zone, r0), (createRequest c zone, r1)] @ t2 \<and>
    (\<forall>(q, r) \<in> set t1 \<union> set t2. \<not> is_create q) \<and> reply_404 (respHttp r0) \<and>
    (\<forall>pz. createReply r1 = Inr pz \<and> wantKind zone \<noteq> ZoneKindSecondary \<longrightarrow>
      (\<exists>r2 t3. t2 = (patchRequest c zone (soaRRSet zone), r2) # t3 \<and>
        (reply_2xx (respHttp r2) \<or> (\<exists>r3 t4. t3 = (deleteRequest c zone, r3) # t4)))) \<and>
    (reply_conflict (respHttp r1) \<longrightarrow> (\<exists>r2 t3. t2 = (getRequest c zone, r2) # t3))"
proof -
  obtain c' t0 r0 t1 t2 y where tr: "tr = t0 @ (getRequest c' zone, r0) # t1 @ t2" "reply_404 (respHttp r0)"
    and cr: "exec (createZone X zone c') t1 y"
    and quiet: "quiet t0" "quiet t2" and mem: "(createRequest c zone, r1) \<in> set t1"
    and adopt: "is_err PdnsAlreadyExists y \<longrightarrow> (\<exists>r2 t3. t2 = (getRequest c' zone, r2) # t3)"
    by (rule zone_pass_creates [OF assms(1-3)]) simp_all
  obtain r u where u: "t1 = (createRequest c' zone, r) # u" "creation_steps zone c' r u"
    "reply_conflict (respHttp r) \<longrightarrow> u = [] \<and> is_err PdnsAlreadyExists y"
    using cr by (rule createZone_shape)
  with mem have [simp]: "c' = c" "r = r1" by (auto simp: creation_steps_def dest: request_client)
  have "\<forall>(q, r) \<in> set t0 \<union> set (u @ t2). \<not> is_create q"
    using quiet u(2) by (auto simp: quiet_def creation_steps_def)
  moreover have "\<exists>r2 t3. u @ t2 = (patchRequest c zone (soaRRSet zone), r2) # t3 \<and>
      (reply_2xx (respHttp r2) \<or> (\<exists>r3 t4. t3 = (deleteRequest c zone, r3) # t4))"
    if "createReply r1 = Inr pz" "wantKind zone \<noteq> ZoneKindSecondary" for pz
    using u(2) that by (force simp: creation_steps_def)
  moreover have "reply_conflict (respHttp r1) \<longrightarrow> (\<exists>r2 t3. u @ t2 = (getRequest c zone, r2) # t3)"
    using u(3) adopt by auto
  ultimately show ?thesis using tr u(1)
    by (intro exI [of _ t0] exI [of _ r0] exI [of _ "u @ t2"]) simp
qed

definition demoZoneClient :: Client where
  "demoZoneClient = New ''http://pdns-api.dns.svc:8081'' ''k3y''"

theorem zone_creation_atomic_witness:
  "\<exists>t1 r0 t2. rollbackTrace = t1 @ [(getRequest demoZoneClient liveZone, r0),
      (createRequest demoZoneClient liveZone, snd (rollbackTrace ! 3))] @ t2"
proof -
  obtain res where pass: "exec (zone_Reconcile refExt zoneKey)
      ((KGet KZone zoneKey, RObj (ObjZone liveZone)) # rollbackTrace) res"
    using rollback_pass by blast
  have h: "fst (rollbackTrace ! 3) = createRequest demoZoneClient liveZone" "3 < length rollbackTrace"
    and live: "\<not> om_Deleting (zone_Meta liveZone)"
    by code_simp+
  then have "(createRequest demoZoneClient liveZone, snd (rollbackTrace ! 3)) \<in> set rollbackTrace"
    by (metis nth_mem prod.collapse)
  from zone_creation_atomic [OF pass live this] show ?thesis by (elim exE conjE) (intro exI)
qed

section \<open>Deletion\<close>

inductive zone_released :: "Zone \<Rightarrow> event list \<Rightarrow> bool" for zone tr where
  server_gone: "(KGet KServer (serverKeyFor zone), r) \<in> set tr \<Longrightarrow> respServer r = Inl e \<Longrightarrow>
    err_kind e = KubeNotFound \<Longrightarrow> zone_released zone tr"
| server_going: "(KGet KServer (serverKeyFor zone), RObj (ObjServer server)) \<in> set tr \<Longrightarrow>
    om_Deleting (srv_Meta server) \<or> pst_Phase (srv_Status server) = PhaseFailed \<Longrightarrow>
    zone_released zone tr"
| deleted: "(KGet KServer (serverKeyFor zone), RObj (ObjServer server)) \<in> set tr \<Longrightarrow>
    (secretRequest server, RObj (ObjSecret sec)) \<in> set tr \<Longrightarrow> client_of server sec c \<Longrightarrow>
    (deleteRequest c zone, r) \<in> set tr \<Longrightarrow> reply_2xx (respHttp r) \<or> reply_404 (respHttp r) \<Longrightarrow>
    zone_released zone tr"

lemma zone_released_mono: "zone_released zone t \<Longrightarrow> set t \<subseteq> set tr \<Longrightarrow> zone_released zone tr"
  by (induction rule: zone_released.induct) (blast intro: zone_released.intros)+

lemma zone_removeData_ok:
  assumes "exec (zone_removeData X zone) tr (Inr u)"
  shows "zone_released zone tr"
proof -
  from assms obtain r t where tr: "tr = (KGet KServer (serverKeyFor zone), r) # t"
    and k: "exec (case respServer r of
       Inl e \<Rightarrow> if err_kind e = KubeNotFound then Return (Inr ()) else Return (Inl e)
     | Inr server \<Rightarrow>
         if om_Deleting (srv_Meta server) \<or> pst_Phase (srv_Status server) = PhaseFailed
         then Return (Inr ())
         else
           tryIO (pdnsClientFor server) (\<lambda>pc.
             tryIO (DeleteZone pc (zname zone)) (\<lambda>_.
               andThen (zone_event X zone ''Normal'' ''ZoneDeleted'' (zoneDeletedMsg zone))
                 (\<lambda>_. Return (Inr ()))))) t (Inr u)"
    by (auto simp: zone_removeData_def exec_Call_iff)
  show ?thesis
  proof (cases "respServer r")
    case (Inl e)
    with k tr show ?thesis by (auto split: if_splits intro: zone_released.server_gone)
  next
    case (Inr server)
    show ?thesis
    proof (cases "om_Deleting (srv_Meta server) \<or> pst_Phase (srv_Status server) = PhaseFailed")
      case True
      with Inr tr show ?thesis by (intro zone_released.server_going) (auto simp: respServer_Inr)
    next
      case False
      with k Inr have "exec (tryIO (pdnsClientFor server) (\<lambda>pc.
             tryIO (DeleteZone pc (zname zone)) (\<lambda>_.
               andThen (zone_event X zone ''Normal'' ''ZoneDeleted'' (zoneDeletedMsg zone))
                 (\<lambda>_. Return (Inr ()))))) t (Inr u)" by simp
      then show ?thesis unfolding tryIO_def [of "pdnsClientFor server"]
      proof (cases rule: client_cases)
        case (ok sec c t')
        from ok(2) obtain t1 v t2 where t': "t' = t1 @ t2" "exec (DeleteZone c (zname zone)) t1 (Inr v)"
          by (auto simp: exec_tryIO_iff)
        from this(2) obtain r' where "t1 = [(deleteRequest c zone, r')]"
          "gone_ok (outcome ''DELETE'' (zonePath (zname zone)) noOut (respHttp r')) = Inr ()"
          by (auto simp: delete_zone.one_request deleteRequest_def)
        with t' have "(deleteRequest c zone, r') \<in> set t'"
          "reply_2xx (respHttp r') \<or> reply_404 (respHttp r')"
          by (auto simp: gone_ok_iff)
        with ok tr Inr show ?thesis
          by (intro zone_released.deleted [of zone server tr sec c r']) (auto simp: respServer_Inr)
      qed simp
    qed
  qed
qed

lemma calls_zone_removeData:
  "calls_only (\<lambda>q. \<not> is_kube_write q \<and> (is_http q \<longrightarrow> (\<exists>c. q = deleteRequest c zone))) (zone_removeData X zone)"
  unfolding zone_removeData_def zone_event_def
  by (intro calls_intros delete_zone.calls) (auto simp: deleteRequest_def)

text \<open>
  C14: A Zone under deletion is released only when that leaves no garbage behind, and never
  blocks on a dead server.  In a pass over a deleting Zone the only object written is the Zone
  without its finalizer; with the policy Orphan no HTTP request is sent; otherwise every HTTP
  request is the DELETE of the zone, and the finalizer is dropped only if PowerDNS accepted
  the DELETE (or does not know the zone) or the server is gone, deleting or failed; in these
  last cases no HTTP request is sent.
\<close>

theorem zone_delete_releases:
  assumes "exec (zone_Reconcile X key) ((KGet KZone key, RObj (ObjZone zone)) # tr) res"
    and "om_Deleting (zone_Meta zone)"
  shows "\<forall>(q, r) \<in> set tr.
      (is_kube_write q \<longrightarrow> q = KUpdate (ObjZone (zone_dropFinalizer X zone)) \<and>
         (zs_DeletionPolicy (zone_Spec zone) = DeletionPolicyOrphan \<or> zone_released zone tr)) \<and>
      (is_http q \<longrightarrow> zs_DeletionPolicy (zone_Spec zone) \<noteq> DeletionPolicyOrphan \<and>
         (\<exists>c. q = deleteRequest c zone))"
proof (cases "ContainsFinalizer X (om_Finalizers (zone_Meta zone)) zoneFinalizer")
  case False
  with zone_protocol.delete_pass [OF assms(1), of zone] assms(2) show ?thesis
    by (simp add: zone_reconcileDelete_def)
next
  case fin: True
  from zone_protocol.delete_pass [OF assms(1), of zone] assms(2)
  have del: "exec (zone_reconcileDelete X zone) tr res" by simp
  show ?thesis
  proof (cases "zs_DeletionPolicy (zone_Spec zone) = DeletionPolicyOrphan")
    case True
    with fin del show ?thesis by (auto simp: zone_reconcileDelete_def exec_tryIO_iff)
  next
    case False
    from fin del False have "exec (tryIO (zone_removeData X zone) (\<lambda>_.
       tryIO (ask (KUpdate (ObjZone (zone_dropFinalizer X zone))) respUnit) (\<lambda>_. Return (Inr Done)))) tr res"
      by (simp add: zone_reconcileDelete_def)
    then show ?thesis
    proof (cases rule: exec_tryIOE)
      case (fail e)
      from calls_only_exec [OF fail(1) calls_zone_removeData] False show ?thesis by blast
    next
      case (ok t1 u t2)
      from zone_released_mono [OF zone_removeData_ok [OF ok(2)], of tr] ok(1)
      have "zone_released zone tr" by simp
      moreover from ok(3) obtain r where "t2 = [(KUpdate (ObjZone (zone_dropFinalizer X zone)), r)]"
        by (auto simp: exec_tryIO_iff)
      ultimately show ?thesis
        using calls_only_exec [OF ok(2) calls_zone_removeData] ok(1) False by auto
    qed
  qed
qed

theorem zone_delete_releases_witness:
  "fst (dyingTrace ! 4) = KUpdate (ObjZone (zone_dropFinalizer refExt dyingZone)) \<and>
   zone_released dyingZone dyingTrace"
proof -
  obtain res where pass: "exec (zone_Reconcile refExt zoneKey)
      ((KGet KZone zoneKey, RObj (ObjZone dyingZone)) # dyingTrace) res"
    using dying_pass by blast
  have "om_Deleting (zone_Meta dyingZone)" "4 < length dyingTrace"
    and w: "is_kube_write (fst (dyingTrace ! 4))"
    and pol: "zs_DeletionPolicy (zone_Spec dyingZone) \<noteq> DeletionPolicyOrphan"
    by code_simp+
  then have "dyingTrace ! 4 \<in> set dyingTrace" by simp
  with zone_delete_releases [OF pass \<open>om_Deleting _\<close>] w pol show ?thesis
    by (auto simp: case_prod_beta)
qed

end
