(* ===== verification/Manifests.thy ===== *)
theory Manifests
  imports Kube_Client Sha256
begin

text \<open>
  \<open>internal/manifests/manifests.go\<close>: the objects of a PowerDNSServer, from names, labels and
  \<open>pdns.conf\<close> to the schema Job, the Deployment, the PodDisruptionBudget and the Services.
  Every function of the file is a definition of the same name; \<open>Deployment\<close> is cut into its
  environment, its container and its pod spec.
\<close>

section \<open>Names and labels\<close>

definition dnsTCPPort :: int where "dnsTCPPort = 53"
definition dnsUDPPort :: int where "dnsUDPPort = 53"
definition apiPort :: int where "apiPort = 8081"

definition labelApp :: string where "labelApp = ''app.kubernetes.io/name''"
definition labelComponent :: string where "labelComponent = ''app.kubernetes.io/component''"
definition labelManagedBy :: string where "labelManagedBy = ''app.kubernetes.io/managed-by''"
definition labelInstance :: string where "labelInstance = ''app.kubernetes.io/instance''"
definition managedBy :: string where "managedBy = ''aether-powerdns''"

definition pgClientImage :: string where "pgClientImage = ''postgres:16-alpine''"
definition pdnsSchemaPath :: string where
  "pdnsSchemaPath = ''/usr/local/share/doc/pdns/schema.pgsql.sql''"
definition pdnsSchemaPathFallback :: string where
  "pdnsSchemaPathFallback = ''/usr/share/doc/pdns/schema.pgsql.sql''"
definition ConfigHashAnnotation :: string where
  "ConfigHashAnnotation = ''dns.aetherplatform.cloud/config-hash''"

lemmas label_defs = labelApp_def labelComponent_def labelManagedBy_def labelInstance_def managedBy_def

record Names =
  nm_Server :: string
  nm_ConfigMap :: string
  nm_Deployment :: string
  nm_APIService :: string
  nm_DNSService :: string
  nm_APIKeySecret :: string
  nm_BackendSecret :: string
  nm_SchemaJob :: string
  nm_CNPGCluster :: string
  nm_TCPRoute :: string
  nm_UDPRoute :: string
  nm_HTTPRoute :: string
  nm_PDB :: string
  nm_PodMonitor :: string
  nm_NetPolicy :: string

definition NameSet :: "PowerDNSServer \<Rightarrow> Names" where
  "NameSet s = (let n = om_Name (srv_Meta s) in
     \<lparr>nm_Server = n,
      nm_ConfigMap = n @ ''-config'',
      nm_Deployment = n,
      nm_APIService = n @ ''-api'',
      nm_DNSService = n @ ''-dns'',
      nm_APIKeySecret = n @ ''-api-key'',
      nm_BackendSecret = n @ ''-backend'',
      nm_SchemaJob = n @ ''-schema-init'',
      nm_CNPGCluster = n @ ''-pg'',
      nm_TCPRoute = n @ ''-dns-tcp'',
      nm_UDPRoute = n @ ''-dns-udp'',
      nm_HTTPRoute = n @ ''-api-http'',
      nm_PDB = n @ ''-pdb'',
      nm_PodMonitor = n @ ''-metrics'',
      nm_NetPolicy = n @ ''-netpol''\<rparr>)"

definition labels :: "PowerDNSServer \<Rightarrow> gomap" where
  "labels s =
     [(labelApp, ''powerdns''), (labelComponent, ''auth''), (labelManagedBy, managedBy),
      (labelInstance, om_Name (srv_Meta s))]"

section \<open>The configuration hash\<close>

text \<open>The bytes written to the hash: the configuration, then each Secret by sorted key.\<close>

definition nul :: char where "nul = CHR 0x00"

fun hashEntries :: "gomap \<Rightarrow> string list \<Rightarrow> string" where
  "hashEntries s [] = []"
| "hashEntries s (k # ks) = k @ [nul] @ index s k @ [nul] @ hashEntries s ks"

definition hashInput :: "string \<Rightarrow> gomap list \<Rightarrow> string" where
  "hashInput conf secrets = conf @ concat (map (\<lambda>s. hashEntries s (sortedKeys s)) secrets)"

definition ConfigHash :: "string \<Rightarrow> gomap list \<Rightarrow> string" where
  "ConfigHash conf secrets = take 16 (EncodeToString (Sum256 (hashInput conf secrets)))"

section \<open>pdns.conf\<close>

definition apiSpecOrDefault :: "PowerDNSServer \<Rightarrow> APISpec" where
  "apiSpecOrDefault s =
     (let api = ps_API (srv_Spec s) in
      if api_Port api = 0 then api\<lparr>api_Port := apiPort\<rparr> else api)"

definition reservedSettings :: "string list" where
  "reservedSettings = [''launch'', ''local-address'', ''local-port'', ''webserver'',
     ''webserver-address'', ''webserver-port'', ''webserver-allow-from'', ''api'', ''api-key'',
     ''default-soa-content'']"

definition reservedSettingPrefix :: string where
  "reservedSettingPrefix = ''gpgsql-''"

text \<open>The regular expression \<open>^[a-z0-9][a-z0-9-]*$\<close> and its text.\<close>

definition keyChar :: "char \<Rightarrow> bool" where
  "keyChar c \<longleftrightarrow> (let n = of_char c :: nat in 97 \<le> n \<and> n \<le> 122 \<or> 48 \<le> n \<and> n \<le> 57)"

definition extraSettingKeyPattern :: "string \<Rightarrow> bool" where
  "extraSettingKeyPattern k =
     (case k of [] \<Rightarrow> False | c # cs \<Rightarrow> keyChar c \<and> list_all (\<lambda>d. keyChar d \<or> d = CHR ''-'') cs)"

definition extraSettingKeyPatternText :: string where
  "extraSettingKeyPatternText = ''^[a-z0-9][a-z0-9-]*$''"

definition extraSettingViolation :: "string \<Rightarrow> string \<Rightarrow> string" where
  "extraSettingViolation key val =
     (if \<not> extraSettingKeyPattern key then
        ''key '' @ quote key @ '' must match '' @ extraSettingKeyPatternText
      else if key \<in> set reservedSettings \<or> HasPrefix key reservedSettingPrefix then
        ''key '' @ quote key @ '' is managed by the operator and cannot be overridden''
      else if ContainsAny val [CHR 0x0D, CHR 0x0A] then
        ''value of '' @ quote key @ '' must not contain newlines''
      else [])"

fun violations :: "gomap \<Rightarrow> string list \<Rightarrow> string list" where
  "violations extra [] = []"
| "violations extra (k # ks) =
     (let msg = extraSettingViolation k (index extra k) in
      if msg \<noteq> [] then msg # violations extra ks else violations extra ks)"

definition ValidateExtraSettings :: "gomap \<Rightarrow> string list" where
  "ValidateExtraSettings extra =
     (if length extra = 0 then [] else violations extra (sortedKeys extra))"

text \<open>The loop over the sorted keys; \<open>b\<close> is the string builder.\<close>

fun renderFrom :: "gomap \<Rightarrow> string list \<Rightarrow> string \<Rightarrow> string" where
  "renderFrom extra [] b = b"
| "renderFrom extra (k # ks) b =
     (if extraSettingViolation k (index extra k) \<noteq> [] then renderFrom extra ks b
      else renderFrom extra ks
        ((if length b = 0 then b @ ''# spec.extraSettings'' @ nl else b) @
         k @ ''='' @ index extra k @ nl))"

definition renderExtraSettings :: "gomap \<Rightarrow> string" where
  "renderExtraSettings extra =
     (if length extra = 0 then [] else renderFrom extra (sortedKeys extra) [])"

definition dquote :: string where
  "dquote = [CHR 0x22]"

text \<open>The fixed part of the file, line by line.\<close>

definition pdnsConfigLines :: "int \<Rightarrow> string list" where
  "pdnsConfigLines port =
     [''# managed by aether-powerdns'',
      ''launch=gpgsql'',
      ''local-address=0.0.0.0'',
      ''local-port='' @ itoa dnsTCPPort,
      ''webserver=yes'',
      ''webserver-address=0.0.0.0'',
      ''webserver-port='' @ itoa port,
      ''webserver-allow-from=0.0.0.0/0,::/0'',
      ''api=yes'',
      ''# api-key, gpgsql-host, gpgsql-port, gpgsql-dbname, gpgsql-user, gpgsql-password'',
      ''# are passed on the command line (--api-key=$(PDNS_AUTH_API_KEY), ...) '' @ em_dash,
      ''# Secret-sourced env expanded by the kubelet, never written to this file.'',
      ''# Sane SOA for zones created out of band (API/pdnsutil): @ expands to'',
      ''# the zone name '' @ em_dash @ '' never the upstream '' @ dquote @ ''a.misconfigured...'' @ dquote @
        '' placeholder.'',
      ''# Zone-CR creations get an explicit SOA seeded by the operator anyway.'',
      ''default-soa-content=@ hostmaster.@ 0 10800 3600 604800 3600'',
      ''loglevel=4'']"

definition PDNSConfig :: "PowerDNSServer \<Rightarrow> string" where
  "PDNSConfig s =
     concat (map (\<lambda>l. l @ nl) (pdnsConfigLines (api_Port (apiSpecOrDefault s)))) @
     renderExtraSettings (ps_ExtraSettings (srv_Spec s))"

definition ConfigMap :: "PowerDNSServer \<Rightarrow> ConfigMap" where
  "ConfigMap s =
     \<lparr>cm_Meta = newMeta (nm_ConfigMap (NameSet s)) (om_Namespace (srv_Meta s)) (labels s),
      cm_Data = [(''pdns.conf'', PDNSConfig s)]\<rparr>"

section \<open>The schema Job\<close>

definition secretEnv :: "string \<Rightarrow> string \<Rightarrow> string \<Rightarrow> EnvVar" where
  "secretEnv n secret key = \<lparr>env_Name = n, env_Value = [], env_SecretKeyRef = Some (secret, key)\<rparr>"

definition backendEnv :: "string \<Rightarrow> EnvVar list" where
  "backendEnv secret =
     [secretEnv ''PGHOST'' secret ''host'', secretEnv ''PGPORT'' secret ''port'',
      secretEnv ''PGDATABASE'' secret ''database'', secretEnv ''PGUSER'' secret ''username'',
      secretEnv ''PGPASSWORD'' secret ''password'']"

definition imageOr :: "string \<Rightarrow> string \<Rightarrow> string" where
  "imageOr img def = (if img = [] then def else img)"

definition applySchemaScript :: string where
  "applySchemaScript =
     ''set -e'' @ nl @
     ''echo '' @ dquote @ ''applying PowerDNS schema to ${PGHOST}:${PGPORT}/${PGDATABASE}'' @ dquote @ nl @
     ''psql -v ON_ERROR_STOP=1 -h '' @ dquote @ ''$PGHOST'' @ dquote @ '' -p '' @ dquote @ ''$PGPORT'' @ dquote @
     '' -U '' @ dquote @ ''$PGUSER'' @ dquote @ '' -d '' @ dquote @ ''$PGDATABASE'' @ dquote @
     '' -f /schema/schema.sql'' @ nl @
     ''echo '' @ dquote @ ''schema applied'' @ dquote"

definition zeroResources :: ResourceRequirements where
  "zeroResources = \<lparr>rr_Requests = None, rr_Limits = None\<rparr>"

definition zeroContainer :: Container where
  "zeroContainer = \<lparr>ct_Name = [], ct_Image = [], ct_Command = [], ct_Args = [], ct_Ports = [],
     ct_Env = [], ct_Resources = zeroResources, ct_VolumeMounts = [], ct_ReadinessProbe = None,
     ct_LivenessProbe = None\<rparr>"

definition zeroPodSpec :: PodSpec where
  "zeroPodSpec = \<lparr>pod_RestartPolicy = [], pod_InitContainers = [], pod_Containers = [],
     pod_Volumes = [], pod_AntiAffinity = [], pod_TopologySpreadConstraints = [],
     pod_NodeSelector = [], pod_Tolerations = [], pod_PriorityClassName = []\<rparr>"

definition schemaMount :: VolumeMount where
  "schemaMount = \<lparr>vm_Name = ''schema'', vm_MountPath = ''/schema'', vm_ReadOnly = False\<rparr>"

definition SchemaInitJob :: "PowerDNSServer \<Rightarrow> Job" where
  "SchemaInitJob s =
     (let names = NameSet s; img = imageOr (ps_Image (srv_Spec s)) DefaultImage in
      \<lparr>job_Meta = newMeta (nm_SchemaJob names) (om_Namespace (srv_Meta s)) (labels s),
       job_BackoffLimit = 6,
       job_TTLSecondsAfterFinished = 3600,
       job_Template = \<lparr>pt_Labels = labels s, pt_Annotations = [],
         pt_Spec = zeroPodSpec\<lparr>
           pod_RestartPolicy := ''OnFailure'',
           pod_InitContainers := [zeroContainer\<lparr>
             ct_Name := ''extract-schema'', ct_Image := img,
             ct_Command := [''/bin/sh'', ''-c''],
             ct_Args := [''cp '' @ pdnsSchemaPath @ '' /schema/schema.sql 2>/dev/null || cp '' @
               pdnsSchemaPathFallback @ '' /schema/schema.sql''],
             ct_VolumeMounts := [schemaMount]\<rparr>],
           pod_Containers := [zeroContainer\<lparr>
             ct_Name := ''apply-schema'', ct_Image := pgClientImage,
             ct_Command := [''/bin/sh'', ''-c''], ct_Args := [applySchemaScript],
             ct_Env := backendEnv (nm_BackendSecret names),
             ct_VolumeMounts := [schemaMount]\<rparr>],
           pod_Volumes := [\<lparr>vol_Name = ''schema'', vol_Source = EmptyDir\<rparr>]\<rparr>\<rparr>,
       job_Succeeded = 0, job_Failed = 0, job_Conditions = []\<rparr>)"

section \<open>The Deployment\<close>

definition replicasOf :: "int option \<Rightarrow> int" where
  "replicasOf r = (case r of None \<Rightarrow> 1 | Some n \<Rightarrow> n)"

definition serverResources :: "ResourceRequirements \<Rightarrow> ResourceRequirements" where
  "serverResources res =
     (let r1 = (if rr_Requests res = None
                then res\<lparr>rr_Requests := Some [(''cpu'', ''50m''), (''memory'', ''128Mi'')]\<rparr> else res) in
      if rr_Limits r1 = None then r1\<lparr>rr_Limits := Some [(''memory'', ''512Mi'')]\<rparr> else r1)"

definition gpgsqlMappings :: "(string \<times> string) list" where
  "gpgsqlMappings =
     [(''PDNS_GPGSQL_HOST'', ''PGHOST''), (''PDNS_GPGSQL_PORT'', ''PGPORT''),
      (''PDNS_GPGSQL_DBNAME'', ''PGDATABASE''), (''PDNS_GPGSQL_USER'', ''PGUSER''),
      (''PDNS_GPGSQL_PASSWORD'', ''PGPASSWORD'')]"

definition varRef :: "string \<Rightarrow> string" where
  "varRef v = ''$('' @ v @ '')''"

definition serverEnv :: "Names \<Rightarrow> EnvVar list" where
  "serverEnv names =
     backendEnv (nm_BackendSecret names) @
     [secretEnv ''PDNS_AUTH_API_KEY'' (nm_APIKeySecret names) ''api-key''] @
     map (\<lambda>(p, v). \<lparr>env_Name = p, env_Value = varRef v, env_SecretKeyRef = None\<rparr>) gpgsqlMappings"

definition serverArgs :: "string list" where
  "serverArgs =
     [''--config-dir=/etc/powerdns'',
      ''--socket-dir=/var/run'',
      ''--api-key='' @ varRef ''PDNS_AUTH_API_KEY'',
      ''--gpgsql-host='' @ varRef ''PDNS_GPGSQL_HOST'',
      ''--gpgsql-port='' @ varRef ''PDNS_GPGSQL_PORT'',
      ''--gpgsql-dbname='' @ varRef ''PDNS_GPGSQL_DBNAME'',
      ''--gpgsql-user='' @ varRef ''PDNS_GPGSQL_USER'',
      ''--gpgsql-password='' @ varRef ''PDNS_GPGSQL_PASSWORD'']"

definition serverContainer :: "PowerDNSServer \<Rightarrow> Container" where
  "serverContainer s =
     (let names = NameSet s; port = api_Port (apiSpecOrDefault s) in
      \<lparr>ct_Name = ''pdns-auth'',
       ct_Image = imageOr (ps_Image (srv_Spec s)) DefaultImage,
       ct_Command = [''pdns_server''],
       ct_Args = serverArgs,
       ct_Ports =
         [\<lparr>cp_Name = ''dns-tcp'', cp_ContainerPort = dnsTCPPort, cp_Protocol = ''TCP''\<rparr>,
          \<lparr>cp_Name = ''dns-udp'', cp_ContainerPort = dnsUDPPort, cp_Protocol = ''UDP''\<rparr>,
          \<lparr>cp_Name = ''api'', cp_ContainerPort = port, cp_Protocol = ''TCP''\<rparr>],
       ct_Env = serverEnv names,
       ct_Resources = serverResources (ps_Resources (srv_Spec s)),
       ct_VolumeMounts =
         [\<lparr>vm_Name = ''config'', vm_MountPath = ''/etc/powerdns'', vm_ReadOnly = True\<rparr>,
          \<lparr>vm_Name = ''run'', vm_MountPath = ''/var/run'', vm_ReadOnly = False\<rparr>],
       ct_ReadinessProbe = Some
         \<lparr>probe_Handler = ExecProbe [''pdns_control'', ''--socket-dir=/var/run'', ''rping''],
          probe_InitialDelaySeconds = 5, probe_PeriodSeconds = 5, probe_TimeoutSeconds = 5,
          probe_FailureThreshold = 3\<rparr>,
       ct_LivenessProbe = Some
         \<lparr>probe_Handler = TCPSocketProbe port,
          probe_InitialDelaySeconds = 30, probe_PeriodSeconds = 10, probe_TimeoutSeconds = 5,
          probe_FailureThreshold = 6\<rparr>\<rparr>)"

definition spreadConstraint :: "string \<Rightarrow> gomap \<Rightarrow> TopologySpreadConstraint" where
  "spreadConstraint key lb = \<lparr>tsc_MaxSkew = 1, tsc_TopologyKey = key,
     tsc_WhenUnsatisfiable = ''ScheduleAnyway'', tsc_MatchLabels = lb\<rparr>"

definition hostnameLabel :: string where "hostnameLabel = ''kubernetes.io/hostname''"
definition zoneLabel :: string where "zoneLabel = ''topology.kubernetes.io/zone''"

text \<open>The block under \<open>if replicas > 1\<close>, the same in both workloads.\<close>

definition spreadPods :: "gomap \<Rightarrow> int \<Rightarrow> bool \<Rightarrow> PodSpec \<Rightarrow> PodSpec" where
  "spreadPods lb replicas acrossZones pod =
     (if replicas > 1 then pod\<lparr>
        pod_AntiAffinity := [\<lparr>aa_Weight = 100, aa_MatchLabels = lb, aa_TopologyKey = hostnameLabel\<rparr>],
        pod_TopologySpreadConstraints := [spreadConstraint hostnameLabel lb] @
          (if acrossZones then [spreadConstraint zoneLabel lb] else [])\<rparr>
      else pod)"

definition schedulePods :: "SchedulingSpec \<Rightarrow> PodSpec \<Rightarrow> PodSpec" where
  "schedulePods sch p1 =
     (let p2 = (if length (sch_NodeSelector sch) > 0
                then p1\<lparr>pod_NodeSelector := sch_NodeSelector sch\<rparr> else p1);
          p3 = (if length (sch_Tolerations sch) > 0
                then p2\<lparr>pod_Tolerations := sch_Tolerations sch\<rparr> else p2) in
      if sch_PriorityClassName sch \<noteq> []
      then p3\<lparr>pod_PriorityClassName := sch_PriorityClassName sch\<rparr> else p3)"

definition Deployment :: "PowerDNSServer \<Rightarrow> string \<Rightarrow> Deployment" where
  "Deployment s configHash =
     (let names = NameSet s; lb = labels s; replicas = replicasOf (ps_Replicas (srv_Spec s));
          podAnnotations = (if configHash \<noteq> [] then [(ConfigHashAnnotation, configHash)] else []);
          podSpec = zeroPodSpec\<lparr>pod_Containers := [serverContainer s],
            pod_Volumes :=
              [\<lparr>vol_Name = ''config'', vol_Source = ConfigMapVolume (nm_ConfigMap names)\<rparr>,
               \<lparr>vol_Name = ''run'', vol_Source = EmptyDir\<rparr>]\<rparr> in
      \<lparr>dep_Meta = newMeta (nm_Deployment names) (om_Namespace (srv_Meta s)) lb,
       dep_Spec = \<lparr>dps_Replicas = Some replicas, dps_Selector = lb, dps_Strategy = ''RollingUpdate'',
         dps_Template = \<lparr>pt_Labels = lb, pt_Annotations = podAnnotations,
           pt_Spec = schedulePods (ps_Scheduling (srv_Spec s))
             (spreadPods lb replicas (sch_SpreadAcrossZones (ps_Scheduling (srv_Spec s))) podSpec)\<rparr>\<rparr>,
       dep_AvailableReplicas = 0, dep_ReadyReplicas = 0\<rparr>)"

section \<open>Disruption budget and Services\<close>

definition pdbFor :: "string \<Rightarrow> string \<Rightarrow> gomap \<Rightarrow> int \<Rightarrow> int option \<Rightarrow> PodDisruptionBudget option" where
  "pdbFor name ns lbls replicas override =
     (if replicas \<le> 1 then None
      else
        (let minAvailable = (case override of None \<Rightarrow> replicas - 1 | Some m \<Rightarrow> m) in
         Some \<lparr>pdb_Meta = newMeta name ns lbls, pdb_MinAvailable = Some minAvailable,
               pdb_Selector = lbls\<rparr>))"

definition pdbOverride :: "PDBSpec option \<Rightarrow> int option" where
  "pdbOverride p = (case p of None \<Rightarrow> None | Some b \<Rightarrow> pdbs_MinAvailable b)"

definition PodDisruptionBudget :: "PowerDNSServer \<Rightarrow> PodDisruptionBudget option" where
  "PodDisruptionBudget s =
     pdbFor (nm_PDB (NameSet s)) (om_Namespace (srv_Meta s)) (labels s)
       (replicasOf (ps_Replicas (srv_Spec s))) (pdbOverride (ps_PodDisruptionBudget (srv_Spec s)))"

definition zeroServiceSpec :: ServiceSpec where
  "zeroServiceSpec = \<lparr>ss_Type = [], ss_Selector = [], ss_Ports = [], ss_ClusterIP = [],
     ss_LoadBalancerIP = [], ss_ExternalTrafficPolicy = [], ss_Other = []\<rparr>"

definition svcPort :: "string \<Rightarrow> int \<Rightarrow> string \<Rightarrow> ServicePort" where
  "svcPort n port proto = \<lparr>sp_Name = n, sp_Port = port, sp_TargetPort = port, sp_Protocol = proto,
     sp_NodePort = 0\<rparr>"

definition APIService :: "PowerDNSServer \<Rightarrow> Service" where
  "APIService s =
     \<lparr>svc_Meta = newMeta (nm_APIService (NameSet s)) (om_Namespace (srv_Meta s)) (labels s),
      svc_Spec = zeroServiceSpec\<lparr>ss_Type := ''ClusterIP'', ss_Selector := labels s,
        ss_Ports := [svcPort ''api'' (api_Port (apiSpecOrDefault s)) ''TCP'']\<rparr>,
      svc_Ingress = []\<rparr>"

definition baseDNSService :: "PowerDNSServer \<Rightarrow> string \<Rightarrow> Service" where
  "baseDNSService s name =
     \<lparr>svc_Meta = newMeta name (om_Namespace (srv_Meta s)) (labels s),
      svc_Spec = zeroServiceSpec\<lparr>ss_Type := ''ClusterIP'', ss_Selector := labels s,
        ss_Ports := [svcPort ''dns-tcp'' dnsTCPPort ''TCP'', svcPort ''dns-udp'' dnsUDPPort ''UDP'']\<rparr>,
      svc_Ingress = []\<rparr>"

text \<open>The fields a load balancer entry sets: IP, annotations, traffic policy.\<close>

definition setLB :: "string \<Rightarrow> gomap \<Rightarrow> string \<Rightarrow> Service \<Rightarrow> Service" where
  "setLB ip anns policy svc =
     (let s1 = (if ip \<noteq> [] then svc\<lparr>svc_Spec := (svc_Spec svc)\<lparr>ss_LoadBalancerIP := ip\<rparr>\<rparr> else svc);
          s2 = (if length anns > 0
                then s1\<lparr>svc_Meta := (svc_Meta s1)\<lparr>om_Annotations := putAll [] anns\<rparr>\<rparr> else s1) in
      s2\<lparr>svc_Spec := (svc_Spec s2)\<lparr>ss_ExternalTrafficPolicy :=
        (if policy \<noteq> [] then policy else ''Local'')\<rparr>\<rparr>)"

definition applyLBPrimary :: "Service \<Rightarrow> DNSLoadBalancerSpec option \<Rightarrow> Service" where
  "applyLBPrimary svc lb =
     (case lb of
        None \<Rightarrow> svc\<lparr>svc_Spec := (svc_Spec svc)\<lparr>ss_ExternalTrafficPolicy := ''Local''\<rparr>\<rparr>
      | Some b \<Rightarrow> setLB (dlb_IP b) (dlb_Annotations b) (dlb_ExternalTrafficPolicy b) svc)"

definition setType :: "string \<Rightarrow> Service \<Rightarrow> Service" where
  "setType ty svc = svc\<lparr>svc_Spec := (svc_Spec svc)\<lparr>ss_Type := ty\<rparr>\<rparr>"

definition DNSService :: "PowerDNSServer \<Rightarrow> Service" where
  "DNSService s =
     (let e = dns_Exposure (ps_DNS (srv_Spec s));
          exposure = (if e = [] then DNSExposureNone else e);
          svc = baseDNSService s (nm_DNSService (NameSet s)) in
      if exposure = DNSExposureLoadBalancer
      then applyLBPrimary (setType ''LoadBalancer'' svc) (dns_LoadBalancer (ps_DNS (srv_Spec s)))
      else svc)"

definition additionalDNSService :: "PowerDNSServer \<Rightarrow> AdditionalLoadBalancerService \<Rightarrow> Service" where
  "additionalDNSService s extra =
     setLB (als_IP extra) (als_Annotations extra) (als_ExternalTrafficPolicy extra)
       (setType ''LoadBalancer'' (baseDNSService s (nm_DNSService (NameSet s) @ als_NameSuffix extra)))"

definition AdditionalDNSServices :: "PowerDNSServer \<Rightarrow> Service list" where
  "AdditionalDNSServices s =
     (let dns = ps_DNS (srv_Spec s) in
      if dns_Exposure dns \<noteq> DNSExposureLoadBalancer then []
      else case dns_LoadBalancer dns of
             None \<Rightarrow> []
           | Some lb \<Rightarrow> map (additionalDNSService s) (dlb_AdditionalServices lb))"

end
