(* ===== verification/Manifests_Routes.thy ===== *)
theory Manifests_Routes
  imports Manifests
begin

text \<open>
  \<open>internal/manifests/routes.go\<close>, \<open>networkpolicy.go\<close> and \<open>observability.go\<close>, and
  \<open>internal/cnpg/cnpg.go\<close>: the Gateway API routes, the ingress policy, the PodMonitor and the
  CloudNativePG Cluster of a PowerDNSServer.
\<close>

section \<open>Routes\<close>

datatype gatewayProto = gatewayProtoTCP | gatewayProtoUDP

text \<open>A pointer to a string, nil for the empty one.\<close>

definition ptrIf :: "bool \<Rightarrow> string \<Rightarrow> string option" where
  "ptrIf b x = (if b then Some x else None)"

definition dnsRouteParent :: "string \<Rightarrow> gatewayProto \<Rightarrow> GatewayParentRef \<Rightarrow> ParentReference" where
  "dnsRouteParent localNS proto p =
     (let sn = (case proto of
            gatewayProtoTCP \<Rightarrow> gp_TCPSectionName p | gatewayProtoUDP \<Rightarrow> gp_UDPSectionName p) in
      \<lparr>par_Group = ptrIf (gp_Group p \<noteq> []) (gp_Group p),
       par_Kind = ptrIf (gp_Kind p \<noteq> []) (gp_Kind p),
       par_Namespace = ptrIf (gp_Namespace p \<noteq> [] \<and> gp_Namespace p \<noteq> localNS) (gp_Namespace p),
       par_Name = gp_Name p,
       par_SectionName = ptrIf (sn \<noteq> []) sn\<rparr>)"

definition dnsRouteParents :: "DNSSpec \<Rightarrow> string \<Rightarrow> gatewayProto \<Rightarrow> ParentReference list" where
  "dnsRouteParents dns localNS proto =
     (case dns_Gateway dns of
        None \<Rightarrow> []
      | Some gw \<Rightarrow> map (dnsRouteParent localNS proto) (dgw_ParentRefs gw))"

text \<open>\<open>buildTCPRoute\<close> and \<open>buildUDPRoute\<close> fill the same fields of their two types.\<close>

definition buildL4Route ::
  "string \<Rightarrow> string \<Rightarrow> gomap \<Rightarrow> ParentReference list \<Rightarrow> string \<Rightarrow> int \<Rightarrow> L4Route" where
  "buildL4Route name ns lbls parents backendSvc port =
     \<lparr>l4_Meta = newMeta name ns lbls, l4_ParentRefs = parents,
      l4_BackendRefs = [\<lparr>bref_Name = backendSvc, bref_Port = port\<rparr>]\<rparr>"

definition TCPRoute :: "PowerDNSServer \<Rightarrow> L4Route" where
  "TCPRoute s =
     (let names = NameSet s; ns = om_Namespace (srv_Meta s) in
      buildL4Route (nm_TCPRoute names) ns (labels s)
        (dnsRouteParents (ps_DNS (srv_Spec s)) ns gatewayProtoTCP) (nm_DNSService names) dnsTCPPort)"

definition UDPRoute :: "PowerDNSServer \<Rightarrow> L4Route" where
  "UDPRoute s =
     (let names = NameSet s; ns = om_Namespace (srv_Meta s) in
      buildL4Route (nm_UDPRoute names) ns (labels s)
        (dnsRouteParents (ps_DNS (srv_Spec s)) ns gatewayProtoUDP) (nm_DNSService names) dnsUDPPort)"

definition apiRouteParent :: "string \<Rightarrow> APIGatewayParentRef \<Rightarrow> ParentReference" where
  "apiRouteParent localNS p =
     \<lparr>par_Group = ptrIf (agp_Group p \<noteq> []) (agp_Group p),
      par_Kind = ptrIf (agp_Kind p \<noteq> []) (agp_Kind p),
      par_Namespace = ptrIf (agp_Namespace p \<noteq> [] \<and> agp_Namespace p \<noteq> localNS) (agp_Namespace p),
      par_Name = agp_Name p,
      par_SectionName = ptrIf (agp_SectionName p \<noteq> []) (agp_SectionName p)\<rparr>"

definition HTTPRoute :: "PowerDNSServer \<Rightarrow> HTTPRoute option" where
  "HTTPRoute s =
     (case api_Gateway (ps_API (srv_Spec s)) of
        None \<Rightarrow> None
      | Some gw \<Rightarrow>
          (let names = NameSet s; ns = om_Namespace (srv_Meta s) in
           Some \<lparr>hr_Meta = newMeta (nm_HTTPRoute names) ns (labels s),
             hr_ParentRefs = map (apiRouteParent ns) (agw_ParentRefs gw),
             hr_Hostnames = agw_Hostnames gw,
             hr_PathType = ''PathPrefix'', hr_PathValue = ''/'',
             hr_BackendRefs = [\<lparr>bref_Name = nm_APIService names,
               bref_Port = api_Port (apiSpecOrDefault s)\<rparr>]\<rparr>))"

section \<open>NetworkPolicy\<close>

definition nsPeer :: "string \<Rightarrow> gomap" where
  "nsPeer ns = [(''kubernetes.io/metadata.name'', ns)]"

definition NetworkPolicy :: "PowerDNSServer \<Rightarrow> NetworkPolicy" where
  "NetworkPolicy s =
     (let ns = om_Namespace (srv_Meta s); port = api_Port (apiSpecOrDefault s);
          apiPeers = nsPeer ns #
            map nsPeer (nps_AdditionalAllowedAPINamespaces (ps_NetworkPolicy (srv_Spec s))) in
      \<lparr>np_Meta = newMeta (nm_NetPolicy (NameSet s)) ns (labels s),
       np_PodSelector = labels s,
       np_PolicyTypes = [''Ingress''],
       np_Ingress =
         [\<lparr>npi_From = [], npi_Ports = [(''TCP'', dnsTCPPort), (''UDP'', dnsTCPPort)]\<rparr>,
          \<lparr>npi_From = apiPeers, npi_Ports = [(''TCP'', port)]\<rparr>]\<rparr>)"

section \<open>PodMonitor\<close>

definition PodMonitorGVK :: GroupVersionKind where
  "PodMonitorGVK = \<lparr>gvk_Group = ''monitoring.coreos.com'', gvk_Version = ''v1'', gvk_Kind = ''PodMonitor''\<rparr>"

definition jmap :: "gomap \<Rightarrow> json" where
  "jmap m = JObj (map (\<lambda>(k, v). (k, JStr v)) m)"

definition PodMonitor :: "PowerDNSServer \<Rightarrow> Unstructured" where
  "PodMonitor s =
     (let pm = ps_PodMonitor (srv_Spec s); ns = om_Namespace (srv_Meta s);
          interval = (if pm_Interval pm = [] then ''30s'' else pm_Interval pm);
          lb = putAll (putAll [] (labels s)) (pm_Labels pm) in
      \<lparr>un_GVK = PodMonitorGVK,
       un_Meta = newMeta (nm_PodMonitor (NameSet s)) ns lb,
       un_Object = JObj [(''spec'', JObj
         [(''selector'', JObj [(''matchLabels'', jmap (labels s))]),
          (''namespaceSelector'', JObj [(''matchNames'', JArr [JStr ns])]),
          (''podMetricsEndpoints'', JArr [JObj
             [(''port'', JStr ''api''), (''path'', JStr ''/metrics''),
              (''interval'', JStr interval), (''scheme'', JStr ''http'')]])])]\<rparr>)"

section \<open>CloudNativePG\<close>

definition ClusterGVK :: GroupVersionKind where
  "ClusterGVK = \<lparr>gvk_Group = ''postgresql.cnpg.io'', gvk_Version = ''v1'', gvk_Kind = ''Cluster''\<rparr>"

definition DefaultDatabase :: string where "DefaultDatabase = ''powerdns''"
definition DefaultOwner :: string where "DefaultOwner = ''powerdns''"

definition clusterInstances :: "PostgresBackendSpec option \<Rightarrow> int" where
  "clusterInstances pg = (case pg of None \<Rightarrow> 1
     | Some p \<Rightarrow> (case pg_Instances p of None \<Rightarrow> 1 | Some i \<Rightarrow> i))"

definition clusterStorage :: "PostgresBackendSpec option \<Rightarrow> json" where
  "clusterStorage pg =
     (let size = (case pg of None \<Rightarrow> ''5Gi''
            | Some p \<Rightarrow> if pg_StorageSize p \<noteq> [] then pg_StorageSize p else ''5Gi'');
          cls = (case pg of None \<Rightarrow> [] | Some p \<Rightarrow> pg_StorageClass p) in
      JObj ([(''size'', JStr size)] @ (if cls \<noteq> [] then [(''storageClass'', JStr cls)] else [])))"

definition Cluster :: "PowerDNSServer \<Rightarrow> string \<Rightarrow> Unstructured" where
  "Cluster s name =
     (let pg = be_Postgres (ps_Backend (srv_Spec s)) in
      \<lparr>un_GVK = ClusterGVK,
       un_Meta = newMeta name (om_Namespace (srv_Meta s))
         [(''app.kubernetes.io/name'', ''powerdns-postgres''),
          (''app.kubernetes.io/instance'', om_Name (srv_Meta s)),
          (''app.kubernetes.io/managed-by'', ''aether-powerdns'')],
       un_Object = JObj [(''spec'', JObj
         [(''instances'', JNum (clusterInstances pg)),
          (''storage'', clusterStorage pg),
          (''bootstrap'', JObj [(''initdb'', JObj
             [(''database'', JStr DefaultDatabase), (''owner'', JStr DefaultOwner)])])])]\<rparr>)"

definition AppSecretName :: "string \<Rightarrow> string" where
  "AppSecretName cluster = cluster @ ''-app''"

end
