(* ===== verification/Manifests_DNSDist.thy ===== *)
theory Manifests_DNSDist
  imports Manifests_Routes
begin

text \<open>
  \<open>internal/manifests/dnsdist.go\<close>: the objects of a DNSDist.  Go maps are references, and the
  additional Services of a DNSDist all hold the same map as labels and as selector; because
  the controller later writes to the labels, \<open>DNSDistAdditionalDNSServices\<close> returns Services
  whose two maps are addresses in an explicit store (\<open>mapStore\<close>).
\<close>

section \<open>Names, labels, configuration\<close>

definition dotPort :: int where "dotPort = 853"
definition dohPort :: int where "dohPort = 443"

record DNSDistNames =
  dn_Deployment :: string
  dn_ConfigMap :: string
  dn_DNSService :: string
  dn_PDB :: string
  dn_TCPRoute :: string
  dn_UDPRoute :: string

definition DNSDistNameSet :: "DNSDist \<Rightarrow> DNSDistNames" where
  "DNSDistNameSet d = (let n = om_Name (dd_Meta d) in
     \<lparr>dn_Deployment = n @ ''-dnsdist'',
      dn_ConfigMap = n @ ''-dnsdist-config'',
      dn_DNSService = n @ ''-dnsdist-dns'',
      dn_PDB = n @ ''-dnsdist-pdb'',
      dn_TCPRoute = n @ ''-dnsdist-tcp'',
      dn_UDPRoute = n @ ''-dnsdist-udp''\<rparr>)"

definition dnsdistLabels :: "DNSDist \<Rightarrow> gomap" where
  "dnsdistLabels d =
     [(labelApp, ''dnsdist''), (labelComponent, ''frontend''), (labelManagedBy, managedBy),
      (labelInstance, om_Name (dd_Meta d))]"

definition dnsdistReplicas :: "DNSDist \<Rightarrow> int" where
  "dnsdistReplicas d = (case ds_Replicas (dd_Spec d) of Some n \<Rightarrow> n | None \<Rightarrow> 1)"

definition quoted :: "string \<Rightarrow> string" where
  "quoted s = dquote @ s @ dquote"

definition backendLine :: "gomap \<Rightarrow> string \<Rightarrow> string" where
  "backendLine backendAddrs n =
     ''newServer({address='' @ quoted (index backendAddrs n @ '':53'') @ '', name='' @ quoted n @
     '', checkInterval=2, maxCheckFailures=2, rise=1})'' @ nl"

definition cacheBlock :: "DNSDistSpec \<Rightarrow> string" where
  "cacheBlock sp =
     (if ds_Cache_Enabled sp = None \<or> ds_Cache_Enabled sp = Some True then
        (let maxEntries = (case ds_Cache_MaxEntries sp of None \<Rightarrow> 100000 | Some m \<Rightarrow> m) in
         ''pc = newPacketCache('' @ itoa maxEntries @ '', {maxTTL=86400})'' @ nl @
         ''getPool('' @ quoted [] @ ''):setCache(pc)'' @ nl)
      else [])"

definition rateLimitBlock :: "DNSDistSpec \<Rightarrow> string" where
  "rateLimitBlock sp =
     (if ds_RateLimit_QPSPerClient sp > 0 then
        ''local dbr = dynBlockRulesGroup()'' @ nl @
        ''dbr:setQueryRate('' @ itoa (ds_RateLimit_QPSPerClient sp) @ '', 10, '' @ quoted ''rate-limited'' @
        '', 60)'' @ nl @
        ''function maintenance() dbr:apply() end'' @ nl
      else [])"

definition tlsBlock :: "DNSDistSpec \<Rightarrow> string" where
  "tlsBlock sp =
     (if tls_Enabled (ds_TLS_DoT sp) then
        ''addTLSLocal('' @ quoted ''0.0.0.0:853'' @ '', '' @ quoted ''/tls/dot/tls.crt'' @ '', '' @ quoted ''/tls/dot/tls.key'' @
        '')'' @ nl else []) @
     (if tls_Enabled (ds_TLS_DoH sp) then
        ''addDOHLocal('' @ quoted ''0.0.0.0:443'' @ '', '' @ quoted ''/tls/doh/tls.crt'' @ '', '' @ quoted ''/tls/doh/tls.key'' @
        '', { '' @ quoted ''/dns-query'' @ '' })'' @ nl else [])"

definition DNSDistConfig :: "DNSDist \<Rightarrow> gomap \<Rightarrow> string" where
  "DNSDistConfig d backendAddrs =
     (let sp = dd_Spec d; names = sort (map ref_Name (ds_BackendRefs sp)) in
      ''-- managed by aether-powerdns'' @ nl @
      ''setACL({'' @ quoted ''0.0.0.0/0'' @ '', '' @ quoted ''::/0'' @ ''})'' @ nl @
      ''setLocal('' @ quoted ''0.0.0.0:53'' @ '', {reusePort=true})'' @ nl @
      concat (map (backendLine backendAddrs) names) @
      cacheBlock sp @ rateLimitBlock sp @ tlsBlock sp)"

definition DNSDistConfigMap :: "DNSDist \<Rightarrow> gomap \<Rightarrow> ConfigMap" where
  "DNSDistConfigMap d backendAddrs =
     \<lparr>cm_Meta = newMeta (dn_ConfigMap (DNSDistNameSet d)) (om_Namespace (dd_Meta d)) (dnsdistLabels d),
      cm_Data = [(''dnsdist.conf'', DNSDistConfig d backendAddrs)]\<rparr>"

section \<open>Deployment\<close>

definition tcpProbe :: "int \<Rightarrow> int \<Rightarrow> Probe" where
  "tcpProbe delay period = \<lparr>probe_Handler = TCPSocketProbe dnsTCPPort,
     probe_InitialDelaySeconds = delay, probe_PeriodSeconds = period, probe_TimeoutSeconds = 0,
     probe_FailureThreshold = 0\<rparr>"

definition dnsdistPorts :: "DNSDistSpec \<Rightarrow> ContainerPort list" where
  "dnsdistPorts sp =
     [\<lparr>cp_Name = ''dns-tcp'', cp_ContainerPort = dnsTCPPort, cp_Protocol = ''TCP''\<rparr>,
      \<lparr>cp_Name = ''dns-udp'', cp_ContainerPort = dnsUDPPort, cp_Protocol = ''UDP''\<rparr>] @
     (if tls_Enabled (ds_TLS_DoT sp)
      then [\<lparr>cp_Name = ''dot'', cp_ContainerPort = dotPort, cp_Protocol = ''TCP''\<rparr>] else []) @
     (if tls_Enabled (ds_TLS_DoH sp)
      then [\<lparr>cp_Name = ''doh'', cp_ContainerPort = dohPort, cp_Protocol = ''TCP''\<rparr>] else [])"

definition dnsdistMounts :: "DNSDistSpec \<Rightarrow> VolumeMount list" where
  "dnsdistMounts sp =
     [\<lparr>vm_Name = ''config'', vm_MountPath = ''/etc/dnsdist'', vm_ReadOnly = True\<rparr>] @
     (if tls_Enabled (ds_TLS_DoT sp)
      then [\<lparr>vm_Name = ''dot-cert'', vm_MountPath = ''/tls/dot'', vm_ReadOnly = True\<rparr>] else []) @
     (if tls_Enabled (ds_TLS_DoH sp)
      then [\<lparr>vm_Name = ''doh-cert'', vm_MountPath = ''/tls/doh'', vm_ReadOnly = True\<rparr>] else [])"

definition dnsdistVolumes :: "DNSDist \<Rightarrow> Volume list" where
  "dnsdistVolumes d = (let sp = dd_Spec d in
     [\<lparr>vol_Name = ''config'', vol_Source = ConfigMapVolume (dn_ConfigMap (DNSDistNameSet d))\<rparr>] @
     (if tls_Enabled (ds_TLS_DoT sp)
      then [\<lparr>vol_Name = ''dot-cert'', vol_Source = SecretVolume (tls_CertificateSecretRef (ds_TLS_DoT sp))\<rparr>]
      else []) @
     (if tls_Enabled (ds_TLS_DoH sp)
      then [\<lparr>vol_Name = ''doh-cert'', vol_Source = SecretVolume (tls_CertificateSecretRef (ds_TLS_DoH sp))\<rparr>]
      else []))"

definition dnsdistContainer :: "DNSDist \<Rightarrow> Container" where
  "dnsdistContainer d = zeroContainer\<lparr>
     ct_Name := ''dnsdist'',
     ct_Image := imageOr (ds_Image (dd_Spec d)) DefaultDNSDistImage,
     ct_Args := [''--supervised'', ''--disable-syslog'', ''-C'', ''/etc/dnsdist/dnsdist.conf''],
     ct_Ports := dnsdistPorts (dd_Spec d),
     ct_Resources := ds_Resources (dd_Spec d),
     ct_VolumeMounts := dnsdistMounts (dd_Spec d),
     ct_ReadinessProbe := Some (tcpProbe 2 5),
     ct_LivenessProbe := Some (tcpProbe 10 10)\<rparr>"

definition DNSDistDeployment :: "DNSDist \<Rightarrow> string \<Rightarrow> Deployment" where
  "DNSDistDeployment d configHash =
     (let lbls = dnsdistLabels d; replicas = dnsdistReplicas d; sch = ds_Scheduling (dd_Spec d);
          podAnnotations = (if configHash \<noteq> [] then [(ConfigHashAnnotation, configHash)] else []);
          podSpec = zeroPodSpec\<lparr>pod_Containers := [dnsdistContainer d],
            pod_Volumes := dnsdistVolumes d,
            pod_NodeSelector := sch_NodeSelector sch,
            pod_Tolerations := sch_Tolerations sch,
            pod_PriorityClassName := sch_PriorityClassName sch\<rparr> in
      \<lparr>dep_Meta = newMeta (dn_Deployment (DNSDistNameSet d)) (om_Namespace (dd_Meta d)) lbls,
       dep_Spec = \<lparr>dps_Replicas = Some replicas, dps_Selector = lbls, dps_Strategy = ''RollingUpdate'',
         dps_Template = \<lparr>pt_Labels = lbls, pt_Annotations = podAnnotations,
           pt_Spec = spreadPods lbls replicas (sch_SpreadAcrossZones sch) podSpec\<rparr>\<rparr>,
       dep_AvailableReplicas = 0, dep_ReadyReplicas = 0\<rparr>)"

section \<open>Services\<close>

definition dnsdistServicePorts :: "DNSDistSpec \<Rightarrow> ServicePort list" where
  "dnsdistServicePorts sp =
     [svcPort ''dns-tcp'' dnsTCPPort ''TCP'', svcPort ''dns-udp'' dnsUDPPort ''UDP''] @
     (if tls_Enabled (ds_TLS_DoT sp) then [svcPort ''dot'' dotPort ''TCP''] else []) @
     (if tls_Enabled (ds_TLS_DoH sp) then [svcPort ''doh'' dohPort ''TCP''] else [])"

definition DNSDistDNSService :: "DNSDist \<Rightarrow> Service" where
  "DNSDistDNSService d =
     (let sp = dd_Spec d; lbls = dnsdistLabels d;
          svc = \<lparr>svc_Meta = newMeta (dn_DNSService (DNSDistNameSet d)) (om_Namespace (dd_Meta d)) lbls,
            svc_Spec = zeroServiceSpec\<lparr>ss_Type := ''ClusterIP'', ss_Selector := lbls,
              ss_Ports := dnsdistServicePorts sp\<rparr>, svc_Ingress = []\<rparr> in
      if dns_Exposure (ds_DNS sp) = DNSExposureLoadBalancer
      then applyLBPrimary (setType ''LoadBalancer'' svc) (dns_LoadBalancer (ds_DNS sp))
      else svc)"

text \<open>
  A store of Go maps, and a Service whose labels and selector are references into it; the
  other fields of the Service are a value with empty labels and selector.
\<close>

type_synonym mapStore = "gomap list"

record ServiceRefs =
  sref_Labels :: nat
  sref_Selector :: nat
  sref_Rest :: Service

definition deref :: "mapStore \<Rightarrow> ServiceRefs \<Rightarrow> Service" where
  "deref st r = (sref_Rest r)\<lparr>
     svc_Meta := (svc_Meta (sref_Rest r))\<lparr>om_Labels := st ! sref_Labels r\<rparr>,
     svc_Spec := (svc_Spec (sref_Rest r))\<lparr>ss_Selector := st ! sref_Selector r\<rparr>\<rparr>"

text \<open>\<open>svc.Labels[k] = v\<close>: the map the labels refer to is updated in place.\<close>

definition setLabel :: "ServiceRefs \<Rightarrow> string \<Rightarrow> string \<Rightarrow> mapStore \<Rightarrow> mapStore" where
  "setLabel r k v st = st[sref_Labels r := put k v (st ! sref_Labels r)]"

text \<open>One map \<open>lbls\<close>, at address 0, is the labels and the selector of every Service.\<close>

definition DNSDistAdditionalDNSServices :: "DNSDist \<Rightarrow> mapStore \<times> ServiceRefs list" where
  "DNSDistAdditionalDNSServices d =
     (let dns = ds_DNS (dd_Spec d) in
      if dns_Exposure dns \<noteq> DNSExposureLoadBalancer then ([], [])
      else case dns_LoadBalancer dns of
             None \<Rightarrow> ([], [])
           | Some lb \<Rightarrow>
               ([dnsdistLabels d],
                map (\<lambda>extra. \<lparr>sref_Labels = 0, sref_Selector = 0,
                  sref_Rest = setLB (als_IP extra) (als_Annotations extra) (als_ExternalTrafficPolicy extra)
                    \<lparr>svc_Meta = newMeta (dn_DNSService (DNSDistNameSet d) @ als_NameSuffix extra)
                       (om_Namespace (dd_Meta d)) [],
                     svc_Spec = zeroServiceSpec\<lparr>ss_Type := ''LoadBalancer'',
                       ss_Ports := dnsdistServicePorts (dd_Spec d)\<rparr>,
                     svc_Ingress = []\<rparr>\<rparr>) (dlb_AdditionalServices lb)))"

definition DNSDistPDB :: "DNSDist \<Rightarrow> PodDisruptionBudget option" where
  "DNSDistPDB d =
     pdbFor (dn_PDB (DNSDistNameSet d)) (om_Namespace (dd_Meta d)) (dnsdistLabels d)
       (dnsdistReplicas d) (pdbOverride (ds_PodDisruptionBudget (dd_Spec d)))"

definition DNSDistTCPRoute :: "DNSDist \<Rightarrow> L4Route" where
  "DNSDistTCPRoute d =
     (let names = DNSDistNameSet d; ns = om_Namespace (dd_Meta d) in
      buildL4Route (dn_TCPRoute names) ns (dnsdistLabels d)
        (dnsRouteParents (ds_DNS (dd_Spec d)) ns gatewayProtoTCP) (dn_DNSService names) dnsTCPPort)"

definition DNSDistUDPRoute :: "DNSDist \<Rightarrow> L4Route" where
  "DNSDistUDPRoute d =
     (let names = DNSDistNameSet d; ns = om_Namespace (dd_Meta d) in
      buildL4Route (dn_UDPRoute names) ns (dnsdistLabels d)
        (dnsRouteParents (ds_DNS (dd_Spec d)) ns gatewayProtoUDP) (dn_DNSService names) dnsUDPPort)"

end
