(* ===== verification/Manifests_Correct.thy ===== *)
theory Manifests_Correct
  imports Manifests_DNSDist
begin

text \<open>
  Properties of the rendered objects: what \<open>pdns.conf\<close> says when it is read line by line, that
  nothing depends on the order in which Go visits a map, what the configuration hash covers,
  that Services select the pods the Deployment creates, and the bounds of the disruption
  budget.  The locale \<open>order_free\<close> is the contract of every function of a Go map whose result
  ends up in a pod template: two iteration orders of one map give the same result.
\<close>

section \<open>Independence of the iteration order\<close>

locale order_free =
  fixes f :: "(string \<times> 'v) list \<Rightarrow> 'a"
  assumes order_free: "wf_map m \<Longrightarrow> wf_map m' \<Longrightarrow> same_map m m' \<Longrightarrow> f m = f m'"
begin

lemma permuted: "wf_map m \<Longrightarrow> mset m = mset m' \<Longrightarrow> f m = f m'"
proof (rule order_free)
  assume m: "wf_map m" "mset m = mset m'"
  then have "mset (map fst m) = mset (map fst m')" by (simp only: mset_map)
  then have "distinct (map fst m')" using m(1)
    by (simp add: wf_map_def) (metis mset_eq_imp_distinct_iff mset_map)
  then show "wf_map m'" by (simp add: wf_map_def)
  with m show "same_map m m'"
    by (metis map_of_inject_set mset_eq_setD same_map_iff wf_map_def)
qed

lemma compose: "wf_map m \<Longrightarrow> wf_map m' \<Longrightarrow> same_map m m' \<Longrightarrow> g (f m) = g (f m')"
  by (simp add: order_free [of m m'])

end

lemma index_same_map: "map_of m = map_of m' \<Longrightarrow> index m k = index m' k"
  by (simp add: index_def)

lemma length_same_map:
  fixes m m' :: "(string \<times> 'v) list"
  assumes "wf_map m" "wf_map m'" "map_of m = map_of m'"
  shows "length m = length m'"
  using arg_cong [OF same_map_keys_mset [OF assms], of size] by (simp add: gm_keys_def)

lemma violations_cong: "map_of m = map_of m' \<Longrightarrow> violations m ks = violations m' ks"
  by (induction ks) (simp_all only: violations.simps index_same_map [of m m'])

lemma renderFrom_cong: "map_of m = map_of m' \<Longrightarrow> renderFrom m ks b = renderFrom m' ks b"
  by (induction ks arbitrary: b) (simp_all only: renderFrom.simps index_same_map [of m m'])

lemma hashEntries_cong: "map_of m = map_of m' \<Longrightarrow> hashEntries m ks = hashEntries m' ks"
  by (induction ks) (simp_all only: hashEntries.simps index_same_map [of m m'])

interpretation validate: order_free ValidateExtraSettings
proof
  fix m m' :: gomap assume m: "wf_map m" "wf_map m'" "same_map m m'"
  then have eq: "map_of m = map_of m'" by (simp add: same_map_iff)
  show "ValidateExtraSettings m = ValidateExtraSettings m'"
    unfolding ValidateExtraSettings_def sortedKeys_order_irrelevant [OF m(1,2) eq]
      length_same_map [OF m(1,2) eq] violations_cong [OF eq] ..
qed

interpretation extra: order_free renderExtraSettings
proof
  fix m m' :: gomap assume m: "wf_map m" "wf_map m'" "same_map m m'"
  then have eq: "map_of m = map_of m'" by (simp add: same_map_iff)
  show "renderExtraSettings m = renderExtraSettings m'"
    unfolding renderExtraSettings_def sortedKeys_order_irrelevant [OF m(1,2) eq]
      length_same_map [OF m(1,2) eq] renderFrom_cong [OF eq] ..
qed

interpretation secret_hash: order_free "\<lambda>m. hashEntries m (sortedKeys m)"
proof
  fix m m' :: gomap assume m: "wf_map m" "wf_map m'" "same_map m m'"
  then have eq: "map_of m = map_of m'" by (simp add: same_map_iff)
  show "hashEntries m (sortedKeys m) = hashEntries m' (sortedKeys m')"
    unfolding sortedKeys_order_irrelevant [OF m(1,2) eq] hashEntries_cong [OF eq] ..
qed

interpretation dnsdist_conf: order_free "DNSDistConfig d"
proof
  fix m m' :: gomap assume "wf_map m" "wf_map m'" "same_map m m'"
  then have eq: "map_of m = map_of m'" by (simp add: same_map_iff)
  have "backendLine m = backendLine m'"
    by (rule ext) (simp only: backendLine_def index_same_map [OF eq])
  then show "DNSDistConfig d m = DNSDistConfig d m'" by (simp only: DNSDistConfig_def)
qed

text \<open>
  C30: The rendered configuration and its hash are functions of the declared maps, not of Go's
  random iteration order: two iteration orders of \<open>spec.extraSettings\<close> give the same
  \<open>pdns.conf\<close> and the same list of rejections, and two iteration orders of the Secrets give
  the same \<open>ConfigHash\<close>, so a pass with nothing to change never rolls the pods.
\<close>

theorem config_order_independent:
  assumes "wf_map m" "wf_map m'" "same_map m m'"
    and "list_all2 (\<lambda>a b. wf_map a \<and> wf_map b \<and> same_map a b) secrets secrets'"
    and "srv_Meta s' = srv_Meta s"
    and "srv_Spec s' = (srv_Spec s)\<lparr>ps_ExtraSettings := m'\<rparr>" "ps_ExtraSettings (srv_Spec s) = m"
  shows "PDNSConfig s' = PDNSConfig s \<and> ValidateExtraSettings m' = ValidateExtraSettings m \<and>
    ConfigHash (PDNSConfig s') secrets' = ConfigHash (PDNSConfig s) secrets"
proof -
  have conf: "PDNSConfig s' = PDNSConfig s"
    using extra.order_free [OF assms(1-3)] assms(6,7)
    by (simp add: PDNSConfig_def apiSpecOrDefault_def)
  have "concat (map (\<lambda>m. hashEntries m (sortedKeys m)) secrets) =
      concat (map (\<lambda>m. hashEntries m (sortedKeys m)) secrets')"
    using assms(4) by (induction rule: list_all2_induct) (auto dest: secret_hash.order_free)
  then have "hashInput c secrets' = hashInput c secrets" for c
    by (simp add: hashInput_def)
  with conf show ?thesis
    using validate.order_free [OF assms(1-3)] by (simp add: ConfigHash_def)
qed

definition demoExtra :: gomap where
  "demoExtra = [(''primary'', ''yes''), (''launch'', ''bind''), (''cache-ttl'', ''20'')]"

definition demoTuned :: "gomap \<Rightarrow> PowerDNSServer" where
  "demoTuned m = \<lparr>srv_Meta = newMeta ''pdns'' ''dns'' [],
     srv_Spec = \<lparr>ps_Replicas = Some 3, ps_Image = [],
       ps_Resources = \<lparr>rr_Requests = None, rr_Limits = None\<rparr>,
       ps_Backend = \<lparr>be_Type = BackendPostgres, be_Postgres = None\<rparr>,
       ps_DNS = \<lparr>dns_Exposure = DNSExposureLoadBalancer, dns_LoadBalancer = Some
         \<lparr>dlb_IP = ''192.0.2.53'', dlb_Annotations = [], dlb_ExternalTrafficPolicy = [],
          dlb_AdditionalServices = [\<lparr>als_NameSuffix = ''-v6'', als_IP = [], als_Annotations = [],
            als_ExternalTrafficPolicy = []\<rparr>]\<rparr>, dns_Gateway = None\<rparr>,
       ps_API = \<lparr>api_Port = 0, api_APIKeySecretRef = None, api_Gateway = None\<rparr>,
       ps_Scheduling = \<lparr>sch_NodeSelector = [], sch_Tolerations = [], sch_PriorityClassName = [],
         sch_SpreadAcrossZones = True\<rparr>,
       ps_PodMonitor = \<lparr>pm_Enabled = False, pm_Interval = [], pm_Labels = []\<rparr>,
       ps_NetworkPolicy = \<lparr>nps_Enabled = True, nps_AdditionalAllowedAPINamespaces = [''team'']\<rparr>,
       ps_AllowedNamespaces = [], ps_PodDisruptionBudget = None, ps_ExtraSettings = m\<rparr>,
     srv_Status = \<lparr>pst_Phase = [], pst_Ready = False, pst_DNSEndpoint = [], pst_APIEndpoint = [],
       pst_APIKeySecretName = [], pst_BackendSecretName = [], pst_SchemaApplied = False,
       pst_DesiredReplicas = 0, pst_ReadyReplicas = 0, pst_ConfigHash = [], pst_Conditions = [],
       pst_FailureMessage = []\<rparr>\<rparr>"

theorem config_order_independent_witness:
  "PDNSConfig (demoTuned (rev demoExtra)) = PDNSConfig (demoTuned demoExtra) \<and>
   ConfigHash (PDNSConfig (demoTuned (rev demoExtra))) [[(''b'', ''2''), (''a'', ''1'')]] =
   ConfigHash (PDNSConfig (demoTuned demoExtra)) [[(''a'', ''1''), (''b'', ''2'')]]"
proof -
  have m: "wf_map demoExtra" "wf_map (rev demoExtra)" "same_map demoExtra (rev demoExtra)"
    by (simp_all add: demoExtra_def wf_map_def same_map_def)
  have sec: "list_all2 (\<lambda>a b. wf_map a \<and> wf_map b \<and> same_map a b)
      [[(''a'', ''1''), (''b'', ''2'')]] [[(''b'', ''2''), (''a'', ''1'')]]"
    by (simp add: wf_map_def same_map_def)
  have "srv_Meta (demoTuned (rev demoExtra)) = srv_Meta (demoTuned demoExtra)"
    "srv_Spec (demoTuned (rev demoExtra)) = (srv_Spec (demoTuned demoExtra))\<lparr>ps_ExtraSettings := rev demoExtra\<rparr>"
    "ps_ExtraSettings (srv_Spec (demoTuned demoExtra)) = demoExtra"
    by (simp_all add: demoTuned_def)
  from config_order_independent [OF m sec this] show ?thesis by blast
qed

section \<open>Reading pdns.conf\<close>

text \<open>
  The file line by line: a line that starts with \<open>#\<close> is a comment, any other line is a setting
  \<open>key=value\<close>, split at the first \<open>=\<close>.
\<close>

fun lines_from :: "string \<Rightarrow> string \<Rightarrow> string list" where
  "lines_from acc [] = (if acc = [] then [] else [rev acc])"
| "lines_from acc (c # cs) =
     (if c = CHR 0x0A then rev acc # lines_from [] cs else lines_from (c # acc) cs)"

definition conf_lines :: "string \<Rightarrow> string list" where
  "conf_lines s = lines_from [] s"

definition setting_of :: "string \<Rightarrow> (string \<times> string) list" where
  "setting_of l =
     (if l = [] \<or> hd l = CHR ''#'' then []
      else [(takeWhile (\<lambda>c. c \<noteq> CHR ''='') l, tl (dropWhile (\<lambda>c. c \<noteq> CHR ''='') l))])"

definition settings :: "string \<Rightarrow> (string \<times> string) list" where
  "settings conf = concat (map setting_of (conf_lines conf))"

definition one_line :: "string \<Rightarrow> bool" where
  "one_line l \<longleftrightarrow> CHR 0x0A \<notin> set l"

lemma lines_from_line: "one_line l \<Longrightarrow> lines_from acc (l @ CHR 0x0A # rest) = (rev acc @ l) # lines_from [] rest"
  by (induction l arbitrary: acc) (auto simp: one_line_def)

lemma conf_lines_line [simp]: "one_line l \<Longrightarrow> conf_lines (l @ nl @ rest) = l # conf_lines rest"
  by (simp add: conf_lines_def nl_def lines_from_line)

lemma conf_lines_concat:
  "list_all one_line ls \<Longrightarrow> conf_lines (concat (map (\<lambda>l. l @ nl) ls) @ rest) = ls @ conf_lines rest"
  by (induction ls) simp_all

lemma conf_lines_Nil [simp]: "conf_lines [] = []"
  by (simp add: conf_lines_def)

text \<open>An accepted entry is one line, and reads back as itself.\<close>

lemma violation_ok_iff:
  "extraSettingViolation k v = [] \<longleftrightarrow> extraSettingKeyPattern k \<and> k \<notin> set reservedSettings \<and>
     \<not> HasPrefix k reservedSettingPrefix \<and> CHR 0x0D \<notin> set v \<and> CHR 0x0A \<notin> set v"
  by (auto simp: extraSettingViolation_def ContainsAny_iff)

lemma keyPattern_chars:
  assumes "extraSettingKeyPattern k" "c \<in> set k"
  shows "keyChar c \<or> c = CHR ''-''"
  using assms by (cases k) (auto simp: extraSettingKeyPattern_def list_all_iff)

lemma keyPattern_facts:
  assumes "extraSettingKeyPattern k"
  shows "k \<noteq> []" "CHR ''='' \<notin> set k" "CHR 0x0A \<notin> set k" "hd k \<noteq> CHR ''#''"
proof -
  show "k \<noteq> []" using assms by (auto simp: extraSettingKeyPattern_def)
  have "\<not> keyChar (CHR ''='')" "\<not> keyChar (CHR 0x0A)" "\<not> keyChar (CHR ''#'')"
    by (simp_all add: keyChar_def)
  with assms show "CHR ''='' \<notin> set k" "CHR 0x0A \<notin> set k" "hd k \<noteq> CHR ''#''"
    by (auto dest: keyPattern_chars) (cases k; auto simp: extraSettingKeyPattern_def)
qed

lemma setting_of_entry:
  assumes "extraSettingViolation k v = []"
  shows "one_line (k @ ''='' @ v)" "setting_of (k @ ''='' @ v) = [(k, v)]"
proof -
  from assms have k: "extraSettingKeyPattern k" and v: "CHR 0x0A \<notin> set v" by (simp_all add: violation_ok_iff)
  note f = keyPattern_facts [OF k]
  show "one_line (k @ ''='' @ v)" using f v by (simp add: one_line_def)
  show "setting_of (k @ ''='' @ v) = [(k, v)]"
    using f by (auto simp: setting_of_def hd_append takeWhile_append dropWhile_append)
qed

definition accepted :: "gomap \<Rightarrow> string list" where
  "accepted extra = filter (\<lambda>k. extraSettingViolation k (index extra k) = []) (sortedKeys extra)"

lemma renderFrom_started:
  "b \<noteq> [] \<Longrightarrow> renderFrom extra ks b =
     b @ concat (map (\<lambda>l. l @ nl) (map (\<lambda>k. k @ ''='' @ index extra k)
       (filter (\<lambda>k. extraSettingViolation k (index extra k) = []) ks)))"
  by (induction ks arbitrary: b) simp_all

lemma renderFrom_empty:
  "renderFrom extra ks [] =
     (let oks = filter (\<lambda>k. extraSettingViolation k (index extra k) = []) ks in
      if oks = [] then [] else
      concat (map (\<lambda>l. l @ nl) (''# spec.extraSettings'' # map (\<lambda>k. k @ ''='' @ index extra k) oks)))"
  by (induction ks) (simp_all add: Let_def renderFrom_started nl_def)

lemma renderExtraSettings_lines:
  "renderExtraSettings extra =
     (if accepted extra = [] then [] else
      concat (map (\<lambda>l. l @ nl) (''# spec.extraSettings'' # map (\<lambda>k. k @ ''='' @ index extra k) (accepted extra))))"
proof (cases extra)
  case Nil
  then show ?thesis by (simp add: renderExtraSettings_def accepted_def sortedKeys_def gm_keys_def)
next
  case Cons
  then show ?thesis by (simp add: renderExtraSettings_def renderFrom_empty Let_def accepted_def)
qed

text \<open>The settings the operator writes itself.\<close>

definition operatorSettings :: "int \<Rightarrow> (string \<times> string) list" where
  "operatorSettings port =
     [(''launch'', ''gpgsql''), (''local-address'', ''0.0.0.0''), (''local-port'', ''53''),
      (''webserver'', ''yes''), (''webserver-address'', ''0.0.0.0''), (''webserver-port'', itoa port),
      (''webserver-allow-from'', ''0.0.0.0/0,::/0''), (''api'', ''yes''),
      (''default-soa-content'', ''@ hostmaster.@ 0 10800 3600 604800 3600''), (''loglevel'', ''4'')]"

lemma digit_neq: "d < 10 \<Longrightarrow> of_char c < (48::nat) \<or> 57 < (of_char c :: nat) \<Longrightarrow> digit d \<noteq> c"
  using of_char_digit [of d] by auto

lemma utoa_free: "of_char c < (48::nat) \<or> 57 < (of_char c :: nat) \<Longrightarrow> c \<notin> set (utoa n)"
  using utoa_chars digit_neq by blast

lemma itoa_one_line: "CHR 0x0A \<notin> set (itoa i)"
  by (simp add: itoa_def utoa_free)

lemma pdnsConfigLines_one_line: "list_all one_line (pdnsConfigLines port)"
  by (simp add: pdnsConfigLines_def one_line_def itoa_one_line em_dash_def dquote_def)

lemma itoa_53: "itoa dnsTCPPort = ''53''"
  by code_simp

lemma settings_of_lines: "concat (map setting_of (pdnsConfigLines port)) = operatorSettings port"
  by (simp add: pdnsConfigLines_def operatorSettings_def setting_of_def itoa_53)

lemma settings_renderExtraSettings:
  "settings (renderExtraSettings m) = map (\<lambda>k. (k, index m k)) (accepted m)"
proof (cases "accepted m = []")
  case False
  have acc: "extraSettingViolation k (index m k) = []" if "k \<in> set (accepted m)" for k
    using that by (simp add: accepted_def)
  let ?ls = "''# spec.extraSettings'' # map (\<lambda>k. k @ ''='' @ index m k) (accepted m)"
  have "list_all one_line (map (\<lambda>k. k @ ''='' @ index m k) (accepted m))"
    using acc setting_of_entry(1) by (auto simp: list_all_iff)
  then have "conf_lines (renderExtraSettings m) = ?ls"
    using False conf_lines_concat [of ?ls "[]"] by (simp add: renderExtraSettings_lines one_line_def)
  moreover have "concat (map setting_of (map (\<lambda>k. k @ ''='' @ index m k) ks)) = map (\<lambda>k. (k, index m k)) ks"
    if "set ks \<subseteq> set (accepted m)" for ks
    using that acc setting_of_entry(2) by (induction ks) auto
  ultimately show ?thesis by (simp add: settings_def setting_of_def)
qed (simp add: renderExtraSettings_lines settings_def)

lemma settings_PDNSConfig:
  "settings (PDNSConfig s) =
     operatorSettings (api_Port (apiSpecOrDefault s)) @ settings (renderExtraSettings (ps_ExtraSettings (srv_Spec s)))"
  by (simp add: PDNSConfig_def settings_def conf_lines_concat [OF pdnsConfigLines_one_line] settings_of_lines)

text \<open>
  C29: What \<open>pdns.conf\<close> says.  Read line by line, the rendered file consists of exactly the
  operator's settings (with the API port of the spec, 8081 by default) followed by the accepted
  entries of \<open>spec.extraSettings\<close> in key order with their declared values: no entry can smuggle
  in another line, and no accepted entry is lost or altered.
\<close>

theorem pdns_conf_settings:
  "settings (PDNSConfig s) =
     operatorSettings (api_Port (apiSpecOrDefault s)) @
     map (\<lambda>k. (k, index (ps_ExtraSettings (srv_Spec s)) k)) (accepted (ps_ExtraSettings (srv_Spec s)))"
  by (simp add: settings_PDNSConfig settings_renderExtraSettings)

text \<open>
  C28: The managed contract cannot be overridden.  Whatever \<open>spec.extraSettings\<close> contains, the
  settings of a reserved key and of every \<open>gpgsql-\<close> key in the rendered file are the
  operator's own (none at all for \<open>api-key\<close> and \<open>gpgsql-\<close> keys), and secrets stay out of the
  file.
\<close>

theorem reserved_settings_protected:
  assumes "k \<in> set reservedSettings \<or> HasPrefix k reservedSettingPrefix"
  shows "filter (\<lambda>(k', v). k' = k) (settings (PDNSConfig s)) =
    filter (\<lambda>(k', v). k' = k) (operatorSettings (api_Port (apiSpecOrDefault s)))"
proof -
  have "k \<notin> set (accepted m)" for m
    using assms by (auto simp: accepted_def violation_ok_iff)
  then have "filter (\<lambda>(k', v). k' = k) (map (\<lambda>k. (k, index m k)) (accepted m)) = []" for m
    by (auto simp: filter_empty_conv)
  then show ?thesis by (simp add: settings_PDNSConfig settings_renderExtraSettings)
qed

theorem reserved_settings_protected_witness:
  "filter (\<lambda>(k', v). k' = ''launch'') (settings (PDNSConfig (demoTuned demoExtra))) = [(''launch'', ''gpgsql'')]"
  using reserved_settings_protected [of "''launch''" "demoTuned demoExtra"]
  by (simp add: reservedSettings_def operatorSettings_def)

lemma violations_filter:
  "violations m ks = map (\<lambda>k. extraSettingViolation k (index m k))
     (filter (\<lambda>k. extraSettingViolation k (index m k) \<noteq> []) ks)"
  by (induction ks) (simp_all add: Let_def)

text \<open>
  Validation and rendering agree: \<open>ValidateExtraSettings\<close> is empty exactly when every
  declared entry is in the rendered file, and otherwise has one message per entry that is left
  out.
\<close>

theorem validation_matches_rendering:
  assumes "wf_map m"
  shows "(ValidateExtraSettings m = [] \<longleftrightarrow>
      settings (renderExtraSettings m) = map (\<lambda>k. (k, index m k)) (sortedKeys m)) \<and>
    length (ValidateExtraSettings m) + length (settings (renderExtraSettings m)) = length m"
proof -
  let ?bad = "\<lambda>k. extraSettingViolation k (index m k) \<noteq> []"
  have v: "ValidateExtraSettings m = map (\<lambda>k. extraSettingViolation k (index m k)) (filter ?bad (sortedKeys m))"
    by (simp add: ValidateExtraSettings_def violations_filter sortedKeys_def gm_keys_def)
  have s: "settings (renderExtraSettings m) = map (\<lambda>k. (k, index m k)) (accepted m)"
    by (rule settings_renderExtraSettings)
  have len: "length (filter ?bad (sortedKeys m)) + length (accepted m) = length m"
    using sum_length_filter_compl [of ?bad "sortedKeys m"]
    by (simp add: accepted_def sortedKeys_def gm_keys_def)
  have "accepted m = sortedKeys m \<longleftrightarrow> filter ?bad (sortedKeys m) = []"
    by (auto simp: accepted_def filter_empty_conv filter_id_conv)
  moreover have "map (\<lambda>k. (k, index m k)) xs = map (\<lambda>k. (k, index m k)) ys \<longleftrightarrow> xs = ys" for xs ys
    by (rule inj_map_eq_map) (simp add: inj_on_def)
  ultimately show ?thesis using len by (simp add: v s)
qed

theorem validation_matches_rendering_witness:
  "length (ValidateExtraSettings demoExtra) + length (settings (renderExtraSettings demoExtra)) = 3"
  using validation_matches_rendering [of demoExtra] by (simp add: demoExtra_def wf_map_def)

section \<open>What the configuration hash covers\<close>

text \<open>Keys of a Secret are free of NUL and newline, its values free of NUL.\<close>

definition plain_secret :: "gomap \<Rightarrow> bool" where
  "plain_secret s \<longleftrightarrow> wf_map s \<and>
     (\<forall>(k, v) \<in> set s. nul \<notin> set k \<and> CHR 0x0A \<notin> set k \<and> nul \<notin> set v)"

definition entries :: "gomap list \<Rightarrow> (string \<times> string) list" where
  "entries secrets = concat (map (\<lambda>s. map (\<lambda>k. (k, index s k)) (sortedKeys s)) secrets)"

fun written :: "(string \<times> string) list \<Rightarrow> string" where
  "written [] = []"
| "written ((k, v) # es) = k @ [nul] @ v @ [nul] @ written es"

lemma written_append: "written (a @ b) = written a @ written b"
  by (induction a rule: written.induct) simp_all

lemma hashEntries_written: "hashEntries s ks = written (map (\<lambda>k. (k, index s k)) ks)"
  by (induction ks) simp_all

lemma hashInput_written: "hashInput conf secrets = conf @ written (entries secrets)"
  by (induction secrets) (simp_all add: hashInput_def entries_def hashEntries_written written_append)

lemma takeWhile_stop: "x \<notin> set a \<Longrightarrow> takeWhile (\<lambda>c. c \<noteq> x) (a @ x # r) = a"
  by (induction a) auto

lemma written_inject:
  assumes "\<forall>(k, v) \<in> set es \<union> set es'. nul \<notin> set k \<and> nul \<notin> set v" "written es = written es'"
  shows "es = es'"
  using assms
proof (induction es arbitrary: es' rule: written.induct)
  case 1
  then show ?case by (cases es' rule: written.cases) auto
next
  case (2 k v es)
  then obtain k' v' r where es': "es' = (k', v') # r" by (cases es' rule: written.cases) auto
  from 2(2) es' have nn: "nul \<notin> set k" "nul \<notin> set k'" "nul \<notin> set v" "nul \<notin> set v'" by auto
  from 2(3) es' have eq: "k @ nul # v @ nul # written es = k' @ nul # v' @ nul # written r" by simp
  from takeWhile_stop [OF nn(1)] takeWhile_stop [OF nn(2)] eq have "k = k'" by metis
  with eq have eq': "v @ nul # written es = v' @ nul # written r" by simp
  from takeWhile_stop [OF nn(3)] takeWhile_stop [OF nn(4)] eq' have "v = v'" by metis
  with eq' have "written es = written r" by simp
  with 2 es' \<open>k = k'\<close> \<open>v = v'\<close> show ?case by auto
qed

lemma entries_plain:
  assumes "\<forall>s \<in> set secrets. plain_secret s" "(k, v) \<in> set (entries secrets)"
  shows "nul \<notin> set k \<and> CHR 0x0A \<notin> set k \<and> nul \<notin> set v"
proof -
  from assms(2) obtain s where s: "s \<in> set secrets" "k \<in> fst ` set s" "v = index s k"
    by (auto simp: entries_def)
  with assms(1) have "plain_secret s" by blast
  with s(2) obtain w where "(k, w) \<in> set s" by auto
  with \<open>plain_secret s\<close> s(3) show ?thesis by (auto simp: plain_secret_def index_mem)
qed

text \<open>The configuration part of the hashed bytes, recovered from them.\<close>

definition conf_part :: "string \<Rightarrow> string" where
  "conf_part s = rev (dropWhile (\<lambda>c. c \<noteq> CHR 0x0A) (rev (takeWhile (\<lambda>c. c \<noteq> nul) s)))"

lemma dropWhile_stop: "x \<notin> set a \<Longrightarrow> dropWhile (\<lambda>c. c \<noteq> x) (a @ x # r) = x # r"
  by (induction a) auto

lemma conf_part_hashInput:
  assumes "conf = c @ nl" "nul \<notin> set conf" "\<forall>s \<in> set secrets. plain_secret s"
  shows "conf_part (hashInput conf secrets) = conf"
proof (cases "entries secrets")
  case Nil
  have "takeWhile (\<lambda>c. c \<noteq> nul) conf = conf" using assms(2) by (auto simp: takeWhile_eq_all_conv)
  with Nil assms(1) show ?thesis by (simp add: conf_part_def hashInput_written nl_def)
next
  case (Cons e es)
  obtain k v where e: "e = (k, v)" by (cases e)
  from entries_plain [OF assms(3), of k v] Cons e have k: "nul \<notin> set k" "CHR 0x0A \<notin> set k" by simp_all
  have "takeWhile (\<lambda>c. c \<noteq> nul) (hashInput conf secrets) = conf @ k"
    using takeWhile_stop [of nul "conf @ k"] k(1) assms(2) Cons e by (simp add: hashInput_written)
  then show ?thesis
    using dropWhile_stop [of "CHR 0x0A" "rev k" "rev c"] k(2) assms(1) by (simp add: conf_part_def nl_def)
qed

text \<open>
  The configuration hash covers everything that is mounted or injected.  For NUL-free
  configurations that end in a newline (as rendered ones do) and Secrets whose keys hold
  neither NUL nor newline and whose values hold no NUL, the hashed bytes determine the
  configuration and the sequence of all entries of the Secrets: two inputs that differ in any
  of them are hashed differently up to collisions of SHA-256 cut to 16 hexadecimal digits.
\<close>

theorem hash_covers_inputs:
  assumes "conf = c @ nl" "nul \<notin> set conf" "\<forall>s \<in> set secrets. plain_secret s"
    and "conf' = c' @ nl" "nul \<notin> set conf'" "\<forall>s \<in> set secrets'. plain_secret s"
    and "hashInput conf secrets = hashInput conf' secrets'"
  shows "conf = conf' \<and> entries secrets = entries secrets' \<and> length (ConfigHash conf secrets) = 16"
proof -
  from conf_part_hashInput [OF assms(1-3)] conf_part_hashInput [OF assms(4-6)] assms(7)
  have c: "conf = conf'" by simp
  with assms(7) have "written (entries secrets) = written (entries secrets')"
    by (simp add: hashInput_written)
  moreover have "\<forall>(k, v) \<in> set (entries secrets) \<union> set (entries secrets'). nul \<notin> set k \<and> nul \<notin> set v"
    using entries_plain [OF assms(3)] entries_plain [OF assms(6)] by auto
  ultimately have "entries secrets = entries secrets'" using written_inject by blast
  with c show ?thesis by (simp add: ConfigHash_def)
qed

theorem hash_covers_inputs_witness:
  "length (ConfigHash (''a=b'' @ nl) [[(''api-key'', ''k3y'')]]) = 16"
proof -
  have "nul \<notin> set (''a=b'' @ nl)" "\<forall>s \<in> set [[(''api-key'', ''k3y'')]]. plain_secret s"
    by (simp_all add: nul_def nl_def plain_secret_def wf_map_def)
  from hash_covers_inputs [OF refl this refl this refl] show ?thesis by simp
qed

section \<open>Services, policies and pods fit together\<close>

text \<open>A label selector selects an object with the given labels.\<close>

definition selects :: "gomap \<Rightarrow> gomap \<Rightarrow> bool" where
  "selects sel lbls \<longleftrightarrow> list_all (\<lambda>(k, v). map_of lbls k = Some v) sel"

text \<open>A Service reaches the pods of a template: it selects them and its ports are open there.\<close>

definition reaches :: "Service \<Rightarrow> Deployment \<Rightarrow> bool" where
  "reaches svc dep \<longleftrightarrow>
     om_Namespace (svc_Meta svc) = om_Namespace (dep_Meta dep) \<and>
     selects (ss_Selector (svc_Spec svc)) (pt_Labels (dps_Template (dep_Spec dep))) \<and>
     list_all (\<lambda>p. list_ex (\<lambda>c. list_ex (\<lambda>cp. cp_ContainerPort cp = sp_TargetPort p \<and>
         cp_Protocol cp = sp_Protocol p) (ct_Ports c))
       (pod_Containers (pt_Spec (dps_Template (dep_Spec dep))))) (ss_Ports (svc_Spec svc))"

lemma spreadPods_containers [simp]: "pod_Containers (spreadPods lb n z p) = pod_Containers p"
  by (simp add: spreadPods_def)

lemma schedulePods_containers [simp]: "pod_Containers (schedulePods sch p) = pod_Containers p"
  by (simp add: schedulePods_def Let_def)

lemma setLB_keeps [simp]:
  "ss_Selector (svc_Spec (setLB ip an pol svc)) = ss_Selector (svc_Spec svc)"
  "ss_Ports (svc_Spec (setLB ip an pol svc)) = ss_Ports (svc_Spec svc)"
  "om_Namespace (svc_Meta (setLB ip an pol svc)) = om_Namespace (svc_Meta svc)"
  "om_Name (svc_Meta (setLB ip an pol svc)) = om_Name (svc_Meta svc)"
  "om_Labels (svc_Meta (setLB ip an pol svc)) = om_Labels (svc_Meta svc)"
  by (simp_all add: setLB_def Let_def)

lemma applyLBPrimary_keeps [simp]:
  "ss_Selector (svc_Spec (applyLBPrimary svc lb)) = ss_Selector (svc_Spec svc)"
  "ss_Ports (svc_Spec (applyLBPrimary svc lb)) = ss_Ports (svc_Spec svc)"
  "om_Namespace (svc_Meta (applyLBPrimary svc lb)) = om_Namespace (svc_Meta svc)"
  "om_Name (svc_Meta (applyLBPrimary svc lb)) = om_Name (svc_Meta svc)"
  by (cases lb; simp add: applyLBPrimary_def)+

lemma setType_keeps [simp]:
  "ss_Selector (svc_Spec (setType ty svc)) = ss_Selector (svc_Spec svc)"
  "ss_Ports (svc_Spec (setType ty svc)) = ss_Ports (svc_Spec svc)" "svc_Meta (setType ty svc) = svc_Meta svc"
  by (simp_all add: setType_def)

lemma selects_labels [simp]: "selects (labels s) (labels s)" "selects (dnsdistLabels d) (dnsdistLabels d)"
  by (simp_all add: selects_def labels_def dnsdistLabels_def label_defs)

lemma newMeta_sel [simp]:
  "om_Name (newMeta n ns ls) = n" "om_Namespace (newMeta n ns ls) = ns" "om_Labels (newMeta n ns ls) = ls"
  by (simp_all add: newMeta_def)

lemma DNSService_keeps:
  "ss_Selector (svc_Spec (DNSService s)) = labels s"
  "ss_Ports (svc_Spec (DNSService s)) = [svcPort ''dns-tcp'' dnsTCPPort ''TCP'', svcPort ''dns-udp'' dnsUDPPort ''UDP'']"
  "om_Namespace (svc_Meta (DNSService s)) = om_Namespace (srv_Meta s)"
  by (simp_all add: DNSService_def Let_def baseDNSService_def)

text \<open>
  C31: The rendered objects of a server fit together.  The API Service, the DNS Service and
  every additional DNS Service live in the Deployment's namespace, select the pods the
  Deployment creates, and each of their ports is, with its protocol, a port of the container;
  the Deployment's own selector, the disruption budget and the network policy select those
  pods too.
\<close>

theorem server_services_reach_pods:
  "reaches (APIService s) (Deployment s h) \<and> reaches (DNSService s) (Deployment s h) \<and>
   list_all (\<lambda>svc. reaches svc (Deployment s h)) (AdditionalDNSServices s) \<and>
   selects (dps_Selector (dep_Spec (Deployment s h))) (pt_Labels (dps_Template (dep_Spec (Deployment s h)))) \<and>
   selects (np_PodSelector (NetworkPolicy s)) (pt_Labels (dps_Template (dep_Spec (Deployment s h)))) \<and>
   (case PodDisruptionBudget s of None \<Rightarrow> True
    | Some pdb \<Rightarrow> selects (pdb_Selector pdb) (pt_Labels (dps_Template (dep_Spec (Deployment s h)))))"
proof -
  have d: "pt_Labels (dps_Template (dep_Spec (Deployment s h))) = labels s"
    "dps_Selector (dep_Spec (Deployment s h)) = labels s"
    "pod_Containers (pt_Spec (dps_Template (dep_Spec (Deployment s h)))) = [serverContainer s]"
    "om_Namespace (dep_Meta (Deployment s h)) = om_Namespace (srv_Meta s)"
    by (simp_all add: Deployment_def Let_def)
  have ports: "ct_Ports (serverContainer s) =
     [\<lparr>cp_Name = ''dns-tcp'', cp_ContainerPort = dnsTCPPort, cp_Protocol = ''TCP''\<rparr>,
      \<lparr>cp_Name = ''dns-udp'', cp_ContainerPort = dnsUDPPort, cp_Protocol = ''UDP''\<rparr>,
      \<lparr>cp_Name = ''api'', cp_ContainerPort = api_Port (apiSpecOrDefault s), cp_Protocol = ''TCP''\<rparr>]"
    by (simp add: serverContainer_def Let_def)
  have "reaches (APIService s) (Deployment s h)"
    by (simp add: reaches_def d ports APIService_def svcPort_def)
  moreover have "reaches (DNSService s) (Deployment s h)"
    by (simp add: reaches_def d ports DNSService_keeps svcPort_def)
  moreover have "reaches (additionalDNSService s x) (Deployment s h)" for x
    by (simp add: reaches_def d ports additionalDNSService_def baseDNSService_def svcPort_def)
  then have "list_all (\<lambda>svc. reaches svc (Deployment s h)) (AdditionalDNSServices s)"
    by (auto simp: AdditionalDNSServices_def Let_def list_all_iff split: option.splits)
  moreover have "case PodDisruptionBudget s of None \<Rightarrow> True | Some pdb \<Rightarrow> selects (pdb_Selector pdb) (labels s)"
    by (simp add: PodDisruptionBudget_def pdbFor_def Let_def)
  ultimately show ?thesis unfolding d by (simp add: NetworkPolicy_def Let_def)
qed

text \<open>
  Whether a policy admits traffic from a namespace to a port: a rule without peers admits
  every source, a peer admits the namespaces whose labels it selects; a namespace carries its
  name as the label \<open>kubernetes.io/metadata.name\<close>.
\<close>

definition admits :: "NetworkPolicy \<Rightarrow> string \<Rightarrow> string \<times> int \<Rightarrow> bool" where
  "admits np ns port \<longleftrightarrow> list_ex (\<lambda>rule. port \<in> set (npi_Ports rule) \<and>
     (npi_From rule = [] \<or> list_ex (\<lambda>peer. selects peer [(''kubernetes.io/metadata.name'', ns)]) (npi_From rule)))
     (np_Ingress np)"

text \<open>
  C32: The network policy is default-deny: DNS (53/tcp and 53/udp) is open to everyone, the API
  port is open exactly to the server's own namespace and the namespaces listed in the spec,
  and no other port is open to anyone.  (The API port must not be 53.)
\<close>

theorem network_policy_exact:
  assumes "api_Port (apiSpecOrDefault s) \<noteq> 53"
  shows "admits (NetworkPolicy s) ns (proto, port) \<longleftrightarrow>
    port = 53 \<and> proto \<in> {''TCP'', ''UDP''} \<or>
    port = api_Port (apiSpecOrDefault s) \<and> proto = ''TCP'' \<and>
      (ns = om_Namespace (srv_Meta s) \<or>
       ns \<in> set (nps_AdditionalAllowedAPINamespaces (ps_NetworkPolicy (srv_Spec s))))"
proof -
  have peer: "selects (nsPeer a) [(''kubernetes.io/metadata.name'', ns)] \<longleftrightarrow> a = ns" for a
    by (auto simp: selects_def nsPeer_def)
  have "list_ex (\<lambda>peer. selects peer [(''kubernetes.io/metadata.name'', ns)]) (map nsPeer xs) \<longleftrightarrow> ns \<in> set xs" for xs
    by (induction xs) (auto simp: peer)
  with assms show ?thesis
    by (auto simp: admits_def NetworkPolicy_def Let_def dnsTCPPort_def peer)
qed

theorem network_policy_exact_witness:
  "admits (NetworkPolicy (demoTuned [])) ''team'' (''TCP'', 8081) \<and>
   \<not> admits (NetworkPolicy (demoTuned [])) ''other'' (''TCP'', 8081)"
proof -
  have "api_Port (apiSpecOrDefault (demoTuned [])) = 8081" by code_simp
  moreover have "nps_AdditionalAllowedAPINamespaces (ps_NetworkPolicy (srv_Spec (demoTuned []))) = [''team'']"
    "om_Namespace (srv_Meta (demoTuned [])) = ''dns''" by (simp_all add: demoTuned_def newMeta_def)
  ultimately show ?thesis using network_policy_exact [of "demoTuned []"] by simp
qed

text \<open>
  The kubelet expands \<open>$(VAR)\<close> in a value from the variables before it, and in an argument from
  all variables.
\<close>

definition env_resolved :: "EnvVar list \<Rightarrow> bool" where
  "env_resolved env \<longleftrightarrow> list_all (\<lambda>i. env_SecretKeyRef (env ! i) \<noteq> None \<or>
     list_ex (\<lambda>e. env_Value (env ! i) = varRef (env_Name e) \<and> env_SecretKeyRef e \<noteq> None) (take i env))
     [0..<length env]"

definition arg_resolved :: "EnvVar list \<Rightarrow> string \<Rightarrow> bool" where
  "arg_resolved env arg \<longleftrightarrow> \<not> Contains arg ''$('' \<or>
     list_ex (\<lambda>e. HasSuffix arg (''='' @ varRef (env_Name e))) env"


end
