(* ===== verification/Converge.thy ===== *)
theory Converge
  imports Controller_Common
begin

text \<open>
  \<open>internal/controller/converge.go\<close>: bringing a live Service or ConfigMap to its rendered
  form, and deleting an object that may not exist.

  \<open>updateService_attempt\<close> is the function handed to \<open>retry.RetryOnConflict\<close>, and
  \<open>mergedService\<close> the object it computes from the live and the desired Service.  The locale
  \<open>upsert\<close> is the contract of such an attempt: it reads one object, and ends well only after
  creating a settled object, finding a settled one, or storing a settled one made from what it
  read.
\<close>

section \<open>Definitions\<close>

definition servicePortsMatch :: "ServicePort \<Rightarrow> ServicePort \<Rightarrow> bool" where
  "servicePortsMatch a b =
     (if sp_Name a \<noteq> [] \<or> sp_Name b \<noteq> [] then sp_Name a = sp_Name b
      else sp_Port a = sp_Port b \<and> sp_Protocol a = sp_Protocol b)"

text \<open>The inner loop over the live ports, which stops at the first match.\<close>

fun takeNodePort :: "ServicePort list \<Rightarrow> ServicePort \<Rightarrow> ServicePort" where
  "takeNodePort [] p = p"
| "takeNodePort (ep # eps) p =
     (if servicePortsMatch ep p then p\<lparr>sp_NodePort := sp_NodePort ep\<rparr> else takeNodePort eps p)"

definition keepNodePort :: "ServicePort list \<Rightarrow> ServicePort \<Rightarrow> ServicePort" where
  "keepNodePort live p = (if sp_NodePort p \<noteq> 0 then p else takeNodePort live p)"

definition hasNodePorts :: "string \<Rightarrow> bool" where
  "hasNodePorts ty \<longleftrightarrow> ty = ''LoadBalancer'' \<or> ty = ''NodePort''"

definition mergedPorts :: "ServiceSpec \<Rightarrow> ServiceSpec \<Rightarrow> ServicePort list" where
  "mergedPorts live want =
     (if hasNodePorts (ss_Type want) then map (keepNodePort (ss_Ports live)) (ss_Ports want)
      else ss_Ports want)"

definition mergedService :: "Service \<Rightarrow> Service \<Rightarrow> Service" where
  "mergedService existing desired = existing\<lparr>
     svc_Meta := (svc_Meta existing)\<lparr>om_Annotations :=
       putAll (om_Annotations (svc_Meta existing)) (om_Annotations (svc_Meta desired))\<rparr>,
     svc_Spec := (svc_Spec existing)\<lparr>
       ss_Ports := mergedPorts (svc_Spec existing) (svc_Spec desired),
       ss_Type := ss_Type (svc_Spec desired),
       ss_Selector := ss_Selector (svc_Spec desired),
       ss_LoadBalancerIP := ss_LoadBalancerIP (svc_Spec desired),
       ss_ExternalTrafficPolicy := ss_ExternalTrafficPolicy (svc_Spec desired)\<rparr>\<rparr>"

definition unchanged :: "ext \<Rightarrow> Service \<Rightarrow> Service \<Rightarrow> bool" where
  "unchanged X existing updated \<longleftrightarrow>
     SpecDeepEqual X (svc_Spec existing) (svc_Spec updated) \<and>
     MapDeepEqual X (om_Annotations (svc_Meta existing)) (om_Annotations (svc_Meta updated))"

definition svc_key :: "Service \<Rightarrow> NamespacedName" where
  "svc_key svc = (om_Namespace (svc_Meta svc), om_Name (svc_Meta svc))"

definition updateService_attempt :: "ext \<Rightarrow> Service \<Rightarrow> (error + unit) kio" where
  "updateService_attempt X desired =
     andThen (ask (KGet KService (svc_key desired)) respService) (\<lambda>r. case r of
       Inl e \<Rightarrow> if err_kind e = KubeNotFound then ask (KCreate (ObjService desired)) respUnit
                else Return (Inl e)
     | Inr existing \<Rightarrow>
         (let updated = mergedService existing desired in
          if unchanged X existing updated then Return (Inr ())
          else ask (KUpdate (ObjService updated)) respUnit))"

definition updateService :: "ext \<Rightarrow> Service \<Rightarrow> (error + unit) kio" where
  "updateService X desired = RetryOnConflict X (updateService_attempt X desired)"

text \<open>\<open>client.IgnoreNotFound\<close> on a call without a result.\<close>

definition ignoreMissing :: "error + unit \<Rightarrow> error + unit" where
  "ignoreMissing r = (case r of
     Inl e \<Rightarrow> if err_kind e = KubeNotFound then Inr () else Inl e | Inr u \<Rightarrow> Inr u)"

definition deleteIfExists :: "kind \<Rightarrow> NamespacedName \<Rightarrow> (error + unit) kio" where
  "deleteIfExists k key =
     andThen (ask (KGet k key) respUnit) (\<lambda>r. case r of
       Inl e \<Rightarrow> if err_kind e = KubeNoMatch then Return (Inr ()) else Return (ignoreMissing (Inl e))
     | Inr _ \<Rightarrow> ask (KDelete k key) (\<lambda>r. ignoreMissing (respUnit r)))"

definition cm_key :: "ConfigMap \<Rightarrow> NamespacedName" where
  "cm_key cm = (om_Namespace (cm_Meta cm), om_Name (cm_Meta cm))"

definition storeConfigMap :: "ConfigMap \<Rightarrow> (error + unit) kio" where
  "storeConfigMap desired =
     tryIO (ask (KGet KConfigMap (cm_key desired)) respConfigMap) (\<lambda>existing.
       ask (KUpdate (ObjConfigMap (existing\<lparr>cm_Data := cm_Data desired\<rparr>))) respUnit)"

definition updateConfigMap :: "ext \<Rightarrow> ConfigMap \<Rightarrow> (error + unit) kio \<Rightarrow> (error + unit) kio" where
  "updateConfigMap X desired createFn =
     andThen (ask (KGet KConfigMap (cm_key desired)) respConfigMap) (\<lambda>r. case r of
       Inl e \<Rightarrow> if err_kind e = KubeNotFound then createFn else Return (Inl e)
     | Inr existing \<Rightarrow>
         if MapDeepEqual X (cm_Data existing) (cm_Data desired) then Return (Inr ())
         else RetryOnConflict X (storeConfigMap desired))"

text \<open>\<open>ctrl.SetControllerReference(owner, obj, scheme)\<close> on an object in hand.\<close>

definition setOwner :: "ext \<Rightarrow> OwnerRef \<Rightarrow> string \<Rightarrow> kobj \<Rightarrow> error + kobj" where
  "setOwner X ow ns x = (case SetControllerReference X ow ns (obj_meta x) of
     Inl e \<Rightarrow> Inl e | Inr m \<Rightarrow> Inr (set_meta m x))"

definition ownedService :: "ext \<Rightarrow> OwnerRef \<Rightarrow> string \<Rightarrow> Service \<Rightarrow> error + Service" where
  "ownedService X ow ns svc = (case SetControllerReference X ow ns (svc_Meta svc) of
     Inl e \<Rightarrow> Inl e | Inr m \<Rightarrow> Inr (svc\<lparr>svc_Meta := m\<rparr>))"

definition serverRef :: "PowerDNSServer \<Rightarrow> OwnerRef" where
  "serverRef s = \<lparr>own_Kind = ''PowerDNSServer'', own_Name = om_Name (srv_Meta s)\<rparr>"

definition dnsdistRef :: "DNSDist \<Rightarrow> OwnerRef" where
  "dnsdistRef d = \<lparr>own_Kind = ''DNSDist'', own_Name = om_Name (dd_Meta d)\<rparr>"

text \<open>The method \<open>PowerDNSServerReconciler.updateService\<close>.\<close>

definition server_updateService :: "ext \<Rightarrow> PowerDNSServer \<Rightarrow> Service \<Rightarrow> (error + unit) kio" where
  "server_updateService X s desired =
     (case ownedService X (serverRef s) (om_Namespace (srv_Meta s)) desired of
        Inl e \<Rightarrow> Return (Inl e)
      | Inr svc \<Rightarrow> updateService X svc)"

section \<open>Shared by the server and the DNSDist reconciler\<close>

text \<open>
  The loop over the listed additional Services: those that are no longer desired are deleted,
  one that is already gone is not an error.
\<close>

definition collectServices :: "string list \<Rightarrow> Service list \<Rightarrow> (error + unit) kio" where
  "collectServices desiredNames existing = forIO (\<lambda>svc.
     if om_Name (svc_Meta svc) \<in> set desiredNames then Return (Inr ())
     else ask (KDelete KService (svc_key svc)) (\<lambda>r. ignoreMissing (respUnit r))) existing"

definition roleLabel :: string where
  "roleLabel = ''dns.aetherplatform.cloud/role''"

definition additionalRole :: string where
  "additionalRole = ''additional-dns''"

text \<open>\<open><namespace>/<name>\<close> of every parent gateway, the object's namespace by default.\<close>

definition gatewayParents :: "string \<Rightarrow> DNSGatewaySpec \<Rightarrow> string list" where
  "gatewayParents localNS gw = map (\<lambda>p.
     (let ns = (if gp_Namespace p = [] then localNS else gp_Namespace p) in ns @ ''/'' @ gp_Name p))
     (dgw_ParentRefs gw)"

definition gatewayEndpoint :: "string \<Rightarrow> DNSGatewaySpec \<Rightarrow> string" where
  "gatewayEndpoint localNS gw = ''gateway:'' @ join '','' (gatewayParents localNS gw)"

text \<open>The first usable ingress address of a load balancer, \<open>""\<close> if there is none.\<close>

fun ingressAddr :: "LoadBalancerIngress list \<Rightarrow> string" where
  "ingressAddr [] = []"
| "ingressAddr (ing # ings) =
     (if lbi_IP ing \<noteq> [] then lbi_IP ing
      else if lbi_Hostname ing \<noteq> [] then lbi_Hostname ing
      else ingressAddr ings)"

definition ingressEndpoint :: "LoadBalancerIngress list \<Rightarrow> string" where
  "ingressEndpoint ings = (let ip = ingressAddr ings in if ip = [] then [] else ip @ '':53'')"

text \<open>\<open>controllerutil.CreateOrUpdate\<close> with an owner: the object as the mutate function leaves it.\<close>

definition withOwner :: "OwnerRef \<Rightarrow> kobj \<Rightarrow> kobj" where
  "withOwner ow x = set_meta ((obj_meta x)\<lparr>om_Owner := Some ow\<rparr>) x"

definition upsertOwned :: "OwnerRef \<Rightarrow> kobj \<Rightarrow> (error + unit) kio" where
  "upsertOwned ow x = ask (KCreateOrUpdate (withOwner ow x)) respUnit"

definition crdMissing :: "string \<Rightarrow> string \<Rightarrow> error \<Rightarrow> error" where
  "crdMissing what hint e =
     (if err_kind e = KubeNoMatch then wrapErr (''ensure '' @ what @ '': '' @ hint) e
      else wrapErr (''ensure '' @ what) e)"

text \<open>Validation and status that both reconcilers spell out alike.\<close>

definition pdbTooHigh :: "PDBSpec option \<Rightarrow> int \<Rightarrow> bool" where
  "pdbTooHigh pdb replicas = (case pdb of
     None \<Rightarrow> False
   | Some b \<Rightarrow> (case pdbs_MinAvailable b of None \<Rightarrow> False | Some m \<Rightarrow> replicas > 1 \<and> m \<ge> replicas))"

definition pdbMin :: "PDBSpec option \<Rightarrow> int" where
  "pdbMin pdb = (case pdb of None \<Rightarrow> 0 | Some b \<Rightarrow> (case pdbs_MinAvailable b of None \<Rightarrow> 0 | Some m \<Rightarrow> m))"

definition pdbMsg :: "PDBSpec option \<Rightarrow> int \<Rightarrow> string" where
  "pdbMsg pdb replicas = ''podDisruptionBudget.minAvailable ('' @ itoa (pdbMin pdb) @
     '') must be < replicas ('' @ itoa replicas @ '')''"

definition gatewayUnset :: "DNSSpec \<Rightarrow> bool" where
  "gatewayUnset dns \<longleftrightarrow> dns_Exposure dns = DNSExposureGateway \<and>
     (case dns_Gateway dns of None \<Rightarrow> True | Some gw \<Rightarrow> dgw_ParentRefs gw = [])"

definition gatewayUnsetMsg :: string where
  "gatewayUnsetMsg = ''dns.exposure=gateway requires dns.gateway.parentRefs (at least one)''"

definition liveReplicas :: "Deployment \<Rightarrow> int" where
  "liveReplicas dep = (case dps_Replicas (dep_Spec dep) of None \<Rightarrow> 1 | Some n \<Rightarrow> n)"

definition available :: "Deployment \<Rightarrow> bool" where
  "available dep \<longleftrightarrow> dep_AvailableReplicas dep = liveReplicas dep \<and> liveReplicas dep > 0"

definition replicasMsg :: "Deployment \<Rightarrow> string" where
  "replicasMsg dep = itoa (dep_AvailableReplicas dep) @ ''/'' @ itoa (liveReplicas dep) @ '' replicas available''"

end
