(* ===== verification/Converge_Correct.thy ===== *)
theory Converge_Correct
  imports Converge Manifests_Correct
begin

text \<open>
  What \<open>converge.go\<close> promises: a Service that \<open>updateService\<close> reports as converged has the
  declared shape, an update keeps what other controllers put on it, and a converged Service is
  never written again.
\<close>

section \<open>The contract of an attempt\<close>

inductive upsert_run ::
  "kind \<Rightarrow> NamespacedName \<Rightarrow> (kobj \<Rightarrow> bool) \<Rightarrow> (kobj \<Rightarrow> kobj \<Rightarrow> bool) \<Rightarrow> event list \<Rightarrow> error + unit \<Rightarrow> bool"
  for k key settled derived where
  created: "settled x \<Longrightarrow> obj_key x = key \<Longrightarrow> err_kind e = KubeNotFound \<Longrightarrow>
    upsert_run k key settled derived [(KGet k key, RErr e), (KCreate x, r)] (respUnit r)"
| idle: "settled x \<Longrightarrow> upsert_run k key settled derived [(KGet k key, RObj x)] (Inr ())"
| updated: "settled y \<Longrightarrow> derived x y \<Longrightarrow>
    upsert_run k key settled derived [(KGet k key, RObj x), (KUpdate y, r)] (respUnit r)"
| failed: "upsert_run k key settled derived [(KGet k key, r)] (Inl e)"

inductive_cases upsert_run_okE: "upsert_run k key settled derived tr (Inr ())"

text \<open>
  \<open>settled\<close>: the object is as declared; \<open>derived x y\<close>: \<open>y\<close> is \<open>x\<close> with the declared
  parts replaced.
\<close>

locale upsert =
  fixes X :: ext
    and attempt :: "(error + unit) kio"
    and k :: kind
    and key :: NamespacedName
    and settled :: "kobj \<Rightarrow> bool"
    and derived :: "kobj \<Rightarrow> kobj \<Rightarrow> bool"
  assumes attempt_run: "equality_laws X \<Longrightarrow> exec attempt tr x \<Longrightarrow> upsert_run k key settled derived tr x"
begin

lemma ok_settled:
  assumes "equality_laws X" "exec attempt tr (Inr ())"
  obtains (create) x e r where "tr = [(KGet k key, RErr e), (KCreate x, r)]" "settled x"
      "obj_key x = key" "err_kind e = KubeNotFound"
  | (found) x where "tr = [(KGet k key, RObj x)]" "settled x"
  | (update) x y r where "tr = [(KGet k key, RObj x), (KUpdate y, r)]" "settled y" "derived x y"
  using attempt_run [OF assms] by (rule upsert_run_okE) (auto intro: create found update)

lemma writes_settled:
  assumes "equality_laws X" "exec attempt tr x" "(q, r) \<in> set tr" "is_kube_write q"
  shows "\<exists>y. settled y \<and> (q = KCreate y \<and> obj_key y = key \<or> q = KUpdate y)"
  using attempt_run [OF assms(1,2)] assms(3,4) by cases auto

lemma retried_ok:
  assumes "equality_laws X" "retry_laws X" "exec (RetryOnConflict X attempt) tr (Inr ())"
  obtains t1 t2 where "tr = t1 @ t2" "exec attempt t2 (Inr ())"
  using assms attempts_result unfolding retry_laws_def by blast

lemma retried_writes:
  assumes eq: "equality_laws X" and "retry_laws X" "exec (RetryOnConflict X attempt) tr x"
    and mem: "(q, r) \<in> set tr" "is_kube_write q"
  shows "\<exists>y. settled y \<and> (q = KCreate y \<and> obj_key y = key \<or> q = KUpdate y)"
proof -
  from assms(2,3) have "attempts attempt tr x" by (simp add: retry_laws_def)
  then show ?thesis using mem
    by (induction rule: attempts.induct) (auto dest: writes_settled [OF eq])
qed

end

lemma calls_only_retry:
  "retry_laws X \<Longrightarrow> calls_only P p \<Longrightarrow> calls_only P (RetryOnConflict X p)"
  by (rule calls_onlyI) (auto simp: retry_laws_def dest: attempts_mem)

lemma calls_only_updateService:
  assumes "retry_laws X" "P (KGet KService (svc_key svc))" "P (KCreate (ObjService svc))"
    and "\<And>live. P (KUpdate (ObjService (mergedService live svc)))"
  shows "calls_only P (updateService X svc)"
  unfolding updateService_def
  by (rule calls_only_retry [OF assms(1)])
    (use assms(2-) in \<open>auto simp: updateService_attempt_def Let_def intro!: calls_intros split: sum.split\<close>)

lemma calls_only_deleteIfExists [calls_intros]:
  "P (KGet k key) \<Longrightarrow> P (KDelete k key) \<Longrightarrow> calls_only P (deleteIfExists k key)"
  by (auto simp: deleteIfExists_def intro!: calls_intros split: sum.split)

lemma calls_only_collectServices [calls_intros]:
  "(\<And>svc. svc \<in> set existing \<Longrightarrow> om_Name (svc_Meta svc) \<notin> set desiredNames \<Longrightarrow> P (KDelete KService (svc_key svc))) \<Longrightarrow>
   calls_only P (collectServices desiredNames existing)"
  by (auto simp: collectServices_def intro!: calls_intros)

lemma ownedService_ok:
  assumes "owner_laws X" "ownedService X ow ns svc = Inr svc'"
  shows "svc' = svc\<lparr>svc_Meta := (svc_Meta svc)\<lparr>om_Owner := Some ow\<rparr>\<rparr>"
  using assms by (auto simp: ownedService_def owner_laws_def split: sum.splits)

section \<open>Services\<close>

text \<open>A port up to its NodePort.\<close>

definition same_port :: "ServicePort \<Rightarrow> ServicePort \<Rightarrow> bool" where
  "same_port p q \<longleftrightarrow> p\<lparr>sp_NodePort := 0\<rparr> = q\<lparr>sp_NodePort := 0\<rparr>"

definition as_desired :: "Service \<Rightarrow> Service \<Rightarrow> bool" where
  "as_desired desired svc \<longleftrightarrow>
     ss_Type (svc_Spec svc) = ss_Type (svc_Spec desired) \<and>
     same_map (ss_Selector (svc_Spec svc)) (ss_Selector (svc_Spec desired)) \<and>
     ss_LoadBalancerIP (svc_Spec svc) = ss_LoadBalancerIP (svc_Spec desired) \<and>
     ss_ExternalTrafficPolicy (svc_Spec svc) = ss_ExternalTrafficPolicy (svc_Spec desired) \<and>
     list_all2 same_port (ss_Ports (svc_Spec svc)) (ss_Ports (svc_Spec desired)) \<and>
     map_of (om_Annotations (svc_Meta desired)) \<subseteq>\<^sub>m map_of (om_Annotations (svc_Meta svc))"

definition live_NodePort :: "Service \<Rightarrow> ServicePort \<Rightarrow> int" where
  "live_NodePort live p = (case find (\<lambda>ep. servicePortsMatch ep p) (ss_Ports (svc_Spec live)) of
     None \<Rightarrow> 0 | Some ep \<Rightarrow> sp_NodePort ep)"

text \<open>What belongs to others stays: metadata, foreign annotations, cluster IP, other fields, status.\<close>

definition foreign_kept :: "Service \<Rightarrow> Service \<Rightarrow> Service \<Rightarrow> bool" where
  "foreign_kept desired live svc \<longleftrightarrow>
     (svc_Meta svc)\<lparr>om_Annotations := []\<rparr> = (svc_Meta live)\<lparr>om_Annotations := []\<rparr> \<and>
     (\<forall>k. k \<notin> fst ` set (om_Annotations (svc_Meta desired)) \<longrightarrow>
        map_of (om_Annotations (svc_Meta svc)) k = map_of (om_Annotations (svc_Meta live)) k) \<and>
     ss_ClusterIP (svc_Spec svc) = ss_ClusterIP (svc_Spec live) \<and>
     ss_Other (svc_Spec svc) = ss_Other (svc_Spec live) \<and>
     svc_Ingress svc = svc_Ingress live"

text \<open>Declared NodePorts, or the live Service's own for a type that has them.\<close>

definition node_ports_kept :: "Service \<Rightarrow> Service \<Rightarrow> Service \<Rightarrow> bool" where
  "node_ports_kept desired live svc \<longleftrightarrow>
     list_all2 (\<lambda>q p. sp_NodePort q =
         (if sp_NodePort p = 0 \<and> hasNodePorts (ss_Type (svc_Spec desired))
          then live_NodePort live p else sp_NodePort p))
       (ss_Ports (svc_Spec svc)) (ss_Ports (svc_Spec desired))"

lemma takeNodePort_find:
  "takeNodePort eps p = (case find (\<lambda>ep. servicePortsMatch ep p) eps of
     None \<Rightarrow> p | Some ep \<Rightarrow> p\<lparr>sp_NodePort := sp_NodePort ep\<rparr>)"
  by (induction eps) auto

lemma same_port_upd [simp]: "same_port (p\<lparr>sp_NodePort := n\<rparr>) p" "same_port p p"
  by (simp_all add: same_port_def)

lemma keepNodePort_same [simp]: "same_port (keepNodePort eps p) p"
  by (simp add: keepNodePort_def takeNodePort_find split: option.split)

lemma merged_as_desired:
  "wf_map (om_Annotations (svc_Meta desired)) \<Longrightarrow> as_desired desired (mergedService live desired)"
  by (simp add: as_desired_def mergedService_def mergedPorts_def map_of_putAll_wf list_all2_same
      list.rel_map)

lemma merged_foreign_kept:
  "wf_map (om_Annotations (svc_Meta desired)) \<Longrightarrow> foreign_kept desired live (mergedService live desired)"
  by (auto simp: foreign_kept_def mergedService_def map_of_putAll_wf map_add_def
      split: option.splits dest: map_of_SomeD simp: image_iff) (force dest: map_of_SomeD)

lemma merged_node_ports: "node_ports_kept desired live (mergedService live desired)"
  by (auto simp: node_ports_kept_def mergedService_def mergedPorts_def list_all2_same list.rel_map
      keepNodePort_def takeNodePort_find live_NodePort_def split: option.split)

lemma respService_Inr: "respService r = Inr x \<longleftrightarrow> r = RObj (ObjService x)"
  by (cases r rule: respService.cases) auto

lemma respService_NotFound: "respService r = Inl e \<Longrightarrow> err_kind e = KubeNotFound \<Longrightarrow> r = RErr e"
  by (cases r rule: respService.cases) (auto simp: badResp_def)

text \<open>When the merged object compares equal to the live one, the live one is as desired.\<close>

lemma unchanged_as_desired:
  assumes "equality_laws X" "wf_map (om_Annotations (svc_Meta desired))"
    and "unchanged X live (mergedService live desired)"
  shows "as_desired desired live"
proof -
  from assms(1,3) have
    "spec_eq (svc_Spec live) (svc_Spec (mergedService live desired))"
    "map_of (om_Annotations (svc_Meta live)) = map_of (om_Annotations (svc_Meta (mergedService live desired)))"
    by (simp_all add: unchanged_def equality_laws_def same_map_iff)
  with merged_as_desired [OF assms(2), of live] show ?thesis
    by (auto simp: as_desired_def spec_eq_def same_map_iff)
qed

definition service_settled :: "Service \<Rightarrow> kobj \<Rightarrow> bool" where
  "service_settled desired x \<longleftrightarrow> (wf_map (om_Annotations (svc_Meta desired)) \<longrightarrow>
     (\<exists>svc. x = ObjService svc \<and> as_desired desired svc))"

definition service_derived :: "Service \<Rightarrow> kobj \<Rightarrow> kobj \<Rightarrow> bool" where
  "service_derived desired x y \<longleftrightarrow>
     (\<exists>live. x = ObjService live \<and> y = ObjService (mergedService live desired))"

lemma as_desired_refl [simp]: "as_desired svc svc"
  by (simp add: as_desired_def list_all2_same)

lemma updateService_attempt_cases:
  assumes "exec (updateService_attempt X desired) tr x"
  obtains (create) e r where "tr = [(KGet KService (svc_key desired), RErr e), (KCreate (ObjService desired), r)]"
      "err_kind e = KubeNotFound" "x = respUnit r"
  | (fail) r e where "tr = [(KGet KService (svc_key desired), r)]" "x = Inl e"
  | (idle) live where "tr = [(KGet KService (svc_key desired), RObj (ObjService live))]"
      "unchanged X live (mergedService live desired)" "x = Inr ()"
  | (update) live r where "tr = [(KGet KService (svc_key desired), RObj (ObjService live)),
        (KUpdate (ObjService (mergedService live desired)), r)]"
      "\<not> unchanged X live (mergedService live desired)" "x = respUnit r"
proof -
  from assms obtain r t where tr: "tr = (KGet KService (svc_key desired), r) # t" and
    t: "exec (case respService r of
       Inl e \<Rightarrow> if err_kind e = KubeNotFound then ask (KCreate (ObjService desired)) respUnit
                else Return (Inl e)
     | Inr existing \<Rightarrow> (let updated = mergedService existing desired in
          if unchanged X existing updated then Return (Inr ())
          else ask (KUpdate (ObjService updated)) respUnit)) t x"
    by (auto simp: updateService_attempt_def exec_Call_iff)
  show thesis
  proof (cases "respService r")
    case (Inl e)
    with t tr show ?thesis
      by (cases "err_kind e = KubeNotFound") (auto dest!: respService_NotFound intro: create fail)
  next
    case (Inr live)
    with t tr show ?thesis
      by (auto simp: respService_Inr Let_def intro: idle update split: if_splits)
  qed
qed

interpretation service: upsert X "updateService_attempt X desired" KService "svc_key desired"
  "service_settled desired" "service_derived desired" for X desired
proof unfold_locales
  fix tr x
  assume eq: "equality_laws X" and "exec (updateService_attempt X desired) tr x"
  from this(2) show "upsert_run KService (svc_key desired) (service_settled desired) (service_derived desired) tr x"
    by (cases rule: updateService_attempt_cases)
      (auto simp: service_settled_def service_derived_def obj_key_def svc_key_def
        intro!: upsert_run.intros unchanged_as_desired [OF eq] merged_as_desired)
qed


text \<open>A live Service: other controllers' annotation, assigned address and NodePorts, an old policy.\<close>

definition demoExposed :: PowerDNSServer where
  "demoExposed = demoServer\<lparr>srv_Spec := (srv_Spec demoServer)\<lparr>ps_DNS :=
     \<lparr>dns_Exposure = DNSExposureLoadBalancer,
      dns_LoadBalancer = Some \<lparr>dlb_IP = ''192.0.2.53'', dlb_Annotations = [(''pool'', ''public'')],
        dlb_ExternalTrafficPolicy = [], dlb_AdditionalServices = []\<rparr>,
      dns_Gateway = None\<rparr>\<rparr>\<rparr>"

definition demoLive :: "string \<Rightarrow> Service" where
  "demoLive policy =
     (let svc = DNSService demoExposed in
      svc\<lparr>svc_Meta := (svc_Meta svc)\<lparr>om_Annotations := [(''metallb'', ''x''), (''pool'', ''public'')]\<rparr>,
          svc_Spec := (svc_Spec svc)\<lparr>ss_ClusterIP := ''10.0.0.9'', ss_ExternalTrafficPolicy := policy,
            ss_Ports := map (\<lambda>p. p\<lparr>sp_NodePort := 30053\<rparr>) (ss_Ports (svc_Spec svc))\<rparr>\<rparr>)"

definition demoConverge :: "resp list" where
  "demoConverge = [RObj (ObjService (demoLive ''Cluster'')), RErr (mkErr KubeConflict []),
     RObj (ObjService (demoLive ''Cluster'')), ROk]"


section \<open>Steady state\<close>

text \<open>Ports as the manifests render them: named apart, NodePorts left to the API server.\<close>

definition plain_ports :: "ServicePort list \<Rightarrow> bool" where
  "plain_ports ps \<longleftrightarrow> distinct (map sp_Name ps) \<and> [] \<notin> sp_Name ` set ps \<and> sp_NodePort ` set ps \<subseteq> {0}"

definition renderedServices :: "PowerDNSServer \<Rightarrow> DNSDist \<Rightarrow> Service list" where
  "renderedServices s d = [APIService s, DNSService s, DNSDistDNSService d] @ AdditionalDNSServices s"

definition plain_service :: "Service \<Rightarrow> bool" where
  "plain_service svc \<longleftrightarrow> wf_map (om_Annotations (svc_Meta svc)) \<and> plain_ports (ss_Ports (svc_Spec svc))"

lemma plain_service_setType [simp]: "plain_service (setType ty svc) = plain_service svc"
  by (simp add: plain_service_def)

lemma plain_service_setLB: "plain_service svc \<Longrightarrow> plain_service (setLB ip anns policy svc)"
  by (simp add: plain_service_def) (simp add: setLB_def Let_def wf_map_def [of "[]"])

lemma plain_service_LB: "plain_service svc \<Longrightarrow> plain_service (applyLBPrimary svc lb)"
  by (cases lb) (simp_all add: applyLBPrimary_def plain_service_setLB, simp add: plain_service_def)

lemma plain_service_base [simp]: "plain_service (baseDNSService s n)"
  by (simp add: plain_service_def baseDNSService_def plain_ports_def svcPort_def newMeta_def wf_map_def)

lemma plain_service_api [simp]: "plain_service (APIService s)"
  by (simp add: plain_service_def APIService_def plain_ports_def svcPort_def newMeta_def wf_map_def)

lemma plain_dnsdist_ports [simp]: "plain_ports (dnsdistServicePorts sp)"
  by (simp add: plain_ports_def dnsdistServicePorts_def svcPort_def)

lemma plain_service_dnsdist [simp]: "plain_service (DNSDistDNSService d)"
  unfolding DNSDistDNSService_def Let_def
  by (auto intro!: plain_service_LB) (auto simp: plain_service_def newMeta_def wf_map_def)

lemma plain_service_dns [simp]: "plain_service (DNSService s)"
  by (simp add: DNSService_def Let_def plain_service_LB)

lemma plain_service_rendered: "svc \<in> set (renderedServices s d) \<Longrightarrow> plain_service svc"
  by (auto simp: renderedServices_def AdditionalDNSServices_def additionalDNSService_def Let_def
      plain_service_setLB split: if_splits option.splits)

lemma find_port:
  assumes "list_all2 same_port ls ds" "distinct (map sp_Name ds)" "[] \<notin> sp_Name ` set ds" "i < length ds"
  shows "find (\<lambda>ep. servicePortsMatch ep (ds ! i)) ls = Some (ls ! i)"
proof -
  have names: "sp_Name (ls ! j) = sp_Name (ds ! j)" if "j < length ds" for j
    using list_all2_nthD2 [OF assms(1) that] unfolding same_port_def
    by (metis ServicePort.surjective ServicePort.update_convs(5) ServicePort.ext_inject)
  have len: "length ls = length ds" using assms(1) by (rule list_all2_lengthD)
  have "sp_Name (ds ! i) \<noteq> []" using assms(3,4) by (metis image_eqI nth_mem)
  then have match: "servicePortsMatch p (ds ! i) \<longleftrightarrow> sp_Name p = sp_Name (ds ! i)" for p
    by (simp add: servicePortsMatch_def)
  have "sp_Name (ds ! j) \<noteq> sp_Name (ds ! i)" if "j < i" for j
    using that assms(2,4) nth_eq_iff_index_eq [OF assms(2), of j i] by simp
  then have "i < length ls \<and> servicePortsMatch (ls ! i) (ds ! i) \<and>
      (\<forall>j<i. \<not> servicePortsMatch (ls ! j) (ds ! i))"
    using names len assms(4) by (simp add: match)
  then show ?thesis by (auto simp: find_Some_iff)
qed

lemma kept_ports:
  assumes ports: "list_all2 same_port ls ds" and plain: "plain_ports ds"
  shows "map (keepNodePort ls) ds = ls"
proof (rule nth_equalityI)
  show "length (map (keepNodePort ls) ds) = length ls"
    using list_all2_lengthD [OF ports] by simp
next
  fix i assume "i < length (map (keepNodePort ls) ds)"
  then have i: "i < length ds" by simp
  from plain have p: "distinct (map sp_Name ds)" "[] \<notin> sp_Name ` set ds" "sp_NodePort (ds ! i) = 0"
    using nth_mem [OF i] by (auto simp: plain_ports_def)
  have "(ds ! i)\<lparr>sp_NodePort := sp_NodePort (ls ! i)\<rparr> = ls ! i"
    using list_all2_nthD2 [OF ports i] unfolding same_port_def
    by (metis ServicePort.surjective ServicePort.update_convs(5) ServicePort.ext_inject)
  then show "map (keepNodePort ls) ds ! i = ls ! i"
    using i p find_port [OF ports p(1,2) i] by (simp add: keepNodePort_def takeNodePort_find)
qed

text \<open>
  The API server's part of a converged Service: NodePorts of its choice, for the types that have
  them.
\<close>

definition assigned_ports :: "Service \<Rightarrow> bool" where
  "assigned_ports live \<longleftrightarrow> hasNodePorts (ss_Type (svc_Spec live)) \<or>
     list_all (\<lambda>p. sp_NodePort p = 0) (ss_Ports (svc_Spec live))"

lemma unassigned_ports:
  "list_all2 same_port ls ds \<Longrightarrow> list_all (\<lambda>p. sp_NodePort p = 0) ls \<Longrightarrow> sp_NodePort ` set ds \<subseteq> {0} \<Longrightarrow> ls = ds"
proof (induction rule: list_all2_induct)
  case (Cons x xs y ys)
  from Cons.hyps(1) Cons.prems have "x = y" by (cases x; cases y) (simp add: same_port_def)
  with Cons show ?case by simp
qed simp

lemma converged_unchanged:
  assumes "equality_laws X" "plain_service desired" "as_desired desired live" "assigned_ports live"
  shows "unchanged X live (mergedService live desired)"
proof -
  from assms(3) have ports: "list_all2 same_port (ss_Ports (svc_Spec live)) (ss_Ports (svc_Spec desired))"
    and ty: "ss_Type (svc_Spec live) = ss_Type (svc_Spec desired)" by (simp_all add: as_desired_def)
  have "mergedPorts (svc_Spec live) (svc_Spec desired) = ss_Ports (svc_Spec live)"
    using assms(2,4) kept_ports [OF ports] unassigned_ports [OF ports] ty
    by (auto simp: mergedPorts_def plain_service_def assigned_ports_def plain_ports_def)
  moreover have "map_of (om_Annotations (svc_Meta live)) ++ map_of (om_Annotations (svc_Meta desired)) =
      map_of (om_Annotations (svc_Meta live))"
    using assms(3) by (simp add: as_desired_def map_le_iff_map_add_commute map_add_le_mapE
        map_le_map_add fun_eq_iff map_le_def map_add_def split: option.split) (metis domI)
  ultimately show ?thesis
    using assms by (simp add: unchanged_def equality_laws_def spec_eq_def mergedService_def as_desired_def
        same_map_iff map_of_putAll_wf plain_service_def)
qed

text \<open>
  C35: No churn.  Once the live Service is as declared, with NodePorts assigned by the API
  server and with annotations, labels and fields of other controllers on it, converging any
  Service the manifests render costs one read and never a write: \<open>updateService\<close> returns at
  its first attempt.
\<close>

theorem rendered_services_stable:
  assumes "equality_laws X" "retry_laws X" "desired \<in> set (renderedServices s d)"
    and "as_desired desired live" "assigned_ports live"
    and "exec (updateService X desired) ((KGet KService (svc_key desired), RObj (ObjService live)) # t) x"
  shows "t = [] \<and> x = Inr ()"
proof -
  have same: "unchanged X live (mergedService live desired)"
    using assms converged_unchanged plain_service_rendered by blast
  have first: "t' = [] \<and> y = Inr ()"
    if "exec (updateService_attempt X desired) ((KGet KService (svc_key desired), RObj (ObjService live)) # t') y" for t' y
    using that by (cases rule: updateService_attempt_cases)
      (use that same in \<open>auto simp: updateService_attempt_def exec_Call_iff Let_def\<close>)
  from assms(2,6) have "attempts (updateService_attempt X desired)
      ((KGet KService (svc_key desired), RObj (ObjService live)) # t) x"
    by (simp add: retry_laws_def updateService_def)
  then show ?thesis
  proof cases
    case last_attempt
    then show ?thesis by (rule first)
  next
    case (retried tr e tr')
    from retried(2) obtain r u where "tr = (KGet KService (svc_key desired), r) # u"
      by (cases rule: updateService_attempt_cases) auto
    with retried(1,2) first show ?thesis by auto
  qed
qed

theorem rendered_services_stable_witness:
  "tl (trace_of ROk (updateService refExt (DNSService demoExposed)) [RObj (ObjService (demoLive ''Local''))]) = []"
proof -
  have laws: "equality_laws refExt" "retry_laws refExt" using refExt_laws by (simp_all add: ext_laws_def)
  let ?tr = "trace_of ROk (updateService refExt (DNSService demoExposed)) [RObj (ObjService (demoLive ''Local''))]"
  have "om_Annotations (svc_Meta (DNSService demoExposed)) = [(''pool'', ''public'')]"
    "om_Annotations (svc_Meta (demoLive ''Local'')) = [(''metallb'', ''x''), (''pool'', ''public'')]"
    by code_simp+
  then have ann: "map_of (om_Annotations (svc_Meta (DNSService demoExposed)))
      \<subseteq>\<^sub>m map_of (om_Annotations (svc_Meta (demoLive ''Local'')))"
    by (simp add: map_le_def)
  have d: "as_desired (DNSService demoExposed) (demoLive ''Local'')"
    unfolding as_desired_def by (intro conjI ann) code_simp+
  have m: "DNSService demoExposed \<in> set (renderedServices demoExposed undefined)"
    by (simp add: renderedServices_def)
  have a: "assigned_ports (demoLive ''Local'')" by code_simp
  have "?tr \<noteq> [] \<and> hd ?tr = (KGet KService (svc_key (DNSService demoExposed)), RObj (ObjService (demoLive ''Local'')))"
    by code_simp
  from rendered_services_stable [OF laws m d a exec_tl_trace_of [OF this]] show ?thesis by blast
qed

section \<open>ConfigMaps\<close>

lemma respConfigMap_Inr: "respConfigMap r = Inr x \<longleftrightarrow> r = RObj (ObjConfigMap x)"
  by (cases r rule: respConfigMap.cases) auto

lemma respConfigMap_NotFound: "respConfigMap r = Inl e \<Longrightarrow> err_kind e = KubeNotFound \<Longrightarrow> r = RErr e"
  by (cases r rule: respConfigMap.cases) (auto simp: badResp_def)

definition configmap_settled :: "ConfigMap \<Rightarrow> kobj \<Rightarrow> bool" where
  "configmap_settled desired x \<longleftrightarrow> (\<exists>cm. x = ObjConfigMap cm \<and> cm_Data cm = cm_Data desired)"

definition configmap_derived :: "ConfigMap \<Rightarrow> kobj \<Rightarrow> kobj \<Rightarrow> bool" where
  "configmap_derived desired x y \<longleftrightarrow>
     (\<exists>live. x = ObjConfigMap live \<and> y = ObjConfigMap (live\<lparr>cm_Data := cm_Data desired\<rparr>))"

interpretation configmap: upsert X "storeConfigMap desired" KConfigMap "cm_key desired"
  "configmap_settled desired" "configmap_derived desired" for X desired
  by unfold_locales
    (auto simp: storeConfigMap_def exec_tryIO_iff respConfigMap_Inr configmap_settled_def
      configmap_derived_def eq_commute [of _ "respConfigMap _"] intro!: upsert_run.intros)

lemma updateConfigMap_cases:
  assumes "equality_laws X" "retry_laws X" "exec (updateConfigMap X desired createFn) tr (Inr ())"
  obtains (created) e t where "tr = (KGet KConfigMap (cm_key desired), RErr e) # t"
      "err_kind e = KubeNotFound" "exec createFn t (Inr ())"
  | (same) live where "tr = [(KGet KConfigMap (cm_key desired), RObj (ObjConfigMap live))]"
      "same_map (cm_Data live) (cm_Data desired)"
  | (stored) t live r where "tr = t @ [(KGet KConfigMap (cm_key desired), RObj (ObjConfigMap live)),
      (KUpdate (ObjConfigMap (live\<lparr>cm_Data := cm_Data desired\<rparr>)), r)]"
proof -
  from assms(3) obtain r t where tr: "tr = (KGet KConfigMap (cm_key desired), r) # t"
    and t: "exec (case respConfigMap r of
       Inl e \<Rightarrow> if err_kind e = KubeNotFound then createFn else Return (Inl e)
     | Inr existing \<Rightarrow> if MapDeepEqual X (cm_Data existing) (cm_Data desired) then Return (Inr ())
         else RetryOnConflict X (storeConfigMap desired)) t (Inr ())"
    by (auto simp: updateConfigMap_def exec_Call_iff)
  show thesis
  proof (cases "respConfigMap r")
    case (Inl e)
    with t have "err_kind e = KubeNotFound" "exec createFn t (Inr ())" by (auto split: if_splits)
    with Inl tr show ?thesis by (auto dest: respConfigMap_NotFound intro: created)
  next
    case (Inr live)
    show ?thesis
    proof (cases "MapDeepEqual X (cm_Data live) (cm_Data desired)")
      case True
      with Inr t tr assms(1) show ?thesis by (auto simp: respConfigMap_Inr equality_laws_def intro: same)
    next
      case False
      with Inr t have "exec (RetryOnConflict X (storeConfigMap desired)) t (Inr ())" by simp
      then obtain t1 t2 where t12: "t = t1 @ t2" and "exec (storeConfigMap desired) t2 (Inr ())"
        by (rule configmap.retried_ok [OF assms(1,2)])
      from this(2) obtain cur r' where "t2 = [(KGet KConfigMap (cm_key desired), RObj (ObjConfigMap cur)),
          (KUpdate (ObjConfigMap (cur\<lparr>cm_Data := cm_Data desired\<rparr>)), r')]"
        by (auto simp: storeConfigMap_def exec_tryIO_iff respConfigMap_Inr eq_commute [of _ "respConfigMap _"])
      with tr t12 show ?thesis by (intro stored [of "(KGet KConfigMap (cm_key desired), r) # t1"]) simp
    qed
  qed
qed

text \<open>
  A converged ConfigMap.  If \<open>updateConfigMap\<close> returns without an error, either the
  ConfigMap was missing and the creation function succeeded, or its content already was the
  rendered one and nothing was written, or the last thing it did was to read the live
  ConfigMap and store it with exactly the rendered content and its metadata unchanged.  It
  writes nothing else itself.
\<close>

theorem updateConfigMap_converges:
  assumes "equality_laws X" "retry_laws X" "exec (updateConfigMap X desired createFn) tr (Inr ())"
  shows "(\<exists>e t. tr = (KGet KConfigMap (cm_key desired), RErr e) # t \<and> err_kind e = KubeNotFound \<and>
       exec createFn t (Inr ())) \<or>
    (\<exists>live. tr = [(KGet KConfigMap (cm_key desired), RObj (ObjConfigMap live))] \<and>
       same_map (cm_Data live) (cm_Data desired)) \<or>
    (\<exists>t live r. tr = t @ [(KGet KConfigMap (cm_key desired), RObj (ObjConfigMap live)),
       (KUpdate (ObjConfigMap (live\<lparr>cm_Data := cm_Data desired\<rparr>)), r)])"
  by (rule updateConfigMap_cases [OF assms]) blast+

definition demoStale :: ConfigMap where
  "demoStale = \<lparr>cm_Meta = demoMeta ''pdns-config'', cm_Data = [(''pdns.conf'', ''old'')]\<rparr>"

definition demoFresh :: ConfigMap where
  "demoFresh = \<lparr>cm_Meta = demoMeta ''pdns-config'', cm_Data = [(''pdns.conf'', ''new'')]\<rparr>"

theorem updateConfigMap_converges_witness:
  "\<exists>t live r. trace_of ROk (updateConfigMap refExt demoFresh (Return (Inr ())))
      [RObj (ObjConfigMap demoStale), RObj (ObjConfigMap demoStale), ROk] =
    t @ [(KGet KConfigMap (''dns'', ''pdns-config''), RObj (ObjConfigMap live)),
       (KUpdate (ObjConfigMap (live\<lparr>cm_Data := cm_Data demoFresh\<rparr>)), r)]"
proof -
  have laws: "equality_laws refExt" "retry_laws refExt" using refExt_laws by (simp_all add: ext_laws_def)
  let ?p = "updateConfigMap refExt demoFresh (Return (Inr ()))"
  let ?rs = "[RObj (ObjConfigMap demoStale), RObj (ObjConfigMap demoStale), ROk]"
  have ok: "result_of ROk ?p ?rs = Inr ()" by code_simp
  have tr: "trace_of ROk ?p ?rs = [(KGet KConfigMap (''dns'', ''pdns-config''), RObj (ObjConfigMap demoStale)),
      (KGet KConfigMap (''dns'', ''pdns-config''), RObj (ObjConfigMap demoStale)), (KUpdate (ObjConfigMap demoFresh), ROk)]"
    by code_simp
  have key: "cm_key demoFresh = (''dns'', ''pdns-config'')" by code_simp
  have "exec ?p (trace_of ROk ?p ?rs) (Inr ())" using exec_trace_of [of ?p ROk ?rs] by (simp only: ok)
  from updateConfigMap_converges [OF laws this] show ?thesis unfolding key by (auto simp only: tr list.inject list.distinct prod.inject resp.distinct resp.inject)
qed

section \<open>Deletion\<close>

lemma exec_deleteIfExists:
  assumes "exec (deleteIfExists k key) tr x"
  obtains (absent) e where "tr = [(KGet k key, RErr e)]" "err_kind e \<in> {KubeNotFound, KubeNoMatch}" "x = Inr ()"
  | (failed) e where "tr = [(KGet k key, RErr e)]" "err_kind e \<notin> {KubeNotFound, KubeNoMatch}" "x = Inl e"
  | (present) r r' where "tr = [(KGet k key, r), (KDelete k key, r')]" "respUnit r = Inr ()"
      "x = ignoreMissing (respUnit r')"
proof -
  from assms obtain r t where tr: "tr = (KGet k key, r) # t" and
    t: "exec (case respUnit r of
       Inl e \<Rightarrow> if err_kind e = KubeNoMatch then Return (Inr ()) else Return (ignoreMissing (Inl e))
     | Inr _ \<Rightarrow> ask (KDelete k key) (\<lambda>r. ignoreMissing (respUnit r))) t x"
    by (auto simp: deleteIfExists_def exec_Call_iff)
  show thesis
  proof (cases "respUnit r")
    case (Inl e)
    then have "r = RErr e" by (cases r) auto
    with Inl t tr show ?thesis
      by (cases "err_kind e") (auto simp: ignoreMissing_def intro: absent failed)
  next
    case (Inr u)
    with t tr show ?thesis by (auto intro: present)
  qed
qed

end
