(* ===== verification/DNSDist_Controller.thy ===== *)
theory DNSDist_Controller
  imports Converge Manifests_DNSDist
begin

text \<open>
  \<open>internal/controller/dnsdist_controller.go\<close>: the reconciler of DNSDist tiers.  \<open>Reconcile\<close>
  is split into the checks (\<open>dnsdist_Reconcile\<close>), the convergence of the children in source
  order (\<open>dnsdist_converge\<close>) and the status (\<open>refreshDNSDistStatus\<close>).
\<close>

section \<open>Validation\<close>

definition dnsdistBackendIndex :: string where
  "dnsdistBackendIndex = ''spec.backendRefs''"

fun validateBackendRefs :: "nat \<Rightarrow> string list \<Rightarrow> ObjectRef list \<Rightarrow> string" where
  "validateBackendRefs i seen [] = []"
| "validateBackendRefs i seen (ref # refs) =
     (if ref_Name ref = [] then ''backendRefs['' @ utoa i @ ''].name is required''
      else if ref_Namespace ref \<noteq> [] then
        ''backendRefs['' @ utoa i @ ''].namespace must be empty '' @ em_dash @
        '' cross-namespace backends are not supported''
      else if ref_Name ref \<in> set seen then
        ''backendRefs['' @ utoa i @ ''].name '' @ quote (ref_Name ref) @ '' is a duplicate''
      else validateBackendRefs (i + 1) (ref_Name ref # seen) refs)"

definition dotMsg :: string where
  "dotMsg = ''tls.dot.certificateSecretRef.name is required when dot is enabled''"

definition dohMsg :: string where
  "dohMsg = ''tls.doh.certificateSecretRef.name is required when doh is enabled''"

definition validateDNSDist :: "DNSDist \<Rightarrow> string" where
  "validateDNSDist d =
     (let sp = dd_Spec d; refs = validateBackendRefs 0 [] (ds_BackendRefs sp); replicas = dnsdistReplicas d in
      if refs \<noteq> [] then refs
      else if pdbTooHigh (ds_PodDisruptionBudget sp) replicas then pdbMsg (ds_PodDisruptionBudget sp) replicas
      else if tls_Enabled (ds_TLS_DoT sp) \<and> tls_CertificateSecretRef (ds_TLS_DoT sp) = [] then dotMsg
      else if tls_Enabled (ds_TLS_DoH sp) \<and> tls_CertificateSecretRef (ds_TLS_DoH sp) = [] then dohMsg
      else if gatewayUnset (ds_DNS sp) then gatewayUnsetMsg
      else [])"

section \<open>Backends\<close>

text \<open>Not ready with reason and message, or the address of every backend.\<close>

type_synonym backends = "(string \<times> string) + gomap"

definition backendNotFoundMsg :: "string \<Rightarrow> string \<Rightarrow> string" where
  "backendNotFoundMsg ns n = ''PowerDNSServer '' @ ns @ ''/'' @ n @ '' not found''"

definition backendNotReadyMsg :: "string \<Rightarrow> string \<Rightarrow> string" where
  "backendNotReadyMsg n phase = ''PowerDNSServer '' @ n @ '' is '' @ phase"

definition serviceNotFoundMsg :: "string \<Rightarrow> string \<Rightarrow> string \<Rightarrow> string" where
  "serviceNotFoundMsg ns svcName n =
     ''DNS Service '' @ ns @ ''/'' @ svcName @ '' not found for backend '' @ n"

definition serviceNotReadyMsg :: "string \<Rightarrow> string \<Rightarrow> string" where
  "serviceNotReadyMsg ns svcName = ''DNS Service '' @ ns @ ''/'' @ svcName @ '' has no ClusterIP yet''"

text \<open>The ClusterIP of one backend's DNS Service, and the body of the loop over the backends.\<close>

definition serviceAddr :: "string \<Rightarrow> string \<Rightarrow> string \<Rightarrow> error + Service \<Rightarrow> error + ((string \<times> string) + string)" where
  "serviceAddr ns svcName n r = (case r of
     Inl e \<Rightarrow> if err_kind e = KubeNotFound
       then Inr (Inl (''BackendServiceNotFound'', serviceNotFoundMsg ns svcName n)) else Inl e
   | Inr svc \<Rightarrow> if ss_ClusterIP (svc_Spec svc) = [] \<or> ss_ClusterIP (svc_Spec svc) = ''None''
       then Inr (Inl (''BackendServiceNotReady'', serviceNotReadyMsg ns svcName))
       else Inr (Inr (ss_ClusterIP (svc_Spec svc))))"

definition backendAddr :: "string \<Rightarrow> string \<Rightarrow> (error + ((string \<times> string) + string)) kio" where
  "backendAddr ns n =
     andThen (ask (KGet KServer (ns, n)) respServer) (\<lambda>r. case r of
       Inl e \<Rightarrow> Return (if err_kind e = KubeNotFound
         then Inr (Inl (''BackendNotFound'', backendNotFoundMsg ns n)) else Inl e)
     | Inr s \<Rightarrow>
         if pst_Phase (srv_Status s) \<noteq> PhaseReady then
           Return (Inr (Inl (''BackendNotReady'', backendNotReadyMsg n (pst_Phase (srv_Status s)))))
         else
           (let svcName = nm_DNSService (NameSet s) in
            ask (KGet KService (ns, svcName)) (\<lambda>r. serviceAddr ns svcName n (respService r))))"

fun backendsFrom :: "string \<Rightarrow> gomap \<Rightarrow> ObjectRef list \<Rightarrow> (error + backends) kio" where
  "backendsFrom ns addrs [] = Return (Inr (Inr addrs))"
| "backendsFrom ns addrs (ref # refs) =
     tryIO (backendAddr ns (ref_Name ref)) (\<lambda>b. case b of
       Inl why \<Rightarrow> Return (Inr (Inl why))
     | Inr ip \<Rightarrow> backendsFrom ns (put (ref_Name ref) ip addrs) refs)"

definition backendsReady :: "DNSDist \<Rightarrow> (error + backends) kio" where
  "backendsReady d = backendsFrom (om_Namespace (dd_Meta d)) [] (ds_BackendRefs (dd_Spec d))"

section \<open>Children\<close>

text \<open>
  The loop over the additional Services.  \<open>svc.Labels[...] = ...\<close> writes to the map the
  Service's labels refer to; the map is never nil.
\<close>

fun applyAdditional :: "ext \<Rightarrow> DNSDist \<Rightarrow> mapStore \<Rightarrow> ServiceRefs list \<Rightarrow> (error + unit) kio" where
  "applyAdditional X d st [] = Return (Inr ())"
| "applyAdditional X d st (r # rs) =
     (let st' = setLabel r roleLabel additionalRole st in
      case ownedService X (dnsdistRef d) (om_Namespace (dd_Meta d)) (deref st' r) of
        Inl e \<Rightarrow> Return (Inl e)
      | Inr svc \<Rightarrow> tryIO (updateService X svc) (\<lambda>_. applyAdditional X d st' rs))"

definition dnsdistRoleSelector :: "DNSDist \<Rightarrow> gomap" where
  "dnsdistRoleSelector d =
     [(labelManagedBy, ''aether-powerdns''), (labelInstance, om_Name (dd_Meta d)),
      (labelApp, ''dnsdist''), (roleLabel, additionalRole)]"

definition reconcileDNSDistAdditionalServices :: "ext \<Rightarrow> DNSDist \<Rightarrow> (error + unit) kio" where
  "reconcileDNSDistAdditionalServices X d =
     (let (st, desired) = DNSDistAdditionalDNSServices d;
          desiredNames = map (\<lambda>r. om_Name (svc_Meta (sref_Rest r))) desired in
      tryIO (applyAdditional X d st desired) (\<lambda>_.
      tryIO (ask (KListByLabels KService (om_Namespace (dd_Meta d)) (dnsdistRoleSelector d))
          (\<lambda>r. items itemService (respList r))) (\<lambda>existing.
      collectServices desiredNames existing)))"

definition tcpHint :: string where
  "tcpHint = ''TCPRoute CRD not installed (Gateway API experimental channel)''"

definition udpHint :: string where
  "udpHint = ''UDPRoute CRD not installed (Gateway API experimental channel)''"

definition reconcileDNSDistRoutes :: "ext \<Rightarrow> DNSDist \<Rightarrow> (error + unit) kio" where
  "reconcileDNSDistRoutes X d =
     (let names = DNSDistNameSet d; ns = om_Namespace (dd_Meta d) in
      if dns_Exposure (ds_DNS (dd_Spec d)) = DNSExposureGateway then
        tryIO (mapErr (crdMissing ''tcproute'' tcpHint)
          (upsertOwned (dnsdistRef d) (ObjTCPRoute (DNSDistTCPRoute d)))) (\<lambda>_.
        mapErr (crdMissing ''udproute'' udpHint)
          (upsertOwned (dnsdistRef d) (ObjUDPRoute (DNSDistUDPRoute d))))
      else
        tryIO (mapErr (wrapErr ''delete tcproute'') (deleteIfExists KTCPRoute (ns, dn_TCPRoute names))) (\<lambda>_.
        mapErr (wrapErr ''delete udproute'') (deleteIfExists KUDPRoute (ns, dn_UDPRoute names))))"

definition dnsdistBudget :: "DNSDist \<Rightarrow> (error + unit) kio" where
  "dnsdistBudget d =
     (case DNSDistPDB d of
        Some pdb \<Rightarrow> mapErr (wrapErr ''ensure pdb'') (upsertOwned (dnsdistRef d) (ObjPDB pdb))
      | None \<Rightarrow> mapErr (wrapErr ''delete pdb'')
          (deleteIfExists KPDB (om_Namespace (dd_Meta d), dn_PDB (DNSDistNameSet d))))"

text \<open>The certificate Secrets of the enabled listeners, folded into the config hash.\<close>

definition tlsListeners :: "DNSDistSpec \<Rightarrow> DNSDistTLSListener list" where
  "tlsListeners sp = [ds_TLS_DoT sp, ds_TLS_DoH sp]"

fun tlsSecrets :: "string \<Rightarrow> gomap list \<Rightarrow> DNSDistTLSListener list \<Rightarrow> (error + gomap list) kio" where
  "tlsSecrets ns acc [] = Return (Inr acc)"
| "tlsSecrets ns acc (l # ls) =
     (if \<not> tls_Enabled l then tlsSecrets ns acc ls
      else
        (let name = tls_CertificateSecretRef l in
         andThen (ask (KGet KSecret (ns, name)) respSecret) (\<lambda>r. case r of
           Inl e \<Rightarrow>
             if err_kind e = KubeNotFound then tlsSecrets ns (acc @ [[(''__name__'', name)]]) ls
             else Return (Inl (wrapErr (''get tls secret '' @ name) e))
         | Inr sec \<Rightarrow> tlsSecrets ns (acc @ [sec_Data sec]) ls)))"

definition dnsdist_service :: "ext \<Rightarrow> DNSDist \<Rightarrow> (error + unit) kio" where
  "dnsdist_service X d =
     (case ownedService X (dnsdistRef d) (om_Namespace (dd_Meta d)) (DNSDistDNSService d) of
        Inl e \<Rightarrow> Return (Inl (wrapErr ''set owner ref on dns service'' e))
      | Inr svc \<Rightarrow> mapErr (wrapErr ''ensure dns service'') (updateService X svc))"

text \<open>From the Deployment on, with the config hash in hand; and all children in source order.\<close>

definition dnsdist_workload :: "ext \<Rightarrow> DNSDist \<Rightarrow> string \<Rightarrow> (error + unit) kio" where
  "dnsdist_workload X d hashStr =
     tryIO (mapErr (wrapErr ''ensure deployment'')
       (upsertOwned (dnsdistRef d) (ObjDeployment (DNSDistDeployment d hashStr)))) (\<lambda>_.
     tryIO (dnsdist_service X d) (\<lambda>_.
     tryIO (reconcileDNSDistAdditionalServices X d) (\<lambda>_.
     tryIO (dnsdistBudget d) (\<lambda>_.
     reconcileDNSDistRoutes X d))))"

definition dnsdist_converge :: "ext \<Rightarrow> DNSDist \<Rightarrow> gomap \<Rightarrow> (error + unit) kio" where
  "dnsdist_converge X d backendAddrs =
     (let cm = DNSDistConfigMap d backendAddrs in
      tryIO (mapErr (wrapErr ''ensure configmap'') (upsertOwned (dnsdistRef d) (ObjConfigMap cm))) (\<lambda>_.
      tryIO (tlsSecrets (om_Namespace (dd_Meta d)) [] (tlsListeners (dd_Spec d))) (\<lambda>secs.
      dnsdist_workload X d (ConfigHash (index (cm_Data cm) ''dnsdist.conf'') secs))))"

section \<open>Status\<close>

definition dnsdist_setCond :: "ext \<Rightarrow> string \<Rightarrow> string \<Rightarrow> string \<Rightarrow> string \<Rightarrow> DNSDist \<Rightarrow> DNSDist" where
  "dnsdist_setCond X condType status reason msg d = d\<lparr>dd_Status := (dd_Status d)\<lparr>dst_Conditions :=
     setCondOn X (dst_Conditions (dd_Status d)) (om_Generation (dd_Meta d)) condType status reason msg\<rparr>\<rparr>"

definition dnsdist_setPhase :: "string \<Rightarrow> string \<Rightarrow> DNSDist \<Rightarrow> DNSDist" where
  "dnsdist_setPhase phase msg d =
     d\<lparr>dd_Status := (dd_Status d)\<lparr>dst_Phase := phase, dst_FailureMessage := msg\<rparr>\<rparr>"

definition markDNSDistNotReady :: "ext \<Rightarrow> DNSDist \<Rightarrow> string \<Rightarrow> string \<Rightarrow> int \<Rightarrow> reconcile" where
  "markDNSDistNotReady X d reason msg after =
     tryIO (ask (KStatusUpdate (ObjDNSDist (dnsdist_setCond X ConditionReady ''False'' reason msg
       (dnsdist_setPhase ZonePhasePending msg d)))) respUnit)
     (\<lambda>_. Return (Inr (RequeueAfter after)))"

definition markDNSDistFailed :: "ext \<Rightarrow> DNSDist \<Rightarrow> string \<Rightarrow> reconcile" where
  "markDNSDistFailed X d msg =
     tryIO (ask (KStatusUpdate (ObjDNSDist (dnsdist_setCond X ConditionReady ''False'' ''InvalidSpec'' msg
       (dnsdist_setPhase ZonePhaseFailed msg d)))) respUnit)
     (\<lambda>_. andThen (emit X KDNSDist (dd_Meta d) ''Warning'' ''InvalidSpec'' msg) (\<lambda>_. Return (Inr Done)))"

definition dnsdist_endpoint :: "DNSDist \<Rightarrow> string kio" where
  "dnsdist_endpoint d =
     (let dns = ds_DNS (dd_Spec d); ns = om_Namespace (dd_Meta d) in
      if dns_Exposure dns = DNSExposureGateway then
        Return (case dns_Gateway dns of None \<Rightarrow> [] | Some gw \<Rightarrow> gatewayEndpoint ns gw)
      else
        andThen (ask (KGet KService (ns, dn_DNSService (DNSDistNameSet d))) respService) (\<lambda>r. Return (case r of
          Inl e \<Rightarrow> []
        | Inr svc \<Rightarrow>
            if dns_Exposure dns = DNSExposureLoadBalancer then ingressEndpoint (svc_Ingress svc)
            else ss_ClusterIP (svc_Spec svc) @ '':53'')))"

text \<open>The status as it is stored at the end of a pass.\<close>

definition dnsdist_final :: "ext \<Rightarrow> DNSDist \<Rightarrow> Deployment \<Rightarrow> string \<Rightarrow> DNSDist" where
  "dnsdist_final X d dep endpoint =
     (let d1 = d\<lparr>dd_Status := (dd_Status d)\<lparr>dst_DesiredReplicas := liveReplicas dep,
            dst_ReadyReplicas := dep_ReadyReplicas dep\<rparr>\<rparr>;
          d2 = (if available dep
                then dnsdist_setCond X ConditionAvailable ''True'' ''PodsAvailable'' (replicasMsg dep) d1
                else dnsdist_setCond X ConditionAvailable ''False'' ''PodsUnavailable'' (replicasMsg dep) d1);
          d3 = d2\<lparr>dd_Status := (dd_Status d2)\<lparr>dst_DNSEndpoint := endpoint, dst_Phase := ZonePhaseReady,
            dst_FailureMessage := [], dst_ObservedGeneration := om_Generation (dd_Meta d)\<rparr>\<rparr> in
      if available dep
      then dnsdist_setCond X ConditionReady ''True'' ''Reconciled'' ''tier converged and all replicas available'' d3
      else dnsdist_setCond X ConditionReady ''False'' ''Degraded'' (replicasMsg dep) d3)"

definition refreshDNSDistStatus :: "ext \<Rightarrow> DNSDist \<Rightarrow> reconcile" where
  "refreshDNSDistStatus X d =
     tryIO (ask (KGet KDeployment (om_Namespace (dd_Meta d), dn_Deployment (DNSDistNameSet d))) respDeployment) (\<lambda>dep.
     andThen (dnsdist_endpoint d) (\<lambda>endpoint.
     tryIO (ask (KStatusUpdate (ObjDNSDist (dnsdist_final X d dep endpoint))) respUnit)
     (\<lambda>_. Return (Inr (RequeueAfter requeueLong)))))"

section \<open>The reconciler\<close>

definition dnsdist_body :: "ext \<Rightarrow> DNSDist \<Rightarrow> reconcile" where
  "dnsdist_body X d =
     (let msg = validateDNSDist d in
      if msg \<noteq> [] then markDNSDistFailed X d msg
      else
        tryIO (backendsReady d) (\<lambda>b. case b of
          Inl (reason, m) \<Rightarrow>
            markDNSDistNotReady X (dnsdist_setCond X ConditionBackendsReady ''False'' reason m d) reason m requeueShort
        | Inr addrs \<Rightarrow>
            (let d' = dnsdist_setCond X ConditionBackendsReady ''True'' ''BackendsReady'' ''all backends Ready'' d in
             tryIO (dnsdist_converge X d' addrs) (\<lambda>_. refreshDNSDistStatus X d'))))"

definition dnsdist_Reconcile :: "ext \<Rightarrow> NamespacedName \<Rightarrow> reconcile" where
  "dnsdist_Reconcile X key =
     andThen (ask (KGet KDNSDist key) respDNSDist) (\<lambda>r. case r of
       Inl e \<Rightarrow> Return (ignoreNotFound e)
     | Inr d \<Rightarrow> if om_Deleting (dd_Meta d) then Return (Inr Done) else dnsdist_body X d)"

section \<open>Watches\<close>

definition dnsdistIndexKeys :: "DNSDist \<Rightarrow> string list" where
  "dnsdistIndexKeys d = map (\<lambda>ref. refKey ref (om_Namespace (dd_Meta d))) (ds_BackendRefs (dd_Spec d))"

definition dnsdistsForServer :: "PowerDNSServer \<Rightarrow> NamespacedName list kio" where
  "dnsdistsForServer s =
     andThen (ask (KListByIndex KDNSDist dnsdistBackendIndex (showKey (srv_key s)))
       (\<lambda>r. items itemDNSDist (respList r))) (\<lambda>r. Return (case r of
         Inl e \<Rightarrow> []
       | Inr ds \<Rightarrow> map (\<lambda>d. (om_Namespace (dd_Meta d), om_Name (dd_Meta d))) ds))"

section \<open>A tier in front of the demo server\<close>

definition demoTier :: DNSDist where
  "demoTier = \<lparr>dd_Meta = demoMeta ''edge'',
     dd_Spec = \<lparr>ds_Replicas = Some 2, ds_Image = [], ds_Resources = zeroResources,
       ds_Scheduling = \<lparr>sch_NodeSelector = [], sch_Tolerations = [], sch_PriorityClassName = [],
         sch_SpreadAcrossZones = False\<rparr>,
       ds_BackendRefs = [\<lparr>ref_Name = ''pdns'', ref_Namespace = []\<rparr>],
       ds_DNS = \<lparr>dns_Exposure = DNSExposureLoadBalancer,
         dns_LoadBalancer = Some \<lparr>dlb_IP = [], dlb_Annotations = [], dlb_ExternalTrafficPolicy = [],
           dlb_AdditionalServices = [\<lparr>als_NameSuffix = ''-b'', als_IP = ''192.0.2.54'', als_Annotations = [],
             als_ExternalTrafficPolicy = []\<rparr>]\<rparr>,
         dns_Gateway = None\<rparr>,
       ds_Cache_Enabled = None, ds_Cache_MaxEntries = None, ds_RateLimit_QPSPerClient = 0,
       ds_TLS_DoT = \<lparr>tls_Enabled = True, tls_CertificateSecretRef = ''dot-tls''\<rparr>,
       ds_TLS_DoH = \<lparr>tls_Enabled = False, tls_CertificateSecretRef = []\<rparr>,
       ds_PodDisruptionBudget = None\<rparr>,
     dd_Status = \<lparr>dst_Phase = [], dst_DNSEndpoint = [], dst_DesiredReplicas = 0, dst_ReadyReplicas = 0,
       dst_ObservedGeneration = 0, dst_Conditions = [], dst_FailureMessage = []\<rparr>\<rparr>"

definition demoBackendService :: Service where
  "demoBackendService = (let svc = DNSService demoServer in
     svc\<lparr>svc_Spec := (svc_Spec svc)\<lparr>ss_ClusterIP := ''10.0.0.9''\<rparr>\<rparr>)"

definition demoBackends :: "resp list" where
  "demoBackends = [RObj (ObjServer demoServer), RObj (ObjService demoBackendService)]"

definition demoLeftover :: Service where
  "demoLeftover = (let svc = DNSDistDNSService demoTier in
     svc\<lparr>svc_Meta := (svc_Meta svc)\<lparr>om_Name := ''edge-dnsdist-dns-old''\<rparr>\<rparr>)"

definition demoChildren :: "resp list" where
  "demoChildren = [ROk, RErr (mkErr KubeNotFound []), ROk, RErr (mkErr KubeNotFound []), ROk,
     RList [ObjService demoLeftover], ROk, ROk, RErr (mkErr KubeNoMatch []), RErr (mkErr KubeNotFound [])]"

definition demoDeployment :: Deployment where
  "demoDeployment = (DNSDistDeployment demoTier [])\<lparr>dep_AvailableReplicas := 2, dep_ReadyReplicas := 2\<rparr>"

end
