(* ===== verification/DNSDist_Correct.thy ===== *)
theory DNSDist_Correct
  imports DNSDist_Controller Converge_Correct
begin

text \<open>
  Properties of the DNSDist reconciler: the tier is configured only with addresses of Ready
  backends read in the same pass, its status tells what was read, everything it creates is
  owned by the DNSDist, and the Services it deletes are its own leftovers.
\<close>

section \<open>Validation\<close>

lemma utoa_msg_nonempty [simp]: "''backendRefs['' @ xs \<noteq> []"
  by simp

lemma validateBackendRefs_ok:
  "validateBackendRefs i seen refs = [] \<longleftrightarrow>
     (\<forall>ref \<in> set refs. ref_Name ref \<noteq> [] \<and> ref_Namespace ref = [] \<and> ref_Name ref \<notin> set seen) \<and>
     distinct (map ref_Name refs)"
proof (induction i seen refs rule: validateBackendRefs.induct)
  case (2 i seen ref refs)
  show ?case
  proof (cases "ref_Name ref = [] \<or> ref_Namespace ref \<noteq> [] \<or> ref_Name ref \<in> set seen")
    case True
    then show ?thesis by auto
  next
    case False
    with 2 show ?thesis by (simp add: image_iff) metis
  qed
qed simp

lemma pdbMsg_nonempty [simp]: "pdbMsg p n \<noteq> []"
  by (simp add: pdbMsg_def)

lemma validateDNSDist_ok:
  "validateDNSDist d = [] \<longleftrightarrow>
     (\<forall>ref \<in> set (ds_BackendRefs (dd_Spec d)). ref_Name ref \<noteq> [] \<and> ref_Namespace ref = []) \<and>
     distinct (map ref_Name (ds_BackendRefs (dd_Spec d))) \<and>
     \<not> pdbTooHigh (ds_PodDisruptionBudget (dd_Spec d)) (dnsdistReplicas d) \<and>
     (tls_Enabled (ds_TLS_DoT (dd_Spec d)) \<longrightarrow> tls_CertificateSecretRef (ds_TLS_DoT (dd_Spec d)) \<noteq> []) \<and>
     (tls_Enabled (ds_TLS_DoH (dd_Spec d)) \<longrightarrow> tls_CertificateSecretRef (ds_TLS_DoH (dd_Spec d)) \<noteq> []) \<and>
     \<not> gatewayUnset (ds_DNS (dd_Spec d))"
  using validateBackendRefs_ok [of 0 "[]" "ds_BackendRefs (dd_Spec d)"]
  by (auto simp: validateDNSDist_def Let_def dotMsg_def dohMsg_def gatewayUnsetMsg_def)

section \<open>Backends\<close>

text \<open>The backend \<open>ref\<close> was read in \<open>tr\<close>: its server Ready, its DNS Service at \<open>ip\<close>.\<close>

definition backend_read :: "event list \<Rightarrow> string \<Rightarrow> ObjectRef \<Rightarrow> string \<Rightarrow> bool" where
  "backend_read tr ns ref ip \<longleftrightarrow> (\<exists>s svc.
     (KGet KServer (ns, ref_Name ref), RObj (ObjServer s)) \<in> set tr \<and>
     pst_Phase (srv_Status s) = PhaseReady \<and>
     (KGet KService (ns, nm_DNSService (NameSet s)), RObj (ObjService svc)) \<in> set tr \<and>
     ip = ss_ClusterIP (svc_Spec svc) \<and> ip \<noteq> [] \<and> ip \<noteq> ''None'')"

lemma backend_read_mono: "backend_read tr ns ref ip \<Longrightarrow> set tr \<subseteq> set tr' \<Longrightarrow> backend_read tr' ns ref ip"
  unfolding backend_read_def by blast

lemma serviceAddr_ok: "serviceAddr ns svcName n r = Inr (Inr ip) \<longleftrightarrow>
    (\<exists>svc. r = Inr svc \<and> ip = ss_ClusterIP (svc_Spec svc) \<and> ip \<noteq> [] \<and> ip \<noteq> ''None'')"
  by (cases r) (auto simp: serviceAddr_def)

lemma backendAddr_ok:
  assumes "exec (backendAddr ns n) tr (Inr (Inr ip))"
  shows "\<exists>s svc. tr = [(KGet KServer (ns, n), RObj (ObjServer s)),
      (KGet KService (ns, nm_DNSService (NameSet s)), RObj (ObjService svc))] \<and>
    pst_Phase (srv_Status s) = PhaseReady \<and> ip = ss_ClusterIP (svc_Spec svc) \<and> ip \<noteq> [] \<and> ip \<noteq> ''None''"
proof -
  from assms obtain r t where tr: "tr = (KGet KServer (ns, n), r) # t" and
    t: "exec (case respServer r of
       Inl e \<Rightarrow> Return (if err_kind e = KubeNotFound
         then Inr (Inl (''BackendNotFound'', backendNotFoundMsg ns n)) else Inl e)
     | Inr s \<Rightarrow>
         if pst_Phase (srv_Status s) \<noteq> PhaseReady then
           Return (Inr (Inl (''BackendNotReady'', backendNotReadyMsg n (pst_Phase (srv_Status s)))))
         else (let svcName = nm_DNSService (NameSet s) in
            ask (KGet KService (ns, svcName)) (\<lambda>r. serviceAddr ns svcName n (respService r)))) t (Inr (Inr ip))"
    by (auto simp: backendAddr_def exec_Call_iff)
  then show ?thesis
    by (cases "respServer r") (auto simp: Let_def serviceAddr_ok respServer_Inr respService_Inr
        eq_commute [of _ "serviceAddr _ _ _ _"] split: if_splits)
qed

lemma backendsFrom_ok:
  assumes "exec (backendsFrom ns addrs refs) tr (Inr (Inr addrs'))"
  shows "(\<forall>n. n \<notin> ref_Name ` set refs \<longrightarrow> map_of addrs' n = map_of addrs n) \<and>
    (\<forall>ref \<in> set refs. \<exists>ip. map_of addrs' (ref_Name ref) = Some ip \<and> backend_read tr ns ref ip)"
  using assms
proof (induction refs arbitrary: addrs tr)
  case Nil
  then show ?case by simp
next
  case (Cons ref refs)
  from Cons.prems obtain t1 ip t where tr: "tr = t1 @ t" and ip: "exec (backendAddr ns (ref_Name ref)) t1 (Inr (Inr ip))"
    and t: "exec (backendsFrom ns (put (ref_Name ref) ip addrs) refs) t (Inr (Inr addrs'))"
    by (auto simp: exec_tryIO_iff ex_sum_iff)
  have sub: "set t \<subseteq> set tr" using tr by auto
  have here: "backend_read tr ns ref ip"
    using backendAddr_ok [OF ip] tr unfolding backend_read_def by (metis UnI1 list.set_intros set_append)
  note IH = Cons.IH [OF t]
  have "\<exists>ip. map_of addrs' (ref_Name r) = Some ip \<and> backend_read tr ns r ip" if "r \<in> set (ref # refs)" for r
  proof (cases "ref_Name r \<in> ref_Name ` set refs")
    case True
    then obtain r' where "r' \<in> set refs" "ref_Name r = ref_Name r'" by auto
    moreover have "backend_read t' ns r' ip \<Longrightarrow> backend_read t' ns r ip" for t' ip
      using \<open>ref_Name r = ref_Name r'\<close> by (simp add: backend_read_def)
    ultimately show ?thesis using IH backend_read_mono [OF _ sub] by metis
  next
    case False
    with that have "r = ref" by auto
    with IH False here show ?thesis by auto
  qed
  with IH show ?case by auto
qed

section \<open>The shape of a pass\<close>

lemma dnsdist_setCond_sel [simp]:
  "dd_Meta (dnsdist_setCond X a b c e d) = dd_Meta d" "dd_Spec (dnsdist_setCond X a b c e d) = dd_Spec d"
  by (simp_all add: dnsdist_setCond_def)

lemma dnsdist_setPhase_sel [simp]:
  "dd_Meta (dnsdist_setPhase a b d) = dd_Meta d" "dd_Spec (dnsdist_setPhase a b d) = dd_Spec d"
  by (simp_all add: dnsdist_setPhase_def)

text \<open>What is rendered depends on the metadata and the spec only.\<close>

lemma dnsdist_render_cong:
  assumes "dd_Meta d = dd_Meta d'" "dd_Spec d = dd_Spec d'"
  shows "DNSDistConfigMap d = DNSDistConfigMap d'" "DNSDistNameSet d = DNSDistNameSet d'"
    "dnsdistRef d = dnsdistRef d'" "dnsdistLabels d = dnsdistLabels d'" "dnsdistReplicas d = dnsdistReplicas d'"
  using assms by (auto simp: DNSDistConfigMap_def DNSDistConfig_def DNSDistNameSet_def dnsdistRef_def
      dnsdistLabels_def dnsdistReplicas_def fun_eq_iff)

lemma respDNSDist_Inr: "respDNSDist r = Inr x \<longleftrightarrow> r = RObj (ObjDNSDist x)"
  by (cases r rule: respDNSDist.cases) auto

definition withBackends :: "ext \<Rightarrow> DNSDist \<Rightarrow> DNSDist" where
  "withBackends X d = dnsdist_setCond X ConditionBackendsReady ''True'' ''BackendsReady'' ''all backends Ready'' d"

lemma withBackends_sel [simp]:
  "dd_Meta (withBackends X d) = dd_Meta d" "dd_Spec (withBackends X d) = dd_Spec d"
  by (simp_all add: withBackends_def)

text \<open>A pass that stops before the children writes nothing but the status, which is not Ready.\<close>

inductive dnsdist_quiet :: "ext \<Rightarrow> DNSDist \<Rightarrow> req \<Rightarrow> bool" for X d where
  read: "\<not> is_kube_write q \<Longrightarrow> dnsdist_quiet X d q"
| status: "dd_Meta d' = dd_Meta d \<Longrightarrow> phase \<noteq> ZonePhaseReady \<Longrightarrow> dnsdist_quiet X d (KStatusUpdate (ObjDNSDist
    (dnsdist_setCond X ConditionReady ''False'' reason msg (dnsdist_setPhase phase msg d'))))"

definition dnsdist_stopped :: "ext \<Rightarrow> DNSDist \<Rightarrow> event list \<Rightarrow> bool" where
  "dnsdist_stopped X d tr \<longleftrightarrow> (\<forall>e \<in> set tr. dnsdist_quiet X d (fst e))"

lemma dnsdist_stopped_append [simp]:
  "dnsdist_stopped X d (a @ b) \<longleftrightarrow> dnsdist_stopped X d a \<and> dnsdist_stopped X d b"
  by (auto simp: dnsdist_stopped_def)

lemma quiet_stopped: "calls_only (dnsdist_quiet X d) p \<Longrightarrow> exec p tr x \<Longrightarrow> dnsdist_stopped X d tr"
  by (auto simp: dnsdist_stopped_def dest: calls_only_exec)

lemma quiet_reads: "calls_only (dnsdist_quiet X d) (backendsReady d')"
proof -
  have "calls_only (dnsdist_quiet X d) (backendsFrom ns addrs refs)" for ns addrs refs
    by (induction ns addrs refs rule: backendsFrom.induct)
      (auto simp: backendAddr_def Let_def intro!: calls_intros dnsdist_quiet.read split: sum.split)
  then show ?thesis by (simp add: backendsReady_def)
qed

lemma quiet_markNotReady:
  "dd_Meta d' = dd_Meta d \<Longrightarrow> calls_only (dnsdist_quiet X d) (markDNSDistNotReady X d' reason msg after)"
  by (auto simp: markDNSDistNotReady_def zone_phase_defs intro!: calls_intros dnsdist_quiet.status)

lemma quiet_event [simp]: "dnsdist_quiet X d (KEvent k n a b c)"
  by (rule dnsdist_quiet.read) simp

lemma quiet_markFailed: "calls_only (dnsdist_quiet X d) (markDNSDistFailed X d msg)"
  by (auto simp: markDNSDistFailed_def zone_phase_defs intro!: calls_intros dnsdist_quiet.status)

lemma dnsdist_body_cases:
  assumes "exec (dnsdist_body X d) tr x"
  obtains (stopped) "dnsdist_stopped X d tr"
  | (converged) t1 t2 addrs where "validateDNSDist d = []" "tr = t1 @ t2"
      "exec (backendsReady d) t1 (Inr (Inr addrs))"
      "exec (tryIO (dnsdist_converge X (withBackends X d) addrs) (\<lambda>_. refreshDNSDistStatus X (withBackends X d))) t2 x"
proof (cases "validateDNSDist d = []")
  case False
  with assms have "exec (markDNSDistFailed X d (validateDNSDist d)) tr x"
    by (simp add: dnsdist_body_def Let_def)
  then show thesis using stopped quiet_stopped [OF quiet_markFailed] by blast
next
  case True
  have reads: "dnsdist_stopped X d t" if "exec (backendsReady d) t y" for t y
    using quiet_stopped [OF quiet_reads that] .
  from assms True consider (err) e where "exec (backendsReady d) tr (Inl e)"
    | (wait) t1 reason msg t2 where "tr = t1 @ t2" "exec (backendsReady d) t1 (Inr (Inl (reason, msg)))"
        "exec (markDNSDistNotReady X (dnsdist_setCond X ConditionBackendsReady ''False'' reason msg d) reason msg requeueShort) t2 x"
    | (go) t1 addrs t2 where "tr = t1 @ t2" "exec (backendsReady d) t1 (Inr (Inr addrs))"
        "exec (tryIO (dnsdist_converge X (withBackends X d) addrs) (\<lambda>_. refreshDNSDistStatus X (withBackends X d))) t2 x"
    by (auto simp: dnsdist_body_def Let_def exec_tryIO_iff [of "backendsReady d"] ex_sum_iff withBackends_def)
  then show thesis
  proof cases
    case err
    then show ?thesis using stopped reads by blast
  next
    case wait
    then show ?thesis using stopped reads quiet_stopped [OF quiet_markNotReady] by fastforce
  next
    case go
    then show ?thesis using converged True by blast
  qed
qed

lemma dnsdist_Reconcile_cases:
  assumes "exec (dnsdist_Reconcile X key) tr x"
  obtains (ended) r where "tr = [(KGet KDNSDist key, r)]"
  | (body) d t where "tr = (KGet KDNSDist key, RObj (ObjDNSDist d)) # t" "\<not> om_Deleting (dd_Meta d)"
      "exec (dnsdist_body X d) t x"
proof -
  from assms obtain r t where tr: "tr = (KGet KDNSDist key, r) # t" and
    t: "exec (case respDNSDist r of
       Inl e \<Rightarrow> Return (ignoreNotFound e)
     | Inr d \<Rightarrow> if om_Deleting (dd_Meta d) then Return (Inr Done) else dnsdist_body X d) t x"
    by (auto simp: dnsdist_Reconcile_def exec_Call_iff)
  show thesis
  proof (cases "respDNSDist r")
    case (Inl e)
    with t have "t = []" by simp
    with tr show ?thesis by (intro ended [of r]) simp
  next
    case (Inr d)
    with t tr show ?thesis by (auto simp: respDNSDist_Inr intro: ended body split: if_splits)
  qed
qed

section \<open>The requests of a pass\<close>

text \<open>
  What a pass can send to converge the children: reads, objects it owns in its own namespace,
  updates of live Services, and deletions.
\<close>

definition dnsdist_owned :: "DNSDist \<Rightarrow> gomap \<Rightarrow> kobj \<Rightarrow> bool" where
  "dnsdist_owned d addrs x \<longleftrightarrow> om_Owner (obj_meta x) = Some (dnsdistRef d) \<and>
     om_Namespace (obj_meta x) = om_Namespace (dd_Meta d) \<and>
     (\<forall>cm. x = ObjConfigMap cm \<longrightarrow> cm_Data cm = [(''dnsdist.conf'', DNSDistConfig d addrs)])"

inductive dnsdist_request :: "DNSDist \<Rightarrow> gomap \<Rightarrow> req \<Rightarrow> bool" for d addrs where
  reading: "\<not> is_kube_write q \<Longrightarrow> dnsdist_request d addrs q"
| upsert: "dnsdist_owned d addrs x \<Longrightarrow> dnsdist_request d addrs (KCreateOrUpdate x)"
| create: "dnsdist_owned d addrs x \<Longrightarrow> dnsdist_request d addrs (KCreate x)"
| update: "dnsdist_request d addrs (KUpdate (ObjService svc))"
| delete: "k \<in> {KService, KPDB, KTCPRoute, KUDPRoute} \<Longrightarrow> dnsdist_request d addrs (KDelete k n)"

inductive_simps dnsdist_request_simps [simp]:
  "dnsdist_request d addrs (KGet k n)" "dnsdist_request d addrs (KListByLabels k n ls)"
  "dnsdist_request d addrs (KCreateOrUpdate x)" "dnsdist_request d addrs (KCreate x)"
  "dnsdist_request d addrs (KUpdate x)" "dnsdist_request d addrs (KDelete k n)"
  "dnsdist_request d addrs (KStatusUpdate x)"

lemma withOwner_meta [simp]: "obj_meta (withOwner ow x) = (obj_meta x)\<lparr>om_Owner := Some ow\<rparr>"
  by (simp add: withOwner_def)

lemma deref_sel [simp]:
  "om_Namespace (svc_Meta (deref st r)) = om_Namespace (svc_Meta (sref_Rest r))"
  "om_Name (svc_Meta (deref st r)) = om_Name (svc_Meta (sref_Rest r))"
  by (simp_all add: deref_def)

lemma additional_refs:
  assumes "DNSDistAdditionalDNSServices d = (st, refs)" "r \<in> set refs"
  shows "om_Namespace (svc_Meta (sref_Rest r)) = om_Namespace (dd_Meta d)"
    "sref_Labels r = 0" "sref_Selector r = 0" "st = [dnsdistLabels d]"
  using assms by (auto simp: DNSDistAdditionalDNSServices_def Let_def newMeta_def
      split: if_splits option.splits)

lemma calls_applyAdditional:
  assumes laws: "retry_laws X" "owner_laws X"
    and refs: "\<And>r. r \<in> set refs \<Longrightarrow> om_Namespace (svc_Meta (sref_Rest r)) = om_Namespace (dd_Meta d)"
  shows "calls_only (dnsdist_request d addrs) (applyAdditional X d st refs)"
  using refs
proof (induction refs arbitrary: st)
  case (Cons r rs)
  have "calls_only (dnsdist_request d addrs) (updateService X svc)"
    if "ownedService X (dnsdistRef d) (om_Namespace (dd_Meta d)) (deref st' r) = Inr svc" for st' svc
    using ownedService_ok [OF laws(2) that] Cons.prems laws(1)
    by (auto simp: dnsdist_owned_def intro!: calls_only_updateService)
  with Cons show ?case by (auto simp: Let_def intro!: calls_intros split: sum.split)
qed simp

lemma calls_tlsSecrets: "calls_only (dnsdist_request d addrs) (tlsSecrets ns acc ls)"
  by (induction ns acc ls rule: tlsSecrets.induct) (auto simp: Let_def intro!: calls_intros split: sum.split)

lemma newMeta_simps [simp]:
  "om_Name (newMeta n ns ls) = n" "om_Namespace (newMeta n ns ls) = ns" "om_Labels (newMeta n ns ls) = ls"
  by (simp_all add: newMeta_def)

lemma calls_upsertOwned:
  "dnsdist_owned d addrs (withOwner ow x) \<Longrightarrow> calls_only (dnsdist_request d addrs) (upsertOwned ow x)"
  by (simp add: upsertOwned_def calls_intros)

lemma dnsdist_rendered_ns [simp]:
  "om_Namespace (dep_Meta (DNSDistDeployment d h)) = om_Namespace (dd_Meta d)"
  "om_Namespace (svc_Meta (DNSDistDNSService d)) = om_Namespace (dd_Meta d)"
  "om_Namespace (l4_Meta (DNSDistTCPRoute d)) = om_Namespace (dd_Meta d)"
  "om_Namespace (l4_Meta (DNSDistUDPRoute d)) = om_Namespace (dd_Meta d)"
  "DNSDistPDB d = Some pdb \<Longrightarrow> om_Namespace (pdb_Meta pdb) = om_Namespace (dd_Meta d)"
  "om_Namespace (cm_Meta (DNSDistConfigMap d addrs)) = om_Namespace (dd_Meta d)"
  by (auto simp: DNSDistDeployment_def DNSDistDNSService_def DNSDistTCPRoute_def DNSDistUDPRoute_def
      buildL4Route_def DNSDistPDB_def pdbFor_def DNSDistConfigMap_def Let_def split: if_splits)

lemma calls_converge:
  assumes laws: "retry_laws X" "owner_laws X"
  shows "calls_only (dnsdist_request d addrs) (dnsdist_converge X d addrs)"
proof -
  have cm: "calls_only (dnsdist_request d addrs) (upsertOwned (dnsdistRef d) (ObjConfigMap (DNSDistConfigMap d addrs)))"
    by (intro calls_upsertOwned) (simp add: dnsdist_owned_def withOwner_def DNSDistConfigMap_def Let_def)
  have dep: "calls_only (dnsdist_request d addrs) (upsertOwned (dnsdistRef d) (ObjDeployment (DNSDistDeployment d h)))" for h
    by (intro calls_upsertOwned) (simp add: dnsdist_owned_def withOwner_def)
  have "calls_only (dnsdist_request d addrs) (updateService X svc)"
    if "ownedService X (dnsdistRef d) (om_Namespace (dd_Meta d)) (DNSDistDNSService d) = Inr svc" for svc
    using ownedService_ok [OF laws(2) that] laws(1)
    by (auto simp: dnsdist_owned_def intro!: calls_only_updateService)
  then have svc: "calls_only (dnsdist_request d addrs) (dnsdist_service X d)"
    by (auto simp: dnsdist_service_def intro!: calls_intros split: sum.split)
  have add: "calls_only (dnsdist_request d addrs) (reconcileDNSDistAdditionalServices X d)"
    by (auto simp: reconcileDNSDistAdditionalServices_def Let_def intro!: calls_intros
        calls_applyAdditional [OF laws] dest: additional_refs(1) split: prod.split)
  have pdb: "calls_only (dnsdist_request d addrs) (dnsdistBudget d)"
    by (auto simp: dnsdistBudget_def dnsdist_owned_def withOwner_def intro!: calls_intros calls_upsertOwned split: option.split)
  have routes: "calls_only (dnsdist_request d addrs) (reconcileDNSDistRoutes X d)"
    by (auto simp: reconcileDNSDistRoutes_def Let_def dnsdist_owned_def withOwner_def intro!: calls_intros calls_upsertOwned)
  show ?thesis
    unfolding dnsdist_converge_def dnsdist_workload_def Let_def
    by (intro calls_intros cm dep svc add pdb routes calls_tlsSecrets)
qed

lemma calls_refresh:
  "calls_only (\<lambda>q. \<not> is_kube_write q \<or> (\<exists>d'. q = KStatusUpdate (ObjDNSDist d'))) (refreshDNSDistStatus X d)"
  by (auto simp: refreshDNSDistStatus_def dnsdist_endpoint_def Let_def intro!: calls_intros)

lemma dnsdist_owned_cong:
  "dd_Meta d' = dd_Meta d \<Longrightarrow> dd_Spec d' = dd_Spec d \<Longrightarrow> dnsdist_request d' addrs q = dnsdist_request d addrs q"
proof -
  assume eq: "dd_Meta d' = dd_Meta d" "dd_Spec d' = dd_Spec d"
  then have "DNSDistConfig d' addrs = DNSDistConfig d addrs" by (simp add: DNSDistConfig_def)
  with eq have "dnsdist_owned d' addrs x = dnsdist_owned d addrs x" for x
    by (simp add: dnsdist_owned_def dnsdistRef_def)
  then show ?thesis by (simp add: dnsdist_request.simps)
qed

text \<open>Every request of a live pass, past the opening read.\<close>

lemma dnsdist_pass:
  assumes laws: "retry_laws X" "owner_laws X"
    and "exec (dnsdist_Reconcile X key) tr res" "(q, r) \<in> set tr" "is_kube_write q"
  obtains d where "(KGet KDNSDist key, RObj (ObjDNSDist d)) \<in> set tr" "\<not> om_Deleting (dd_Meta d)"
      "dnsdist_quiet X d q"
  | d addrs where "(KGet KDNSDist key, RObj (ObjDNSDist d)) \<in> set tr" "\<not> om_Deleting (dd_Meta d)"
      "validateDNSDist d = []" "dnsdist_request d addrs q \<or> (\<exists>d'. q = KStatusUpdate (ObjDNSDist d'))"
      "\<forall>ref \<in> set (ds_BackendRefs (dd_Spec d)).
        \<exists>ip. map_of addrs (ref_Name ref) = Some ip \<and> backend_read tr (om_Namespace (dd_Meta d)) ref ip"
  using assms(3)
proof (cases rule: dnsdist_Reconcile_cases)
  case (ended r')
  with assms show ?thesis by auto
next
  case (body d t)
  have d: "(KGet KDNSDist key, RObj (ObjDNSDist d)) \<in> set tr" and q: "(q, r) \<in> set t"
    using body(1) assms(4,5) by auto
  from body(3) show ?thesis
  proof (cases rule: dnsdist_body_cases)
    case stopped
    with q d body(2) that(1) show ?thesis by (auto simp: dnsdist_stopped_def)
  next
    case (converged t1 t2 addrs)
    have reads: "\<forall>ref \<in> set (ds_BackendRefs (dd_Spec d)).
        \<exists>ip. map_of addrs (ref_Name ref) = Some ip \<and> backend_read tr (om_Namespace (dd_Meta d)) ref ip"
    proof -
      have "set t1 \<subseteq> set tr" using converged(2) body(1) by auto
      from backend_read_mono [OF _ this] backendsFrom_ok [OF converged(3) [unfolded backendsReady_def]]
      show ?thesis by meson
    qed
    from q converged(2) consider "(q, r) \<in> set t1" | "(q, r) \<in> set t2" by auto
    then show ?thesis
    proof cases
      case 1
      from calls_only_exec [OF converged(3) quiet_reads 1] show ?thesis using that(1) d body(2) by blast
    next
      case 2
      have "calls_only (\<lambda>q. dnsdist_request (withBackends X d) addrs q \<or> (\<exists>d'. q = KStatusUpdate (ObjDNSDist d')))
          (tryIO (dnsdist_converge X (withBackends X d) addrs) (\<lambda>_. refreshDNSDistStatus X (withBackends X d)))"
        by (intro calls_only_tryIO calls_only_mono [OF calls_converge [OF laws]] calls_only_mono [OF calls_refresh])
          (auto intro: dnsdist_request.reading)
      from calls_only_exec [OF converged(4) this 2]
      have "dnsdist_request d addrs q \<or> (\<exists>d'. q = KStatusUpdate (ObjDNSDist d'))"
        by (simp add: dnsdist_owned_cong [of "withBackends X d" d])
      with that(2) d body(2) converged(1) reads show ?thesis by blast
    qed
  qed
qed

lemma refExt_retry_owner: "retry_laws refExt" "owner_laws refExt" "condition_laws refExt" "equality_laws refExt"
  using refExt_laws by (simp_all add: ext_laws_def)

text \<open>A complete pass over the demo tier.\<close>

definition demoTierConfig :: ConfigMap where
  "demoTierConfig = (let cm = DNSDistConfigMap demoTier [(''pdns'', ''10.0.0.9'')] in
     cm\<lparr>cm_Meta := (cm_Meta cm)\<lparr>om_Owner := Some (dnsdistRef demoTier)\<rparr>\<rparr>)"

lemma dnsdist_pass_intro:
  assumes "validateDNSDist d = []" "\<not> om_Deleting (dd_Meta d)" "exec (backendsReady d) tb (Inr (Inr addrs))"
    and "exec (dnsdist_converge X (withBackends X d) addrs) tc (Inr ())"
    and "exec (refreshDNSDistStatus X (withBackends X d)) ts res"
  shows "exec (dnsdist_Reconcile X key) ((KGet KDNSDist key, RObj (ObjDNSDist d)) # tb @ tc @ ts) res"
proof -
  have "exec (dnsdist_body X d) (tb @ tc @ ts) res"
    using assms(1,3-) unfolding dnsdist_body_def Let_def tryIO_def withBackends_def
    by (auto intro!: exec_andThenI)
  with assms(2) show ?thesis by (auto simp: dnsdist_Reconcile_def intro!: exec_Call)
qed

lemma dnsdist_converge_intro:
  assumes "exec (upsertOwned (dnsdistRef d) (ObjConfigMap (DNSDistConfigMap d addrs))) t1 (Inr ())"
    and "exec (tlsSecrets (om_Namespace (dd_Meta d)) [] (tlsListeners (dd_Spec d))) t2 (Inr secs)"
    and "exec (dnsdist_workload X d (ConfigHash (index (cm_Data (DNSDistConfigMap d addrs)) ''dnsdist.conf'') secs)) t3 x"
  shows "exec (dnsdist_converge X d addrs) (t1 @ t2 @ t3) x"
  using assms unfolding dnsdist_converge_def Let_def tryIO_def mapErr_def
  by (auto intro!: exec_andThenI [of _ t1 "Inr ()"] exec_andThenI [of _ t2 "Inr secs"] exec_andThenI [of _ t1 _ _ "[]", simplified])

definition demoReadyTrace :: "event list" where
  "demoReadyTrace =
     (let d = withBackends refExt demoTier; addrs = [(''pdns'', ''10.0.0.9'')];
          h = ConfigHash (index (cm_Data (DNSDistConfigMap d addrs)) ''dnsdist.conf'') [sec_Data demoSecret] in
      [(KGet KDNSDist (''dns'', ''edge''), RObj (ObjDNSDist demoTier))] @
      trace_of ROk (backendsReady demoTier) demoBackends @
      ([(KCreateOrUpdate (withOwner (dnsdistRef d) (ObjConfigMap (DNSDistConfigMap d addrs))), ROk)] @
       [(KGet KSecret (''dns'', ''dot-tls''), RObj (ObjSecret demoSecret))] @
       trace_of ROk (dnsdist_workload refExt d h) demoChildren) @
      trace_of ROk (refreshDNSDistStatus refExt d) [RObj (ObjDeployment demoDeployment), RObj (ObjService demoBackendService), ROk])"

definition demoReadyTier :: DNSDist where
  "demoReadyTier = dnsdist_final refExt (withBackends refExt demoTier) demoDeployment []"

lemma demo_workload_ok: "result_of ROk (dnsdist_workload refExt (withBackends refExt demoTier) h) demoChildren = Inr ()"
  by code_simp

lemma demo_pass:
  "exec (dnsdist_Reconcile refExt (''dns'', ''edge'')) demoReadyTrace (Inr (RequeueAfter 30))"
proof -
  let ?d = "withBackends refExt demoTier" and ?addrs = "[(''pdns'', ''10.0.0.9'')]"
  let ?rs = "[RObj (ObjDeployment demoDeployment), RObj (ObjService demoBackendService), ROk]"
  have v: "validateDNSDist demoTier = []" "\<not> om_Deleting (dd_Meta demoTier)" by code_simp+
  have b: "result_of ROk (backendsReady demoTier) demoBackends = Inr (Inr ?addrs)" by code_simp
  have s: "result_of ROk (refreshDNSDistStatus refExt ?d) ?rs = Inr (RequeueAfter 30)" by code_simp
  have tls: "exec (tlsSecrets (om_Namespace (dd_Meta ?d)) [] (tlsListeners (dd_Spec ?d)))
      [(KGet KSecret (''dns'', ''dot-tls''), RObj (ObjSecret demoSecret))] (Inr [sec_Data demoSecret])"
    by (simp add: tlsListeners_def demoTier_def demoMeta_def Let_def exec_Call_iff)
  have conv: "exec (dnsdist_converge refExt ?d ?addrs)
      ([(KCreateOrUpdate (withOwner (dnsdistRef ?d) (ObjConfigMap (DNSDistConfigMap ?d ?addrs))), ROk)] @
       [(KGet KSecret (''dns'', ''dot-tls''), RObj (ObjSecret demoSecret))] @
       trace_of ROk (dnsdist_workload refExt ?d
         (ConfigHash (index (cm_Data (DNSDistConfigMap ?d ?addrs)) ''dnsdist.conf'') [sec_Data demoSecret])) demoChildren) (Inr ())"
    by (rule dnsdist_converge_intro [OF _ tls])
      (simp add: upsertOwned_def, metis exec_trace_of demo_workload_ok)
  have tb: "exec (backendsReady demoTier) (trace_of ROk (backendsReady demoTier) demoBackends) (Inr (Inr ?addrs))"
    using exec_trace_of [of "backendsReady demoTier" ROk demoBackends] by (simp only: b)
  have ts: "exec (refreshDNSDistStatus refExt ?d) (trace_of ROk (refreshDNSDistStatus refExt ?d) ?rs) (Inr (RequeueAfter 30))"
    using exec_trace_of [of "refreshDNSDistStatus refExt ?d" ROk ?rs] by (simp only: s)
  from dnsdist_pass_intro [OF v tb conv ts, of "(''dns'', ''edge'')"]
  show ?thesis unfolding demoReadyTrace_def Let_def append_Cons append_Nil append_assoc .
qed

lemma demo_pass_writes:
  "(KCreateOrUpdate (ObjConfigMap demoTierConfig), ROk) \<in> set demoReadyTrace"
  "(KStatusUpdate (ObjDNSDist demoReadyTier), ROk) \<in> set demoReadyTrace"
  "(KGet KDNSDist (''dns'', ''edge''), RObj (ObjDNSDist demoTier)) \<in> set demoReadyTrace"
proof -
  have "withOwner (dnsdistRef (withBackends refExt demoTier)) (ObjConfigMap (DNSDistConfigMap (withBackends refExt demoTier)
      [(''pdns'', ''10.0.0.9'')])) = ObjConfigMap demoTierConfig"
    using dnsdist_render_cong [of "withBackends refExt demoTier" demoTier]
    by (simp add: demoTierConfig_def withOwner_def Let_def)
  then show "(KCreateOrUpdate (ObjConfigMap demoTierConfig), ROk) \<in> set demoReadyTrace"
    by (simp add: demoReadyTrace_def Let_def)
  have "last (trace_of ROk (refreshDNSDistStatus refExt (withBackends refExt demoTier))
      [RObj (ObjDeployment demoDeployment), RObj (ObjService demoBackendService), ROk]) = (KStatusUpdate (ObjDNSDist demoReadyTier), ROk)"
    "trace_of ROk (refreshDNSDistStatus refExt (withBackends refExt demoTier))
      [RObj (ObjDeployment demoDeployment), RObj (ObjService demoBackendService), ROk] \<noteq> []"
    by code_simp+
  then show "(KStatusUpdate (ObjDNSDist demoReadyTier), ROk) \<in> set demoReadyTrace"
    unfolding demoReadyTrace_def Let_def by (metis UnI2 last_in_set set_append)
qed (simp add: demoReadyTrace_def Let_def)



text \<open>
  Children are owned.  The reconciler has no finalizer because \<open>every child is reaped by GC
  through owner references\<close>: every object a pass creates or upserts is in the DNSDist's
  namespace and carries a controller reference to that DNSDist.
\<close>

theorem dnsdist_children_owned:
  assumes "retry_laws X" "owner_laws X"
    and "exec (dnsdist_Reconcile X key) tr res" "(q, r) \<in> set tr" "q = KCreate x \<or> q = KCreateOrUpdate x"
  shows "\<exists>d. (KGet KDNSDist key, RObj (ObjDNSDist d)) \<in> set tr \<and> \<not> om_Deleting (dd_Meta d) \<and>
    validateDNSDist d = [] \<and> om_Owner (obj_meta x) = Some (dnsdistRef d) \<and>
    om_Namespace (obj_meta x) = om_Namespace (dd_Meta d)"
proof -
  from assms(5) have "is_kube_write q" by auto
  from dnsdist_pass [OF assms(1-4) this] show ?thesis
  proof cases
    case (1 d)
    with assms(5) show ?thesis by (auto elim: dnsdist_quiet.cases)
  next
    case (2 d addrs)
    with assms(5) have "dnsdist_owned d addrs x" by auto
    with 2 show ?thesis by (auto simp: dnsdist_owned_def)
  qed
qed

theorem dnsdist_children_owned_witness:
  "\<exists>d. validateDNSDist d = [] \<and> om_Owner (cm_Meta demoTierConfig) = Some (dnsdistRef d) \<and>
    om_Namespace (cm_Meta demoTierConfig) = om_Namespace (dd_Meta d)"
  using dnsdist_children_owned [OF refExt_retry_owner(1,2) demo_pass demo_pass_writes(1), of "ObjConfigMap demoTierConfig"]
  by auto

section \<open>Status\<close>

lemma dnsdist_setCond_find:
  "condition_laws X \<Longrightarrow> findCond t (dst_Conditions (dd_Status (dnsdist_setCond X c s reason msg d))) =
     (if t = c then Some \<lparr>cond_Type = c, cond_Status = s, cond_Reason = reason, cond_Message = msg,
        cond_ObservedGeneration = om_Generation (dd_Meta d)\<rparr>
      else findCond t (dst_Conditions (dd_Status d)))"
  by (simp add: dnsdist_setCond_def setCondOn_def condition_laws_set)

lemma quiet_not_ready:
  assumes "condition_laws X" "dnsdist_quiet X d (KStatusUpdate (ObjDNSDist d'))"
  shows "\<not> isReady (dst_Conditions (dd_Status d'))"
  using assms(2) by cases (auto simp: isReady_def dnsdist_setCond_find [OF assms(1)])

lemma final_ready:
  "condition_laws X \<Longrightarrow> isReady (dst_Conditions (dd_Status (dnsdist_final X d dep ep))) \<longleftrightarrow> available dep"
  by (simp add: dnsdist_final_def Let_def isReady_def dnsdist_setCond_find)

lemma final_sel [simp]:
  "dst_DesiredReplicas (dd_Status (dnsdist_final X d dep ep)) = liveReplicas dep"
  "dst_ReadyReplicas (dd_Status (dnsdist_final X d dep ep)) = dep_ReadyReplicas dep"
  "dst_DNSEndpoint (dd_Status (dnsdist_final X d dep ep)) = ep"
  "dst_ObservedGeneration (dd_Status (dnsdist_final X d dep ep)) = om_Generation (dd_Meta d)"
  by (simp_all add: dnsdist_final_def Let_def dnsdist_setCond_def)

lemma respDeployment_Inr: "respDeployment r = Inr x \<longleftrightarrow> r = RObj (ObjDeployment x)"
  by (cases r rule: respDeployment.cases) auto

lemma refresh_status:
  assumes "exec (refreshDNSDistStatus X d) tr x" "(KStatusUpdate (ObjDNSDist d'), r) \<in> set tr"
  obtains dep ep where "(KGet KDeployment (om_Namespace (dd_Meta d), dn_Deployment (DNSDistNameSet d)),
      RObj (ObjDeployment dep)) \<in> set tr" "d' = dnsdist_final X d dep ep"
proof -
  from assms(1) consider e where "tr = [(KGet KDeployment (om_Namespace (dd_Meta d), dn_Deployment (DNSDistNameSet d)), e)]"
    | dep t ep r' where "tr = (KGet KDeployment (om_Namespace (dd_Meta d), dn_Deployment (DNSDistNameSet d)),
        RObj (ObjDeployment dep)) # t @ [(KStatusUpdate (ObjDNSDist (dnsdist_final X d dep ep)), r')]"
        "exec (dnsdist_endpoint d) t ep"
    by (auto simp: refreshDNSDistStatus_def exec_tryIO_iff exec_andThen_iff respDeployment_Inr
        eq_commute [of _ "respDeployment _"])
  then show thesis
  proof cases
    case (2 dep t ep r')
    have "calls_only (\<lambda>q. \<not> is_kube_write q) (dnsdist_endpoint d)"
      by (auto simp: dnsdist_endpoint_def Let_def intro!: calls_intros)
    from calls_only_exec [OF 2(2) this] have "(KStatusUpdate (ObjDNSDist d'), r) \<notin> set t" by force
    with assms(2) 2(1) that show ?thesis by auto
  qed (use assms(2) in auto)
qed

lemma converged_status:
  assumes laws: "retry_laws X" "owner_laws X" "condition_laws X"
    and conv: "exec (tryIO (dnsdist_converge X (withBackends X d) addrs) (\<lambda>_. refreshDNSDistStatus X (withBackends X d))) tr res"
    and status: "(KStatusUpdate (ObjDNSDist d'), r) \<in> set tr" and ready: "isReady (dst_Conditions (dd_Status d'))"
  obtains tc ts dep ep where "tr = tc @ ts" "exec (dnsdist_converge X (withBackends X d) addrs) tc (Inr ())"
    "(KGet KDeployment (om_Namespace (dd_Meta d), dn_Deployment (DNSDistNameSet d)), RObj (ObjDeployment dep)) \<in> set ts"
    "available dep" "d' = dnsdist_final X (withBackends X d) dep ep"
proof -
  let ?d = "withBackends X d"
  have no: "(KStatusUpdate (ObjDNSDist d'), r) \<notin> set u" if "exec (dnsdist_converge X ?d addrs) u y" for u y
    using calls_only_exec [OF that calls_converge [OF laws(1,2)]] by fastforce
  from conv consider e where "exec (dnsdist_converge X ?d addrs) tr (Inl e)"
    | tc ts where "tr = tc @ ts" "exec (dnsdist_converge X ?d addrs) tc (Inr ())" "exec (refreshDNSDistStatus X ?d) ts res"
    by (auto simp: exec_tryIO_iff [of "dnsdist_converge X ?d addrs"])
  then show thesis
  proof cases
    case 1
    with no status show ?thesis by auto
  next
    case (2 tc ts)
    with no status have "(KStatusUpdate (ObjDNSDist d'), r) \<in> set ts" by auto
    with 2(3) obtain dep ep where dep: "(KGet KDeployment (om_Namespace (dd_Meta ?d), dn_Deployment (DNSDistNameSet ?d)),
        RObj (ObjDeployment dep)) \<in> set ts" and d': "d' = dnsdist_final X ?d dep ep"
      by (rule refresh_status)
    moreover from ready d' have "available dep" by (simp add: final_ready [OF laws(3)])
    ultimately show ?thesis
      using 2(1,2) dnsdist_render_cong(2) [of ?d d] by (intro that [of tc ts dep ep]) simp_all
  qed
qed

text \<open>
  C38: The status tells what was seen.  A DNSDist is stored with a true Ready condition only at
  the end of a pass in which every backend was Ready, all children converged without an error,
  and the Deployment read back afterwards had all of its (at least one) desired replicas
  available; the replica counts stored are those of that Deployment and the generation is that
  of the spec that was converged.
\<close>

theorem dnsdist_ready_honest:
  assumes laws: "retry_laws X" "owner_laws X" "condition_laws X"
    and "exec (dnsdist_Reconcile X key) tr res" "(KStatusUpdate (ObjDNSDist d'), r) \<in> set tr"
    and ready: "isReady (dst_Conditions (dd_Status d'))"
  shows "\<exists>d dep addrs tb tc ts. tr = (KGet KDNSDist key, RObj (ObjDNSDist d)) # tb @ tc @ ts \<and>
    validateDNSDist d = [] \<and> exec (backendsReady d) tb (Inr (Inr addrs)) \<and>
    exec (dnsdist_converge X (withBackends X d) addrs) tc (Inr ()) \<and>
    (KGet KDeployment (om_Namespace (dd_Meta d), dn_Deployment (DNSDistNameSet d)), RObj (ObjDeployment dep)) \<in> set ts \<and>
    dep_AvailableReplicas dep = liveReplicas dep \<and> liveReplicas dep > 0 \<and>
    dst_DesiredReplicas (dd_Status d') = liveReplicas dep \<and>
    dst_ReadyReplicas (dd_Status d') = dep_ReadyReplicas dep \<and>
    dst_ObservedGeneration (dd_Status d') = om_Generation (dd_Meta d)"
  using assms(4)
proof (cases rule: dnsdist_Reconcile_cases)
  case (ended r')
  with assms(5) show ?thesis by auto
next
  case (body d t)
  with assms(5) have q: "(KStatusUpdate (ObjDNSDist d'), r) \<in> set t" by auto
  from body(3) show ?thesis
  proof (cases rule: dnsdist_body_cases)
    case stopped
    with q quiet_not_ready [OF laws(3)] ready show ?thesis by (fastforce simp: dnsdist_stopped_def)
  next
    case (converged tb t2 addrs)
    have "(KStatusUpdate (ObjDNSDist d'), r) \<notin> set tb"
      using calls_only_exec [OF converged(3) quiet_reads] quiet_not_ready [OF laws(3)] ready by blast
    with q converged(2) have "(KStatusUpdate (ObjDNSDist d'), r) \<in> set t2" by auto
    from laws converged(4) this ready obtain tc ts dep ep where t2: "t2 = tc @ ts"
      "exec (dnsdist_converge X (withBackends X d) addrs) tc (Inr ())"
      "(KGet KDeployment (om_Namespace (dd_Meta d), dn_Deployment (DNSDistNameSet d)), RObj (ObjDeployment dep)) \<in> set ts"
      "available dep" "d' = dnsdist_final X (withBackends X d) dep ep"
      by (rule converged_status)
    with body(1) converged(1,2,3) show ?thesis
      by (intro exI [of _ d] exI [of _ dep] exI [of _ addrs] exI [of _ tb] exI [of _ tc] exI [of _ ts])
        (simp add: available_def)
  qed
qed

theorem dnsdist_ready_honest_witness:
  "\<exists>d dep addrs tb tc ts. demoReadyTrace = (KGet KDNSDist (''dns'', ''edge''), RObj (ObjDNSDist d)) # tb @ tc @ ts \<and>
    exec (backendsReady d) tb (Inr (Inr addrs)) \<and>
    exec (dnsdist_converge refExt (withBackends refExt d) addrs) tc (Inr ()) \<and>
    dep_AvailableReplicas dep = liveReplicas dep \<and> dst_DesiredReplicas (dd_Status demoReadyTier) = liveReplicas dep"
proof -
  have "isReady (dst_Conditions (dd_Status demoReadyTier))" by code_simp
  from dnsdist_ready_honest [OF refExt_retry_owner(1-3) demo_pass demo_pass_writes(2) this] show ?thesis by blast
qed

section \<open>Additional Services\<close>

definition dead_selector :: "gomap \<Rightarrow> bool" where
  "dead_selector sel \<longleftrightarrow> map_of sel roleLabel = Some additionalRole"

lemma dead_selector_selects:
  assumes "dead_selector sel"
  shows "\<not> selects sel (pt_Labels (dps_Template (dep_Spec (DNSDistDeployment d h))))"
proof -
  from assms have "(roleLabel, additionalRole) \<in> set sel" by (simp add: dead_selector_def map_of_SomeD)
  moreover have "map_of (pt_Labels (dps_Template (dep_Spec (DNSDistDeployment d h)))) roleLabel = None"
    by (simp add: DNSDistDeployment_def dnsdistLabels_def Let_def label_defs roleLabel_def)
  ultimately show ?thesis by (fastforce simp: selects_def list_all_iff)
qed

definition dead_write :: "req \<Rightarrow> bool" where
  "dead_write q \<longleftrightarrow> (\<forall>svc. q = KCreate (ObjService svc) \<or> q = KUpdate (ObjService svc) \<longrightarrow>
     dead_selector (ss_Selector (svc_Spec svc)))"

lemma dead_write_simps [simp]:
  "dead_write (KGet k n)" "dead_write (KDelete k n)" "dead_write (KListByLabels k ns ls)"
  "dead_write (KCreate (ObjService svc)) \<longleftrightarrow> dead_selector (ss_Selector (svc_Spec svc))"
  "dead_write (KUpdate (ObjService svc)) \<longleftrightarrow> dead_selector (ss_Selector (svc_Spec svc))"
  by (auto simp: dead_write_def)

lemma calls_additional_dead:
  assumes laws: "retry_laws X" "owner_laws X"
    and "\<forall>r \<in> set refs. sref_Labels r = 0 \<and> sref_Selector r = 0" "st \<noteq> []"
  shows "calls_only dead_write (applyAdditional X d st refs)"
  using assms(3,4)
proof (induction refs arbitrary: st)
  case (Cons r rs)
  have "calls_only dead_write (updateService X svc)"
    if "ownedService X (dnsdistRef d) (om_Namespace (dd_Meta d)) (deref (setLabel r roleLabel additionalRole st) r) = Inr svc" for svc
    using ownedService_ok [OF laws(2) that] Cons.prems laws(1)
    by (auto simp: deref_def setLabel_def mergedService_def dead_selector_def intro!: calls_only_updateService)
  moreover have "setLabel r roleLabel additionalRole st \<noteq> []" using Cons.prems by (simp add: setLabel_def)
  then have "calls_only dead_write (applyAdditional X d (setLabel r roleLabel additionalRole st) rs)"
    by (rule Cons.IH [rotated]) (use Cons.prems(1) in simp)
  ultimately show ?case by (auto simp: Let_def intro!: calls_only_tryIO split: sum.split)
qed simp

text \<open>
  The additional Services of a tier reach no pod.  \<open>DNSDistAdditionalDNSServices\<close> uses one
  map as the labels and as the selector of every Service, and the reconciler adds the role
  label to the labels of that Service, hence to the selector: every additional Service the
  reconciler creates or updates requires the label
  \<open>dns.aetherplatform.cloud/role=additional-dns\<close> of its pods, which the pods of the
  tier's Deployment do not have.
\<close>

theorem dnsdist_additional_unreachable:
  assumes "retry_laws X" "owner_laws X" "exec (reconcileDNSDistAdditionalServices X d) tr x"
    and "(q, r) \<in> set tr" "q = KCreate (ObjService svc) \<or> q = KUpdate (ObjService svc)"
  shows "map_of (ss_Selector (svc_Spec svc)) roleLabel = Some additionalRole \<and>
    \<not> selects (ss_Selector (svc_Spec svc)) (pt_Labels (dps_Template (dep_Spec (DNSDistDeployment d h))))"
proof -
  obtain st refs where sr: "DNSDistAdditionalDNSServices d = (st, refs)" by fastforce
  have "calls_only dead_write (applyAdditional X d st refs)"
  proof (cases "refs = []")
    case False
    then have "st \<noteq> []" using additional_refs(4) [OF sr] by (cases refs) auto
    then show ?thesis using additional_refs(2,3) [OF sr] by (intro calls_additional_dead assms(1,2)) auto
  qed simp
  then have "calls_only dead_write (reconcileDNSDistAdditionalServices X d)"
    by (auto simp: reconcileDNSDistAdditionalServices_def sr intro!: calls_intros)
  from calls_only_exec [OF assms(3) this assms(4)] assms(5) have "dead_selector (ss_Selector (svc_Spec svc))"
    by (auto simp: dead_write_def)
  with dead_selector_selects show ?thesis by (simp add: dead_selector_def)
qed

theorem dnsdist_additional_unreachable_witness:
  "list_ex (\<lambda>(q, r). case q of KCreate (ObjService svc) \<Rightarrow>
      \<not> selects (ss_Selector (svc_Spec svc)) (pt_Labels (dps_Template (dep_Spec (DNSDistDeployment demoTier ''h''))))
    | _ \<Rightarrow> False)
    (trace_of ROk (reconcileDNSDistAdditionalServices refExt demoTier) (drop 3 demoChildren))"
proof -
  let ?tr = "trace_of ROk (reconcileDNSDistAdditionalServices refExt demoTier) (drop 3 demoChildren)"
  have "list_ex (\<lambda>(q, r). case q of KCreate (ObjService svc) \<Rightarrow> True | _ \<Rightarrow> False) ?tr" by code_simp
  then obtain svc r where "(KCreate (ObjService svc), r) \<in> set ?tr"
    by (auto simp: list_ex_iff split: req.splits kobj.splits)
  moreover from dnsdist_additional_unreachable [OF refExt_retry_owner(1,2) exec_trace_of calculation, of svc "''h''"]
  have "\<not> selects (ss_Selector (svc_Spec svc)) (pt_Labels (dps_Template (dep_Spec (DNSDistDeployment demoTier ''h''))))"
    by blast
  ultimately show ?thesis by (force simp: list_ex_iff)
qed

definition additionalNames :: "DNSDist \<Rightarrow> string list" where
  "additionalNames d = map (\<lambda>r. om_Name (svc_Meta (sref_Rest r))) (snd (DNSDistAdditionalDNSServices d))"

definition additionalList :: "DNSDist \<Rightarrow> req" where
  "additionalList d = KListByLabels KService (om_Namespace (dd_Meta d)) (dnsdistRoleSelector d)"

lemma collectServices_all:
  assumes "exec (collectServices names svcs) tr (Inr ())" "svc \<in> set svcs" "om_Name (svc_Meta svc) \<notin> set names"
  shows "\<exists>r. (KDelete KService (svc_key svc), r) \<in> set tr \<and> ignoreMissing (respUnit r) = Inr ()"
  using assms unfolding collectServices_def
  by (induction svcs arbitrary: tr) (fastforce simp: exec_tryIO_iff split: if_splits)+

lemma items_services: "items itemService (respList r) = Inr svcs \<longleftrightarrow>
    (\<exists>xs. r = RList xs \<and> svcs = concat (map itemService xs))"
  by (cases r) (auto simp: items_def)

lemma mem_itemService [simp]: "svc \<in> set (itemService x) \<longleftrightarrow> x = ObjService svc"
  by (cases x) auto

lemma additional_steps:
  assumes "exec (reconcileDNSDistAdditionalServices X d) tr x"
  obtains (before) e where "exec (applyAdditional X d (fst (DNSDistAdditionalDNSServices d)) (snd (DNSDistAdditionalDNSServices d))) tr (Inl e)"
      "x = Inl e"
  | (unlisted) t1 r e where "tr = t1 @ [(additionalList d, r)]" "x = Inl e"
      "exec (applyAdditional X d (fst (DNSDistAdditionalDNSServices d)) (snd (DNSDistAdditionalDNSServices d))) t1 (Inr ())"
  | (listed) t1 xs t2 where "tr = t1 @ (additionalList d, RList xs) # t2"
      "exec (applyAdditional X d (fst (DNSDistAdditionalDNSServices d)) (snd (DNSDistAdditionalDNSServices d))) t1 (Inr ())"
      "exec (collectServices (additionalNames d) (concat (map itemService xs))) t2 x"
  using assms
  by (auto simp: reconcileDNSDistAdditionalServices_def Let_def case_prod_unfold exec_tryIO_iff
      items_services additionalList_def additionalNames_def eq_commute [of _ "items _ _"])

lemma applyAdditional_no_delete:
  "retry_laws X \<Longrightarrow> calls_only (\<lambda>q. \<forall>k n. q \<noteq> KDelete k n) (applyAdditional X d st refs)"
  by (induction refs arbitrary: st)
    (auto simp: Let_def intro!: calls_only_tryIO calls_only_updateService split: sum.split)



end
