(* ===== verification/Server_Children.thy ===== *)
theory Server_Children
  imports Converge Manifests_Routes
begin

text \<open>
  The part of \<open>internal/controller/powerdnsserver_controller.go\<close> that creates and converges
  what a PowerDNSServer owns: the API key and backend Secrets, the CloudNativePG cluster, the
  workload, the additional Services, routes, PodMonitor and NetworkPolicy.  A method that
  changes the server's status in memory returns the changed server.
\<close>

section \<open>Owned objects\<close>

definition srv_ns :: "PowerDNSServer \<Rightarrow> string" where
  "srv_ns s = om_Namespace (srv_Meta s)"

definition server_event :: "ext \<Rightarrow> PowerDNSServer \<Rightarrow> string \<Rightarrow> string \<Rightarrow> string \<Rightarrow> unit kio" where
  "server_event X s typ reason msg = emit X KServer (srv_Meta s) typ reason msg"

text \<open>\<open>isBYO\<close>: the user's own database, if the spec names one.\<close>

definition byoSpec :: "PowerDNSServer \<Rightarrow> BYOPostgres option" where
  "byoSpec s = (case be_Postgres (ps_Backend (srv_Spec s)) of None \<Rightarrow> None | Some pg \<Rightarrow> pg_BYO pg)"

definition ownerLabels :: "PowerDNSServer \<Rightarrow> gomap" where
  "ownerLabels s = [(labelApp, ''powerdns''), (labelInstance, om_Name (srv_Meta s)),
     (labelManagedBy, ''aether-powerdns'')]"

text \<open>Get, and create if missing; an existing object is left alone.\<close>

definition createIfMissing :: "kobj \<Rightarrow> (error + unit) kio" where
  "createIfMissing x =
     andThen (ask (KGet (kind_of x) (obj_key x)) respUnit) (\<lambda>r. case r of
       Inl e \<Rightarrow> if err_kind e = KubeNotFound then ask (KCreate x) respUnit else Return (Inl e)
     | Inr _ \<Rightarrow> Return (Inr ()))"

definition ensureOwned :: "ext \<Rightarrow> PowerDNSServer \<Rightarrow> kobj \<Rightarrow> (error + unit) kio" where
  "ensureOwned X s x =
     (case setOwner X (serverRef s) (srv_ns s) x of
        Inl e \<Rightarrow> Return (Inl e)
      | Inr x' \<Rightarrow> createIfMissing x')"

definition ensureUnstructured :: "ext \<Rightarrow> PowerDNSServer \<Rightarrow> Unstructured \<Rightarrow> (error + unit) kio" where
  "ensureUnstructured X s u =
     (case setOwner X (serverRef s) (srv_ns s) (ObjUnstructured u) of
        Inl e \<Rightarrow> Return (Inl e)
      | Inr x \<Rightarrow> createIfMissing x)"

definition dep_key :: "Deployment \<Rightarrow> NamespacedName" where
  "dep_key dep = (om_Namespace (dep_Meta dep), om_Name (dep_Meta dep))"

definition updateDeployment :: "ext \<Rightarrow> PowerDNSServer \<Rightarrow> Deployment \<Rightarrow> (error + unit) kio" where
  "updateDeployment X s desired =
     andThen (ask (KGet KDeployment (dep_key desired)) respDeployment) (\<lambda>r. case r of
       Inl e \<Rightarrow> if err_kind e = KubeNotFound then ensureOwned X s (ObjDeployment desired)
                else Return (Inl e)
     | Inr existing \<Rightarrow>
         ask (KUpdate (ObjDeployment (existing\<lparr>dep_Spec := (dep_Spec existing)\<lparr>
           dps_Replicas := dps_Replicas (dep_Spec desired),
           dps_Template := dps_Template (dep_Spec desired)\<rparr>\<rparr>))) respUnit)"

definition server_updateConfigMap :: "ext \<Rightarrow> PowerDNSServer \<Rightarrow> ConfigMap \<Rightarrow> (error + unit) kio" where
  "server_updateConfigMap X s desired =
     updateConfigMap X desired (ensureOwned X s (ObjConfigMap desired))"

text \<open>\<open>_ = r.Delete(...)\<close>: the outcome is dropped.\<close>

definition tryDelete :: "kind \<Rightarrow> NamespacedName \<Rightarrow> (error + unit) kio" where
  "tryDelete k key = ask (KDelete k key) (\<lambda>_. Inr ())"

section \<open>Secrets\<close>

definition randomHex :: "nat \<Rightarrow> (error + string) kio" where
  "randomHex n = ask (RandRead n) (\<lambda>r. case r of
     RErr e \<Rightarrow> Inl e
   | RBytes b \<Rightarrow> Inr (EncodeToString (map of_char b))
   | _ \<Rightarrow> Inl badResp)"

definition apiKeyRef :: "PowerDNSServer \<Rightarrow> string" where
  "apiKeyRef s = (case api_APIKeySecretRef (ps_API (srv_Spec s)) of None \<Rightarrow> [] | Some n \<Rightarrow> n)"

definition withAPIKey :: "PowerDNSServer \<Rightarrow> string \<Rightarrow> PowerDNSServer" where
  "withAPIKey s n = s\<lparr>srv_Status := (srv_Status s)\<lparr>pst_APIKeySecretName := n\<rparr>\<rparr>"

definition newAPIKeySecret :: "PowerDNSServer \<Rightarrow> string \<Rightarrow> Secret" where
  "newAPIKeySecret s key =
     \<lparr>sec_Meta = newMeta (nm_APIKeySecret (NameSet s)) (srv_ns s) (ownerLabels s),
      sec_Type = ''Opaque'', sec_Data = [(''api-key'', key)]\<rparr>"

definition createAPIKey :: "ext \<Rightarrow> PowerDNSServer \<Rightarrow> (error + PowerDNSServer) kio" where
  "createAPIKey X s =
     tryIO (randomHex 32) (\<lambda>key.
       case setOwner X (serverRef s) (srv_ns s) (ObjSecret (newAPIKeySecret s key)) of
         Inl e \<Rightarrow> Return (Inl e)
       | Inr sec \<Rightarrow> tryIO (ask (KCreate sec) respUnit)
           (\<lambda>_. Return (Inr (withAPIKey s (nm_APIKeySecret (NameSet s))))))"

definition ensureAPIKey :: "ext \<Rightarrow> PowerDNSServer \<Rightarrow> (error + PowerDNSServer) kio" where
  "ensureAPIKey X s =
     (let secretName = nm_APIKeySecret (NameSet s) in
      if apiKeyRef s \<noteq> [] then Return (Inr (withAPIKey s (apiKeyRef s)))
      else
        andThen (ask (KGet KSecret (srv_ns s, secretName)) respSecret) (\<lambda>r. case r of
          Inr _ \<Rightarrow> Return (Inr (withAPIKey s secretName))
        | Inl e \<Rightarrow> if err_kind e \<noteq> KubeNotFound then Return (Inl e) else createAPIKey X s))"

definition backendSecret :: "PowerDNSServer \<Rightarrow> string \<Rightarrow> string \<Rightarrow> string \<Rightarrow> string \<Rightarrow> string \<Rightarrow> Secret" where
  "backendSecret s host port user password database =
     \<lparr>sec_Meta = newMeta (nm_BackendSecret (NameSet s)) (srv_ns s) (ownerLabels s),
      sec_Type = ''Opaque'',
      sec_Data = [(''host'', host), (''port'', port), (''username'', user), (''password'', password),
        (''database'', database)]\<rparr>"

text \<open>\<open>reflect.DeepEqual\<close> on two data maps; the desired one is not empty.\<close>

definition storeSecret :: "Secret \<Rightarrow> (error + unit) kio" where
  "storeSecret desired =
     andThen (ask (KGet KSecret (obj_key (ObjSecret desired))) respSecret) (\<lambda>r. case r of
       Inl e \<Rightarrow> if err_kind e = KubeNotFound then ask (KCreate (ObjSecret desired)) respUnit
                else Return (Inl e)
     | Inr existing \<Rightarrow>
         if same_map (sec_Data existing) (sec_Data desired) then Return (Inr ())
         else ask (KUpdate (ObjSecret (existing\<lparr>sec_Data := sec_Data desired\<rparr>))) respUnit)"

definition writeBackendSecret ::
  "ext \<Rightarrow> PowerDNSServer \<Rightarrow> string \<Rightarrow> string \<Rightarrow> string \<Rightarrow> string \<Rightarrow> string \<Rightarrow> (error + unit) kio" where
  "writeBackendSecret X s host port user password database =
     (let desired = backendSecret s host port user password database in
      case SetControllerReference X (serverRef s) (srv_ns s) (sec_Meta desired) of
        Inl e \<Rightarrow> Return (Inl e)
      | Inr m \<Rightarrow> storeSecret (desired\<lparr>sec_Meta := m\<rparr>))"

text \<open>\<open>if v == "" { v = d }\<close>.\<close>

definition orElse :: "string \<Rightarrow> string \<Rightarrow> string" where
  "orElse v d = (if v = [] then d else v)"

definition cnpgHost :: "string \<Rightarrow> string \<Rightarrow> string" where
  "cnpgHost cluster ns = cluster @ ''-rw.'' @ ns @ ''.svc''"

definition materialiseCNPGBackendSecret :: "ext \<Rightarrow> PowerDNSServer \<Rightarrow> string \<Rightarrow> (error + bool) kio" where
  "materialiseCNPGBackendSecret X s cluster =
     andThen (ask (KGet KSecret (srv_ns s, AppSecretName cluster)) respSecret) (\<lambda>r. case r of
       Inl e \<Rightarrow> Return (if err_kind e = KubeNotFound then Inr False else Inl e)
     | Inr src \<Rightarrow>
         (let data = sec_Data src;
              host = orElse (pickKey data [''host'']) (cnpgHost cluster (srv_ns s));
              port = orElse (pickKey data [''port'']) ''5432'';
              username = pickKey data [''username'', ''user''];
              password = pickKey data [''password''];
              database = orElse (pickKey data [''dbname'', ''database'']) DefaultDatabase in
          if username = [] \<or> password = [] then Return (Inr False)
          else tryIO (writeBackendSecret X s host port username password database) (\<lambda>_. Return (Inr True))))"

definition byoMissingMsg :: "string \<Rightarrow> string" where
  "byoMissingMsg n = ''BYO secret '' @ n @ '' missing username/password keys''"

definition materialiseBYOBackendSecret :: "ext \<Rightarrow> PowerDNSServer \<Rightarrow> BYOPostgres \<Rightarrow> (error + bool) kio" where
  "materialiseBYOBackendSecret X s byo =
     andThen (ask (KGet KSecret (srv_ns s, byo_CredentialsSecretRef byo)) respSecret) (\<lambda>r. case r of
       Inl e \<Rightarrow> Return (if err_kind e = KubeNotFound then Inr False else Inl e)
     | Inr src \<Rightarrow>
         (let data = sec_Data src;
              username = pickKey data [''username'', ''user''];
              password = pickKey data [''password''];
              port = (if byo_Port byo = 0 then 5432 else byo_Port byo);
              db = orElse (byo_Database byo) DefaultDatabase in
          if username = [] \<or> password = []
          then Return (Inl (mkErr OtherError (byoMissingMsg (byo_CredentialsSecretRef byo))))
          else tryIO (writeBackendSecret X s (byo_Host byo) (itoa port) username password db)
            (\<lambda>_. Return (Inr True))))"

definition cnpgClusterReady :: "ext \<Rightarrow> PowerDNSServer \<Rightarrow> string \<Rightarrow> (error + bool) kio" where
  "cnpgClusterReady X s name =
     ask (KGet (KUnstructured ClusterGVK) (srv_ns s, name)) (\<lambda>r. case respUnstructured r of
       Inl e \<Rightarrow> if err_kind e = KubeNotFound then Inr False else Inl e
     | Inr u \<Rightarrow> (case NestedInt64 X (un_Object u) [''status'', ''readyInstances''] of
         Inl e \<Rightarrow> Inl (wrapErr ''read CNPG cluster readyInstances'' e)
       | Inr None \<Rightarrow> Inr False
       | Inr (Some n) \<Rightarrow> Inr (n \<ge> 1)))"

section \<open>Workload\<close>

definition secretDataOf :: "error + Secret \<Rightarrow> error + gomap" where
  "secretDataOf r = (case r of
     Inl e \<Rightarrow> if err_kind e = KubeNotFound then Inr [] else Inl e
   | Inr sec \<Rightarrow> Inr (sec_Data sec))"

text \<open>The two Secrets the hash covers, and the hash.\<close>

definition hashedSecrets :: "PowerDNSServer \<Rightarrow> (error + gomap list) kio" where
  "hashedSecrets s =
     (let names = NameSet s; apiKeyName = orElse (apiKeyRef s) (nm_APIKeySecret names) in
      tryIO (ask (KGet KSecret (srv_ns s, apiKeyName)) (\<lambda>r. secretDataOf (respSecret r))) (\<lambda>api.
      tryIO (ask (KGet KSecret (srv_ns s, nm_BackendSecret names)) (\<lambda>r. secretDataOf (respSecret r))) (\<lambda>backend.
      Return (Inr [api, backend]))))"

definition computeConfigHash :: "PowerDNSServer \<Rightarrow> ConfigMap \<Rightarrow> (error + string) kio" where
  "computeConfigHash s cm =
     tryIO (hashedSecrets s) (\<lambda>secs. Return (Inr (ConfigHash (index (cm_Data cm) ''pdns.conf'') secs)))"

text \<open>Each rendered additional Service has its own label map here, so only its labels change.\<close>

definition tagAdditional :: "Service \<Rightarrow> Service" where
  "tagAdditional svc = svc\<lparr>svc_Meta := (svc_Meta svc)\<lparr>om_Labels :=
     put roleLabel additionalRole (om_Labels (svc_Meta svc))\<rparr>\<rparr>"

definition serverRoleSelector :: "PowerDNSServer \<Rightarrow> gomap" where
  "serverRoleSelector s =
     [(labelManagedBy, ''aether-powerdns''), (labelInstance, om_Name (srv_Meta s)), (roleLabel, additionalRole)]"

definition reconcileAdditionalDNSServices :: "ext \<Rightarrow> PowerDNSServer \<Rightarrow> (error + unit) kio" where
  "reconcileAdditionalDNSServices X s =
     (let desired = map tagAdditional (AdditionalDNSServices s);
          desiredNames = map (\<lambda>svc. om_Name (svc_Meta svc)) desired in
      tryIO (forIO (server_updateService X s) desired) (\<lambda>_.
      tryIO (ask (KListByLabels KService (srv_ns s) (serverRoleSelector s))
          (\<lambda>r. items itemService (respList r))) (\<lambda>existing.
      collectServices desiredNames existing)))"

definition reconcileObservability :: "ext \<Rightarrow> PowerDNSServer \<Rightarrow> (error + unit) kio" where
  "reconcileObservability X s =
     (let pm = PodMonitor s in
      if \<not> pm_Enabled (ps_PodMonitor (srv_Spec s)) then
        tryDelete (KUnstructured PodMonitorGVK) (obj_key (ObjUnstructured pm))
      else
        andThen (ensureUnstructured X s pm) (\<lambda>r. case r of
          Inr _ \<Rightarrow> Return (Inr ())
        | Inl e \<Rightarrow>
            if err_kind e = KubeNoMatch then
              andThen (server_event X s ''Warning'' ''PodMonitorUnavailable''
                ''PodMonitor CRD not installed; metrics scraping skipped'') (\<lambda>_. Return (Inr ()))
            else Return (Inl e)))"

definition withPolicySpec :: "NetworkPolicy \<Rightarrow> NetworkPolicy \<Rightarrow> NetworkPolicy" where
  "withPolicySpec existing np = np\<lparr>np_Meta := np_Meta existing\<rparr>"

definition reconcileNetworkPolicy :: "ext \<Rightarrow> PowerDNSServer \<Rightarrow> (error + unit) kio" where
  "reconcileNetworkPolicy X s =
     (let np = NetworkPolicy s; key = obj_key (ObjNetworkPolicy np) in
      if \<not> nps_Enabled (ps_NetworkPolicy (srv_Spec s)) then tryDelete KNetworkPolicy key
      else
        tryIO (ensureOwned X s (ObjNetworkPolicy np)) (\<lambda>_.
        andThen (ask (KGet KNetworkPolicy key) respNetworkPolicy) (\<lambda>r. case r of
          Inl e \<Rightarrow> Return (Inr ())
        | Inr existing \<Rightarrow> ask (KUpdate (ObjNetworkPolicy (withPolicySpec existing np))) respUnit)))"

section \<open>Routes\<close>

definition tcpMissing :: string where
  "tcpMissing = ''TCPRoute CRD not installed (Gateway API experimental channel)''"
definition udpMissing :: string where
  "udpMissing = ''UDPRoute CRD not installed (Gateway API experimental channel)''"
definition httpMissing :: string where
  "httpMissing = ''HTTPRoute CRD not installed (Gateway API)''"
definition dnsCRDMsg :: string where
  "dnsCRDMsg = ''dns.exposure=gateway needs the Gateway API experimental channel (TCPRoute/UDPRoute CRDs not installed)''"
definition apiCRDMsg :: string where
  "apiCRDMsg = ''spec.api.gateway needs the Gateway API HTTPRoute CRD, which is not installed''"
definition apiExposedMsg :: "string \<Rightarrow> string" where
  "apiExposedMsg n = ''HTTP API exposed via Gateway API HTTPRoute '' @ n @ '' '' @ em_dash @
     '' admin surface, ensure TLS at the listener''"

definition ensureTCPRoute :: "ext \<Rightarrow> PowerDNSServer \<Rightarrow> (error + unit) kio" where
  "ensureTCPRoute X s =
     andThen (upsertOwned (serverRef s) (ObjTCPRoute (TCPRoute s))) (\<lambda>r. case r of
       Inr _ \<Rightarrow> Return (Inr ())
     | Inl e \<Rightarrow>
         if err_kind e = KubeNoMatch then
           andThen (server_event X s ''Warning'' ''GatewayCRDMissing'' dnsCRDMsg)
             (\<lambda>_. Return (Inl (crdMissing ''tcproute'' tcpMissing e)))
         else Return (Inl (crdMissing ''tcproute'' tcpMissing e)))"

definition reconcileDNSRoutes :: "ext \<Rightarrow> PowerDNSServer \<Rightarrow> (error + unit) kio" where
  "reconcileDNSRoutes X s =
     (let names = NameSet s in
      if dns_Exposure (ps_DNS (srv_Spec s)) = DNSExposureGateway then
        tryIO (ensureTCPRoute X s) (\<lambda>_.
        mapErr (crdMissing ''udproute'' udpMissing) (upsertOwned (serverRef s) (ObjUDPRoute (UDPRoute s))))
      else
        tryIO (mapErr (wrapErr ''delete tcproute'') (deleteIfExists KTCPRoute (srv_ns s, nm_TCPRoute names))) (\<lambda>_.
        mapErr (wrapErr ''delete udproute'') (deleteIfExists KUDPRoute (srv_ns s, nm_UDPRoute names))))"

definition ensureHTTPRoute :: "ext \<Rightarrow> PowerDNSServer \<Rightarrow> HTTPRoute \<Rightarrow> (error + unit) kio" where
  "ensureHTTPRoute X s desired =
     andThen (call (KCreateOrUpdate (withOwner (serverRef s) (ObjHTTPRoute desired)))) (\<lambda>op.
       case respUnit op of
         Inl e \<Rightarrow>
           if err_kind e = KubeNoMatch then
             andThen (server_event X s ''Warning'' ''GatewayCRDMissing'' apiCRDMsg)
               (\<lambda>_. Return (Inl (crdMissing ''httproute'' httpMissing e)))
           else Return (Inl (crdMissing ''httproute'' httpMissing e))
       | Inr _ \<Rightarrow>
           if op = ROpCreated then
             andThen (server_event X s ''Normal'' ''APIExposed'' (apiExposedMsg (om_Name (hr_Meta desired))))
               (\<lambda>_. Return (Inr ()))
           else Return (Inr ()))"

definition reconcileRoutes :: "ext \<Rightarrow> PowerDNSServer \<Rightarrow> (error + unit) kio" where
  "reconcileRoutes X s =
     tryIO (reconcileDNSRoutes X s) (\<lambda>_.
       case HTTPRoute s of
         Some desired \<Rightarrow> ensureHTTPRoute X s desired
       | None \<Rightarrow> mapErr (wrapErr ''delete httproute'')
           (deleteIfExists KHTTPRoute (srv_ns s, nm_HTTPRoute (NameSet s))))"

section \<open>The whole workload\<close>

definition ensureBudget :: "ext \<Rightarrow> PowerDNSServer \<Rightarrow> (error + unit) kio" where
  "ensureBudget X s =
     (case PodDisruptionBudget s of
        Some pdb \<Rightarrow> ensureOwned X s (ObjPDB pdb)
      | None \<Rightarrow> tryDelete KPDB (srv_ns s, nm_PDB (NameSet s)))"

definition withHash :: "PowerDNSServer \<Rightarrow> string \<Rightarrow> PowerDNSServer" where
  "withHash s h = s\<lparr>srv_Status := (srv_Status s)\<lparr>pst_ConfigHash := h\<rparr>\<rparr>"

text \<open>After the hash is known: what is created once, and what is converged on every Ready pass.\<close>

definition createWorkload :: "ext \<Rightarrow> PowerDNSServer \<Rightarrow> string \<Rightarrow> (error + unit) kio" where
  "createWorkload X s hash =
     tryIO (mapErr (wrapErr ''ensure deployment'') (ensureOwned X s (ObjDeployment (Deployment s hash)))) (\<lambda>_.
     tryIO (mapErr (wrapErr ''ensure api service'') (ensureOwned X s (ObjService (APIService s)))) (\<lambda>_.
     tryIO (mapErr (wrapErr ''ensure dns service'') (ensureOwned X s (ObjService (DNSService s)))) (\<lambda>_.
     tryIO (mapErr (wrapErr ''reconcile additional dns services'') (reconcileAdditionalDNSServices X s)) (\<lambda>_.
     tryIO (mapErr (wrapErr ''ensure pdb'') (ensureBudget X s)) (\<lambda>_.
     tryIO (mapErr (wrapErr ''reconcile observability'') (reconcileObservability X s)) (\<lambda>_.
     mapErr (wrapErr ''reconcile network policy'') (reconcileNetworkPolicy X s)))))))"

definition ensureWorkload :: "ext \<Rightarrow> PowerDNSServer \<Rightarrow> (error + PowerDNSServer) kio" where
  "ensureWorkload X s =
     (let cm = Manifests.ConfigMap s in
      tryIO (mapErr (wrapErr ''ensure configmap'') (server_updateConfigMap X s cm)) (\<lambda>_.
      tryIO (mapErr (wrapErr ''compute config hash'') (computeConfigHash s cm)) (\<lambda>hash.
      tryIO (createWorkload X (withHash s hash) hash) (\<lambda>_. Return (Inr (withHash s hash))))))"

definition convergeWorkload :: "ext \<Rightarrow> PowerDNSServer \<Rightarrow> string \<Rightarrow> (error + unit) kio" where
  "convergeWorkload X s hash =
     tryIO (updateDeployment X s (Deployment s hash)) (\<lambda>_.
     tryIO (server_updateService X s (APIService s)) (\<lambda>_.
     tryIO (server_updateService X s (DNSService s)) (\<lambda>_.
     tryIO (reconcileAdditionalDNSServices X s) (\<lambda>_.
     tryIO (reconcileRoutes X s) (\<lambda>_.
     ensureBudget X s)))))"

definition reconcileDrift :: "ext \<Rightarrow> PowerDNSServer \<Rightarrow> (error + PowerDNSServer) kio" where
  "reconcileDrift X s =
     (let cm = Manifests.ConfigMap s in
      tryIO (server_updateConfigMap X s cm) (\<lambda>_.
      tryIO (computeConfigHash s cm) (\<lambda>hash.
      tryIO (convergeWorkload X (withHash s hash) hash) (\<lambda>_. Return (Inr (withHash s hash))))))"

end
