(* ===== verification/Server_Controller.thy ===== *)
theory Server_Controller
  imports Server_Children
begin

text \<open>
  \<open>internal/controller/powerdnsserver_controller.go\<close>: validation, the phase machine and the
  status of a PowerDNSServer.  One definition per phase handler; \<open>server_Reconcile\<close>
  dispatches on the stored phase.  An accepted \<open>Status().Update\<close> leaves the object in memory
  as it was sent, apart from its resource version, which is not modelled.
\<close>

section \<open>Validation\<close>

definition finalizer :: string where
  "finalizer = ''dns.aetherplatform.cloud/server-protection''"

definition unsupportedMsg :: "string \<Rightarrow> string" where
  "unsupportedMsg ty = ''backend type '' @ quote ty @ '' not supported (only postgres)''"
definition byoHostMsg :: string where
  "byoHostMsg = ''backend.postgres.byo.host is required''"
definition byoSecretMsg :: string where
  "byoSecretMsg = ''backend.postgres.byo.credentialsSecretRef.name is required''"
definition apiParentsMsg :: string where
  "apiParentsMsg = ''api.gateway requires parentRefs (at least one)''"

definition validateBackend :: "BackendSpec \<Rightarrow> string" where
  "validateBackend be =
     (if be_Type be \<noteq> BackendPostgres then unsupportedMsg (be_Type be)
      else case be_Postgres be of
        None \<Rightarrow> []
      | Some pg \<Rightarrow> (case pg_BYO pg of
          None \<Rightarrow> []
        | Some byo \<Rightarrow>
            if byo_Host byo = [] then byoHostMsg
            else if byo_CredentialsSecretRef byo = [] then byoSecretMsg
            else []))"

text \<open>The loops over \<open>parentRefs\<close>: the first one without a name.\<close>

fun unnamedParent :: "string \<Rightarrow> nat \<Rightarrow> string list \<Rightarrow> string" where
  "unnamedParent what i [] = []"
| "unnamedParent what i (n # ns) =
     (if n = [] then what @ ''.parentRefs['' @ utoa i @ ''].name is required''
      else unnamedParent what (i + 1) ns)"

definition validateDNSGateway :: "DNSSpec \<Rightarrow> string" where
  "validateDNSGateway dns =
     (if dns_Exposure dns \<noteq> DNSExposureGateway then []
      else if gatewayUnset dns then gatewayUnsetMsg
      else case dns_Gateway dns of
        None \<Rightarrow> []
      | Some gw \<Rightarrow> unnamedParent ''dns.gateway'' 0 (map gp_Name (dgw_ParentRefs gw)))"

definition validateAPIGateway :: "APISpec \<Rightarrow> string" where
  "validateAPIGateway api =
     (case api_Gateway api of
        None \<Rightarrow> []
      | Some gw \<Rightarrow>
          if agw_ParentRefs gw = [] then apiParentsMsg
          else unnamedParent ''api.gateway'' 0 (map agp_Name (agw_ParentRefs gw)))"

definition serverPdbMsg :: "PDBSpec option \<Rightarrow> int \<Rightarrow> string" where
  "serverPdbMsg pdb replicas = pdbMsg pdb replicas @ '' '' @ em_dash @ '' equal would block all drains''"

definition validatePDB :: "PowerDNSServerSpec \<Rightarrow> string" where
  "validatePDB sp =
     (let replicas = replicasOf (ps_Replicas sp); pdb = ps_PodDisruptionBudget sp in
      if pdbTooHigh pdb replicas then serverPdbMsg pdb replicas else [])"

definition suffixMsg :: "nat \<Rightarrow> string" where
  "suffixMsg i = ''dns.loadBalancer.additionalServices['' @ utoa i @ ''].nameSuffix''"

fun validateSuffixes :: "nat \<Rightarrow> string list \<Rightarrow> AdditionalLoadBalancerService list \<Rightarrow> string" where
  "validateSuffixes i seen [] = []"
| "validateSuffixes i seen (e # es) =
     (if als_NameSuffix e = [] then suffixMsg i @ '' is required''
      else if als_NameSuffix e \<in> set seen then
        suffixMsg i @ '' '' @ quote (als_NameSuffix e) @ '' is duplicated''
      else validateSuffixes (i + 1) (als_NameSuffix e # seen) es)"

definition validateAdditional :: "DNSSpec \<Rightarrow> string" where
  "validateAdditional dns =
     (if dns_Exposure dns \<noteq> DNSExposureLoadBalancer then []
      else case dns_LoadBalancer dns of
        None \<Rightarrow> []
      | Some lb \<Rightarrow> validateSuffixes 0 [] (dlb_AdditionalServices lb))"

definition validateExtra :: "gomap \<Rightarrow> string" where
  "validateExtra extra =
     (let msgs = ValidateExtraSettings extra in
      if length msgs > 0 then ''invalid extraSettings: '' @ join ''; '' msgs else [])"

text \<open>The first complaint, in source order.\<close>

fun firstMsg :: "string list \<Rightarrow> string" where
  "firstMsg [] = []"
| "firstMsg (m # ms) = (if m \<noteq> [] then m else firstMsg ms)"

definition validateSpec :: "PowerDNSServer \<Rightarrow> string" where
  "validateSpec s =
     (let sp = srv_Spec s in
      firstMsg [validateBackend (ps_Backend sp), validateDNSGateway (ps_DNS sp),
        validateAPIGateway (ps_API sp), validatePDB sp, validateAdditional (ps_DNS sp),
        validateExtra (ps_ExtraSettings sp)])"

section \<open>Status\<close>

definition withPhase :: "string \<Rightarrow> PowerDNSServer \<Rightarrow> PowerDNSServer" where
  "withPhase p s = s\<lparr>srv_Status := (srv_Status s)\<lparr>pst_Phase := p\<rparr>\<rparr>"

definition setPhase :: "PowerDNSServer \<Rightarrow> string \<Rightarrow> reconcile" where
  "setPhase s phase =
     tryIO (mapErr (wrapErr (''update phase to '' @ phase))
       (ask (KStatusUpdate (ObjServer (withPhase phase s))) respUnit))
     (\<lambda>_. Return (Inr Requeue))"

definition failedServer :: "ext \<Rightarrow> PowerDNSServer \<Rightarrow> string \<Rightarrow> PowerDNSServer" where
  "failedServer X s msg = falseCond X (s\<lparr>srv_Status := (srv_Status s)\<lparr>pst_Phase := PhaseFailed,
     pst_FailureMessage := msg\<rparr>\<rparr>) ConditionReady ''Failed'' msg"

definition setFailed :: "ext \<Rightarrow> PowerDNSServer \<Rightarrow> string \<Rightarrow> reconcile" where
  "setFailed X s msg =
     tryIO (ask (KStatusUpdate (ObjServer (failedServer X s msg))) respUnit)
     (\<lambda>_. andThen (server_event X s ''Warning'' ''Failed'' msg) (\<lambda>_. Return (Inr Done)))"

section \<open>From Pending to a schema\<close>

definition pendingServer :: "ext \<Rightarrow> PowerDNSServer \<Rightarrow> PowerDNSServer" where
  "pendingServer X s =
     falseCond X (falseCond X s ConditionReady ''Provisioning'' ''Backend not yet provisioned'')
       ConditionAvailable ''Pending'' ''Server pods not yet running''"

definition phasePending :: "ext \<Rightarrow> PowerDNSServer \<Rightarrow> reconcile" where
  "phasePending X s =
     (let msg = validateSpec s in
      if msg \<noteq> [] then setFailed X s msg
      else
        tryIO (mapErr (wrapErr ''ensure api key'') (ensureAPIKey X s)) (\<lambda>s'.
        andThen (server_event X s' ''Normal'' ''Provisioning'' ''PowerDNSServer accepted; provisioning backend'')
        (\<lambda>_. setPhase (pendingServer X s') PhaseProvisioningBackend)))"

definition withBackendSecret :: "PowerDNSServer \<Rightarrow> PowerDNSServer" where
  "withBackendSecret s = s\<lparr>srv_Status := (srv_Status s)\<lparr>pst_BackendSecretName := nm_BackendSecret (NameSet s)\<rparr>\<rparr>"

definition provisionBYO :: "ext \<Rightarrow> PowerDNSServer \<Rightarrow> BYOPostgres \<Rightarrow> reconcile" where
  "provisionBYO X s byo =
     tryIO (materialiseBYOBackendSecret X s byo) (\<lambda>ready.
       if \<not> ready then Return (Inr (RequeueAfter requeueShort))
       else setPhase (withBackendSecret s) PhaseInitializingSchema)"

definition backendReady :: "ext \<Rightarrow> PowerDNSServer \<Rightarrow> PowerDNSServer" where
  "backendReady X s = trueCond X (withBackendSecret s) ConditionBackendProvisioned ''BackendReady'' ''Backend secret published''"

definition provisionCNPG :: "ext \<Rightarrow> PowerDNSServer \<Rightarrow> reconcile" where
  "provisionCNPG X s =
     (let cluster = nm_CNPGCluster (NameSet s) in
      tryIO (mapErr (wrapErr ''ensure CNPG cluster'') (ensureUnstructured X s (Cluster s cluster))) (\<lambda>_.
      tryIO (materialiseCNPGBackendSecret X s cluster) (\<lambda>ready.
        if \<not> ready then Return (Inr (RequeueAfter requeueShort))
        else
          tryIO (cnpgClusterReady X s cluster) (\<lambda>dbReady.
            if \<not> dbReady then Return (Inr (RequeueAfter requeueShort))
            else
              andThen (server_event X s ''Normal'' ''BackendProvisioned'' ''Postgres backend ready, applying schema'')
              (\<lambda>_. setPhase (backendReady X s) PhaseInitializingSchema)))))"

definition phaseProvisioningBackend :: "ext \<Rightarrow> PowerDNSServer \<Rightarrow> reconcile" where
  "phaseProvisioningBackend X s =
     (case byoSpec s of Some byo \<Rightarrow> provisionBYO X s byo | None \<Rightarrow> provisionCNPG X s)"

text \<open>The loop over the Job's conditions stops at the first failure.\<close>

fun failedCondition :: "JobCondition list \<Rightarrow> JobCondition option" where
  "failedCondition [] = None"
| "failedCondition (c # cs) =
     (if jc_Type c = ''Failed'' \<and> jc_Status c = ''True'' then Some c else failedCondition cs)"

definition jobRetriedMsg :: "JobCondition \<Rightarrow> string" where
  "jobRetriedMsg c = ''schema init Job failed ('' @ jc_Reason c @ ''); recreating: '' @ jc_Message c"

definition createSchemaJob :: "ext \<Rightarrow> PowerDNSServer \<Rightarrow> reconcile" where
  "createSchemaJob X s =
     (case setOwner X (serverRef s) (srv_ns s) (ObjJob (SchemaInitJob s)) of
        Inl e \<Rightarrow> Return (Inl e)
      | Inr job \<Rightarrow> tryIO (mapErr (wrapErr ''create schema job'') (ask (KCreate job) respUnit))
          (\<lambda>_. Return (Inr (RequeueAfter requeueShort))))"

definition replaceSchemaJob :: "ext \<Rightarrow> PowerDNSServer \<Rightarrow> JobCondition \<Rightarrow> Job \<Rightarrow> reconcile" where
  "replaceSchemaJob X s c job =
     andThen (server_event X s ''Warning'' ''SchemaJobRetried'' (jobRetriedMsg c)) (\<lambda>_.
     tryIO (mapErr (wrapErr ''delete failed schema job'')
       (ask (KDelete KJob (obj_key (ObjJob job))) (\<lambda>r. ignoreMissing (respUnit r))))
     (\<lambda>_. Return (Inr (RequeueAfter requeueLong))))"

definition schemaApplied :: "ext \<Rightarrow> PowerDNSServer \<Rightarrow> PowerDNSServer" where
  "schemaApplied X s = trueCond X (s\<lparr>srv_Status := (srv_Status s)\<lparr>pst_SchemaApplied := True\<rparr>\<rparr>)
     ConditionSchemaApplied ''SchemaApplied'' ''PowerDNS schema applied to Postgres''"

definition phaseInitializingSchema :: "ext \<Rightarrow> PowerDNSServer \<Rightarrow> reconcile" where
  "phaseInitializingSchema X s =
     andThen (ask (KGet KJob (srv_ns s, nm_SchemaJob (NameSet s))) respJob) (\<lambda>r. case r of
       Inl e \<Rightarrow> if err_kind e = KubeNotFound then createSchemaJob X s else Return (Inl e)
     | Inr job \<Rightarrow>
         if job_Succeeded job > 0 then
           andThen (server_event X s ''Normal'' ''SchemaApplied'' ''PowerDNS schema initialised'')
             (\<lambda>_. setPhase (schemaApplied X s) PhaseDeployingServer)
         else case failedCondition (job_Conditions job) of
           Some c \<Rightarrow> replaceSchemaJob X s c job
         | None \<Rightarrow> Return (Inr (RequeueAfter requeueShort)))"

section \<open>From the workload to Ready\<close>

definition apiURL :: "PowerDNSServer \<Rightarrow> string" where
  "apiURL s = ''http://'' @ om_Name (svc_Meta (APIService s)) @ ''.'' @ srv_ns s @ ''.svc:'' @
     itoa (sp_Port (hd (ss_Ports (svc_Spec (APIService s)))))"

definition withAPIEndpoint :: "PowerDNSServer \<Rightarrow> PowerDNSServer" where
  "withAPIEndpoint s = s\<lparr>srv_Status := (srv_Status s)\<lparr>pst_APIEndpoint := apiURL s\<rparr>\<rparr>"

definition phaseDeployingServer :: "ext \<Rightarrow> PowerDNSServer \<Rightarrow> reconcile" where
  "phaseDeployingServer X s =
     tryIO (ensureWorkload X s) (\<lambda>s'.
     andThen (ask (KGet KDeployment (srv_ns s', nm_Deployment (NameSet s'))) respDeployment) (\<lambda>r. case r of
       Inl e \<Rightarrow> Return (Inr (RequeueAfter requeueShort))
     | Inr deploy \<Rightarrow>
         if dep_AvailableReplicas deploy < 1 then Return (Inr (RequeueAfter requeueShort))
         else setPhase (withAPIEndpoint s') PhaseExposingDNS))"

definition exposureOf :: "PowerDNSServer \<Rightarrow> string" where
  "exposureOf s = (let exposure = dns_Exposure (ps_DNS (srv_Spec s)) in
     if exposure = [] then DNSExposureNone else exposure)"

definition withDNSEndpoint :: "PowerDNSServer \<Rightarrow> string \<Rightarrow> PowerDNSServer" where
  "withDNSEndpoint s ep = s\<lparr>srv_Status := (srv_Status s)\<lparr>pst_DNSEndpoint := ep\<rparr>\<rparr>"

definition getDNSService :: "PowerDNSServer \<Rightarrow> (error + Service) kio" where
  "getDNSService s = ask (KGet KService (srv_ns s, nm_DNSService (NameSet s))) respService"

definition clusterEndpoint :: "Service \<Rightarrow> string" where
  "clusterEndpoint svc = ss_ClusterIP (svc_Spec svc) @ '':53''"

definition noParentsMsg :: string where
  "noParentsMsg = ''dns.exposure=gateway requires dns.gateway.parentRefs''"

definition exposeDNS :: "ext \<Rightarrow> PowerDNSServer \<Rightarrow> reconcile" where
  "exposeDNS X s =
     (if exposureOf s = DNSExposureNone then
        tryIO (getDNSService s) (\<lambda>svc. setPhase (withDNSEndpoint s (clusterEndpoint svc)) PhaseReady)
      else if exposureOf s = DNSExposureLoadBalancer then
        tryIO (getDNSService s) (\<lambda>svc.
          (let ip = ingressAddr (svc_Ingress svc) in
           if ip = [] then Return (Inr (RequeueAfter requeueShort))
           else setPhase (withDNSEndpoint s (ip @ '':53'')) PhaseReady))
      else if exposureOf s = DNSExposureGateway then
        (case dns_Gateway (ps_DNS (srv_Spec s)) of
           None \<Rightarrow> setFailed X s noParentsMsg
         | Some gw \<Rightarrow>
             if dgw_ParentRefs gw = [] then setFailed X s noParentsMsg
             else setPhase (withDNSEndpoint s (gatewayEndpoint (srv_ns s) gw)) PhaseReady)
      else setPhase s PhaseReady)"

definition phaseExposingDNS :: "ext \<Rightarrow> PowerDNSServer \<Rightarrow> reconcile" where
  "phaseExposingDNS X s = tryIO (reconcileRoutes X s) (\<lambda>_. exposeDNS X s)"

section \<open>The Ready loop\<close>

definition storeEndpoint :: "PowerDNSServer \<Rightarrow> string \<Rightarrow> (error + PowerDNSServer) kio" where
  "storeEndpoint s ep =
     (if pst_DNSEndpoint (srv_Status s) = ep then Return (Inr s)
      else
        tryIO (ask (KStatusUpdate (ObjServer (withDNSEndpoint s ep))) respUnit)
          (\<lambda>_. Return (Inr (withDNSEndpoint s ep))))"

definition lbPendingMsg :: string where
  "lbPendingMsg = ''DNS LoadBalancer has no assigned address; clearing status.dnsEndpoint''"

definition refreshLoadBalancer :: "ext \<Rightarrow> PowerDNSServer \<Rightarrow> Service \<Rightarrow> (error + PowerDNSServer) kio" where
  "refreshLoadBalancer X s svc =
     (let ep = ingressEndpoint (svc_Ingress svc) in
      if ep = [] \<and> pst_DNSEndpoint (srv_Status s) \<noteq> [] then
        andThen (server_event X s ''Warning'' ''LoadBalancerPending'' lbPendingMsg) (\<lambda>_. storeEndpoint s ep)
      else storeEndpoint s ep)"

definition refreshDNSEndpoint :: "ext \<Rightarrow> PowerDNSServer \<Rightarrow> (error + PowerDNSServer) kio" where
  "refreshDNSEndpoint X s =
     (if exposureOf s = DNSExposureNone \<or> exposureOf s = DNSExposureLoadBalancer then
        andThen (getDNSService s) (\<lambda>r. case r of
          Inl e \<Rightarrow> Return (if err_kind e = KubeNotFound then Inr s else Inl e)
        | Inr svc \<Rightarrow>
            if exposureOf s = DNSExposureNone then storeEndpoint s (clusterEndpoint svc)
            else refreshLoadBalancer X s svc)
      else if exposureOf s = DNSExposureGateway then
        storeEndpoint s (case dns_Gateway (ps_DNS (srv_Spec s)) of
          None \<Rightarrow> [] | Some gw \<Rightarrow> gatewayEndpoint (srv_ns s) gw)
      else storeEndpoint s [])"

text \<open>The status as it is stored when the replica counts or readiness changed.\<close>

definition withReplicas :: "PowerDNSServer \<Rightarrow> Deployment \<Rightarrow> PowerDNSServer" where
  "withReplicas s dep = s\<lparr>srv_Status := (srv_Status s)\<lparr>pst_Ready := available dep,
     pst_ReadyReplicas := dep_ReadyReplicas dep, pst_DesiredReplicas := liveReplicas dep\<rparr>\<rparr>"

definition replicaStatus :: "ext \<Rightarrow> PowerDNSServer \<Rightarrow> Deployment \<Rightarrow> PowerDNSServer" where
  "replicaStatus X s dep =
     (let msg = replicasMsg dep; s' = withReplicas s dep in
      if available dep then
        trueCond X (trueCond X s' ConditionAvailable ''AllReplicasReady'' msg)
          ConditionReady ''Ready'' ''Server is serving DNS and the API''
      else
        falseCond X (falseCond X s' ConditionAvailable ''ReplicasUnavailable'' msg)
          ConditionReady ''Degraded'' msg)"

definition serverReadyMsg :: "PowerDNSServer \<Rightarrow> Deployment \<Rightarrow> string" where
  "serverReadyMsg s dep = ''PowerDNSServer ready ('' @ itoa (dep_AvailableReplicas dep) @ ''/'' @
     itoa (liveReplicas dep) @ '' replicas, dns='' @ pst_DNSEndpoint (srv_Status s) @ '')''"

definition replicasChanged :: "PowerDNSServer \<Rightarrow> Deployment \<Rightarrow> bool" where
  "replicasChanged s dep \<longleftrightarrow> pst_Ready (srv_Status s) \<noteq> available dep \<or>
     pst_ReadyReplicas (srv_Status s) \<noteq> dep_ReadyReplicas dep \<or>
     pst_DesiredReplicas (srv_Status s) \<noteq> liveReplicas dep"

definition announceReady :: "ext \<Rightarrow> PowerDNSServer \<Rightarrow> Deployment \<Rightarrow> unit kio" where
  "announceReady X s dep =
     (let prev = pst_Ready (srv_Status s) in
      if available dep \<and> \<not> prev then server_event X s ''Normal'' ''Ready'' (serverReadyMsg s dep)
      else if \<not> available dep \<and> prev then server_event X s ''Warning'' ''Degraded'' (replicasMsg dep)
      else Return ())"

definition refreshReplicaStatus :: "ext \<Rightarrow> PowerDNSServer \<Rightarrow> (error + unit) kio" where
  "refreshReplicaStatus X s =
     tryIO (ask (KGet KDeployment (srv_ns s, nm_Deployment (NameSet s))) respDeployment) (\<lambda>dep.
       if replicasChanged s dep then
         tryIO (ask (KStatusUpdate (ObjServer (replicaStatus X s dep))) respUnit) (\<lambda>_.
         andThen (announceReady X s dep) (\<lambda>_. Return (Inr ())))
       else Return (Inr ()))"

definition extraRejectedMsg :: "string list \<Rightarrow> string" where
  "extraRejectedMsg msgs = ''extraSettings entries rejected and NOT rendered into pdns.conf: '' @ join ''; '' msgs"

definition warnExtraSettings :: "ext \<Rightarrow> PowerDNSServer \<Rightarrow> unit kio" where
  "warnExtraSettings X s =
     (let msgs = ValidateExtraSettings (ps_ExtraSettings (srv_Spec s)) in
      if length msgs > 0 then server_event X s ''Warning'' ''ExtraSettingsRejected'' (extraRejectedMsg msgs)
      else Return ())"

definition phaseReady :: "ext \<Rightarrow> PowerDNSServer \<Rightarrow> reconcile" where
  "phaseReady X s =
     andThen (warnExtraSettings X s) (\<lambda>_.
     tryIO (reconcileDrift X s) (\<lambda>s1.
     tryIO (refreshDNSEndpoint X s1) (\<lambda>s2.
     tryIO (refreshReplicaStatus X s2) (\<lambda>_.
     Return (Inr (RequeueAfter requeueLong))))))"

section \<open>The reconciler\<close>

definition withFinalizers :: "PowerDNSServer \<Rightarrow> string list \<Rightarrow> PowerDNSServer" where
  "withFinalizers s fs = s\<lparr>srv_Meta := (srv_Meta s)\<lparr>om_Finalizers := fs\<rparr>\<rparr>"

definition server_reconcileDelete :: "ext \<Rightarrow> PowerDNSServer \<Rightarrow> reconcile" where
  "server_reconcileDelete X s =
     tryIO (ask (KUpdate (ObjServer (withFinalizers s
       (RemoveFinalizer X (om_Finalizers (srv_Meta s)) finalizer)))) respUnit)
     (\<lambda>_. Return (Inr Done))"

definition server_protect :: "ext \<Rightarrow> PowerDNSServer \<Rightarrow> kobj" where
  "server_protect X s = ObjServer (withFinalizers s (AddFinalizer X (om_Finalizers (srv_Meta s)) finalizer))"

text \<open>The switch on the stored phase; \<open>Failed\<close> and unknown phases end the pass.\<close>

definition server_body :: "ext \<Rightarrow> PowerDNSServer \<Rightarrow> reconcile" where
  "server_body X s =
     (let phase = pst_Phase (srv_Status s) in
      if phase = [] \<or> phase = PhasePending then phasePending X s
      else if phase = PhaseProvisioningBackend then phaseProvisioningBackend X s
      else if phase = PhaseInitializingSchema then phaseInitializingSchema X s
      else if phase = PhaseDeployingServer then phaseDeployingServer X s
      else if phase = PhaseExposingDNS then phaseExposingDNS X s
      else if phase = PhaseReady then phaseReady X s
      else Return (Inr Done))"

definition server_Reconcile :: "ext \<Rightarrow> NamespacedName \<Rightarrow> reconcile" where
  "server_Reconcile X key =
     andThen (ask (KGet KServer key) respServer) (\<lambda>r. case r of
       Inl e \<Rightarrow> Return (ignoreNotFound e)
     | Inr s \<Rightarrow>
         if om_Deleting (srv_Meta s) then server_reconcileDelete X s
         else if \<not> ContainsFinalizer X (om_Finalizers (srv_Meta s)) finalizer then
           tryIO (ask (KUpdate (server_protect X s)) respUnit) (\<lambda>_. Return (Inr Requeue))
         else server_body X s)"

interpretation server: finalizer_protocol "server_Reconcile X" KServer respServer
  "\<lambda>s. om_Deleting (srv_Meta s)" "\<lambda>s. ContainsFinalizer X (om_Finalizers (srv_Meta s)) finalizer"
  "server_protect X" "server_reconcileDelete X" "server_body X" for X
  by unfold_locales (simp add: server_Reconcile_def)

end
