(* ===== verification/Server_Requests.thy ===== *)
theory Server_Requests
  imports Server_Controller DNSDist_Correct
begin

text \<open>
  What a PowerDNSServer pass asks of the cluster.  \<open>child_req s K\<close> are the requests of a program
  that manages children of \<open>s\<close> whose kinds are in \<open>K\<close>: it creates only objects owned by \<open>s\<close>, in
  its namespace and with a name derived from its name.  Each phase handler stays within its own
  set of kinds.
\<close>

section \<open>Requests about children\<close>

definition child_of :: "PowerDNSServer \<Rightarrow> kobj \<Rightarrow> bool" where
  "child_of s x \<longleftrightarrow> om_Namespace (obj_meta x) = om_Namespace (srv_Meta s) \<and>
     (\<exists>suf. om_Name (obj_meta x) = om_Name (srv_Meta s) @ suf)"

definition owned_by :: "PowerDNSServer \<Rightarrow> kobj \<Rightarrow> bool" where
  "owned_by s x \<longleftrightarrow> child_of s x \<and> om_Owner (obj_meta x) = Some (serverRef s)"

inductive child_req :: "PowerDNSServer \<Rightarrow> kind set \<Rightarrow> req \<Rightarrow> bool" for s K where
  cr_get: "child_req s K (KGet k n)"
| cr_list: "child_req s K (KListByLabels k n ls)"
| cr_event: "child_req s K (KEvent k n typ reason msg)"
| cr_rand: "child_req s K (RandRead n)"
| cr_create: "owned_by s x \<Longrightarrow> kind_of x \<in> K \<Longrightarrow> child_req s K (KCreate x)"
| cr_upsert: "owned_by s x \<Longrightarrow> kind_of x \<in> K \<Longrightarrow> child_req s K (KCreateOrUpdate x)"
| cr_update: "kind_of x \<in> K \<Longrightarrow> child_req s K (KUpdate x)"
| cr_delete: "k \<in> K \<Longrightarrow> child_req s K (KDelete k n)"

inductive_simps child_req_simps [simp]:
  "child_req s K (KGet k n)" "child_req s K (KListByLabels k n ls)" "child_req s K (KEvent k n a b c)"
  "child_req s K (RandRead m)" "child_req s K (KCreate x)" "child_req s K (KCreateOrUpdate x)"
  "child_req s K (KUpdate x)" "child_req s K (KDelete k n)" "child_req s K (KStatusUpdate x)"
  "child_req s K (HttpDo h)" "child_req s K (KListByIndex k i v)"

lemma child_req_cong:
  "srv_Meta s = srv_Meta s' \<Longrightarrow> child_req s K q = child_req s' K q"
  by (cases q) (simp_all add: owned_by_def child_of_def serverRef_def)

lemma owner_laws_ok:
  "owner_laws X \<Longrightarrow> SetControllerReference X ow ns m = Inr m' \<Longrightarrow> m' = m\<lparr>om_Owner := Some ow\<rparr>"
  by (simp add: owner_laws_def)

lemma setOwner_ok: "owner_laws X \<Longrightarrow> setOwner X ow ns x = Inr x' \<Longrightarrow> x' = withOwner ow x"
  by (auto simp: setOwner_def withOwner_def owner_laws_def split: sum.splits)

lemma kind_of_withOwner [simp]: "kind_of (withOwner ow x) = kind_of x"
  by (simp add: withOwner_def)

lemma owned_by_withOwner [simp]: "owned_by s (withOwner (serverRef s) x) = child_of s x"
  by (simp add: owned_by_def child_of_def)

section \<open>Rendered children\<close>

lemma NameSet_simps [simp]:
  "nm_ConfigMap (NameSet s) = om_Name (srv_Meta s) @ ''-config''"
  "nm_Deployment (NameSet s) = om_Name (srv_Meta s)"
  "nm_APIService (NameSet s) = om_Name (srv_Meta s) @ ''-api''"
  "nm_DNSService (NameSet s) = om_Name (srv_Meta s) @ ''-dns''"
  "nm_APIKeySecret (NameSet s) = om_Name (srv_Meta s) @ ''-api-key''"
  "nm_BackendSecret (NameSet s) = om_Name (srv_Meta s) @ ''-backend''"
  "nm_SchemaJob (NameSet s) = om_Name (srv_Meta s) @ ''-schema-init''"
  "nm_CNPGCluster (NameSet s) = om_Name (srv_Meta s) @ ''-pg''"
  "nm_TCPRoute (NameSet s) = om_Name (srv_Meta s) @ ''-dns-tcp''"
  "nm_UDPRoute (NameSet s) = om_Name (srv_Meta s) @ ''-dns-udp''"
  "nm_HTTPRoute (NameSet s) = om_Name (srv_Meta s) @ ''-api-http''"
  "nm_PDB (NameSet s) = om_Name (srv_Meta s) @ ''-pdb''"
  "nm_PodMonitor (NameSet s) = om_Name (srv_Meta s) @ ''-metrics''"
  "nm_NetPolicy (NameSet s) = om_Name (srv_Meta s) @ ''-netpol''"
  by (simp_all add: NameSet_def Let_def)

named_theorems rendered "every rendered object is a child of its server"

lemma newMeta_owner [simp]: "om_Owner (newMeta n ns ls) = None"
  by (simp add: newMeta_def)

lemma setLB_meta [simp]:
  "om_Name (svc_Meta (setLB ip an pol svc)) = om_Name (svc_Meta svc)"
  "om_Namespace (svc_Meta (setLB ip an pol svc)) = om_Namespace (svc_Meta svc)"
  "om_Owner (svc_Meta (setLB ip an pol svc)) = om_Owner (svc_Meta svc)"
  by (auto simp: setLB_def Let_def split: if_splits)

lemma setType_meta [simp]: "svc_Meta (setType ty svc) = svc_Meta svc"
  by (simp add: setType_def)

lemma baseDNSService_meta [simp]: "svc_Meta (baseDNSService s n) = newMeta n (om_Namespace (srv_Meta s)) (labels s)"
  by (simp add: baseDNSService_def)

lemma DNSService_meta [simp]:
  "om_Name (svc_Meta (DNSService s)) = om_Name (srv_Meta s) @ ''-dns''"
  "om_Namespace (svc_Meta (DNSService s)) = om_Namespace (srv_Meta s)"
  "om_Owner (svc_Meta (DNSService s)) = None"
  by (auto simp: DNSService_def Let_def applyLBPrimary_def split: option.splits)

lemma rendered_children [rendered, simp]:
  "child_of s (ObjConfigMap (Manifests.ConfigMap s))"
  "child_of s (ObjDeployment (Deployment s h))"
  "child_of s (ObjService (APIService s))"
  "child_of s (ObjService (DNSService s))"
  "child_of s (ObjJob (SchemaInitJob s))"
  "child_of s (ObjSecret (newAPIKeySecret s key))"
  "child_of s (ObjSecret (backendSecret s host port user password database))"
  "child_of s (ObjNetworkPolicy (NetworkPolicy s))"
  "child_of s (ObjUnstructured (PodMonitor s))"
  "child_of s (ObjUnstructured (Cluster s (om_Name (srv_Meta s) @ suf)))"
  "child_of s (ObjTCPRoute (TCPRoute s))"
  "child_of s (ObjUDPRoute (UDPRoute s))"
  by (auto simp: child_of_def Manifests.ConfigMap_def Deployment_def APIService_def SchemaInitJob_def
      newAPIKeySecret_def backendSecret_def NetworkPolicy_def PodMonitor_def Cluster_def TCPRoute_def
      UDPRoute_def buildL4Route_def Let_def srv_ns_def)

lemma rendered_optional [rendered]:
  "PodDisruptionBudget s = Some pdb \<Longrightarrow> child_of s (ObjPDB pdb)"
  "HTTPRoute s = Some hr \<Longrightarrow> child_of s (ObjHTTPRoute hr)"
  by (auto simp: child_of_def PodDisruptionBudget_def pdbFor_def HTTPRoute_def Let_def
      split: if_splits option.splits)

lemma rendered_additional [rendered]:
  "svc \<in> set (AdditionalDNSServices s) \<Longrightarrow> child_of s (ObjService (tagAdditional svc))"
  by (auto simp: AdditionalDNSServices_def additionalDNSService_def child_of_def tagAdditional_def Let_def
      split: if_splits option.splits)

section \<open>Requests of the helpers\<close>

lemma calls_createIfMissing [calls_intros]:
  "P (KGet (kind_of x) (obj_key x)) \<Longrightarrow> P (KCreate x) \<Longrightarrow> calls_only P (createIfMissing x)"
  by (auto simp: createIfMissing_def intro!: calls_intros split: sum.split)

lemma calls_server_event [calls_intros]:
  "(\<And>k n a b c. P (KEvent k n a b c)) \<Longrightarrow> calls_only P (server_event X s typ reason msg)"
  by (simp add: server_event_def calls_intros)

lemma calls_tryDelete [calls_intros]: "P (KDelete k key) \<Longrightarrow> calls_only P (tryDelete k key)"
  by (simp add: tryDelete_def calls_intros)

lemma calls_upsertOwned_child [calls_intros]:
  "child_of s x \<Longrightarrow> kind_of x \<in> K \<Longrightarrow> calls_only (child_req s K) (upsertOwned (serverRef s) x)"
  by (simp add: upsertOwned_def calls_intros)

lemma calls_ensureOwned:
  assumes "owner_laws X" "child_of s x" "kind_of x \<in> K"
  shows "calls_only (child_req s K) (ensureOwned X s x)"
  using assms by (auto simp: ensureOwned_def dest: setOwner_ok intro!: calls_intros split: sum.split)

lemma calls_ensureUnstructured:
  assumes "owner_laws X" "child_of s (ObjUnstructured u)" "KUnstructured (un_GVK u) \<in> K"
  shows "calls_only (child_req s K) (ensureUnstructured X s u)"
  using assms by (auto simp: ensureUnstructured_def dest: setOwner_ok intro!: calls_intros split: sum.split)

lemma ownedService_child:
  assumes "owner_laws X" "child_of s (ObjService svc)" "ownedService X (serverRef s) ns svc = Inr svc'"
  shows "owned_by s (ObjService svc')"
  using assms ownedService_ok [OF assms(1,3)] by (simp add: owned_by_def child_of_def)

lemma calls_server_updateService:
  assumes "owner_laws X" "retry_laws X" "child_of s (ObjService svc)" "KService \<in> K"
  shows "calls_only (child_req s K) (server_updateService X s svc)"
  using assms by (auto simp: server_updateService_def dest: ownedService_child
      intro!: calls_only_updateService calls_intros split: sum.split)

lemma calls_updateDeployment:
  assumes "owner_laws X" "child_of s (ObjDeployment dep)" "KDeployment \<in> K"
  shows "calls_only (child_req s K) (updateDeployment X s dep)"
  using assms by (auto simp: updateDeployment_def intro!: calls_ensureOwned calls_intros split: sum.split)

lemma calls_server_updateConfigMap:
  assumes "owner_laws X" "retry_laws X" "child_of s (ObjConfigMap cm)" "KConfigMap \<in> K"
  shows "calls_only (child_req s K) (server_updateConfigMap X s cm)"
  using assms by (auto simp: server_updateConfigMap_def updateConfigMap_def storeConfigMap_def
      intro!: calls_ensureOwned calls_only_retry calls_intros split: sum.split)

lemma calls_ensureAPIKey:
  assumes "owner_laws X" "KSecret \<in> K"
  shows "calls_only (child_req s K) (ensureAPIKey X s)"
  using assms by (auto simp: ensureAPIKey_def createAPIKey_def randomHex_def Let_def dest: setOwner_ok
      intro!: calls_intros split: sum.split)

lemma calls_storeSecret:
  "owned_by s (ObjSecret sec) \<Longrightarrow> KSecret \<in> K \<Longrightarrow> calls_only (child_req s K) (storeSecret sec)"
  by (auto simp: storeSecret_def intro!: calls_intros split: sum.split)

lemma calls_writeBackendSecret:
  assumes "owner_laws X" "KSecret \<in> K"
  shows "calls_only (child_req s K) (writeBackendSecret X s host port user password database)"
proof -
  have "owned_by s (ObjSecret ((backendSecret s host port user password database)\<lparr>sec_Meta := m\<rparr>))"
    if "SetControllerReference X (serverRef s) (srv_ns s) (sec_Meta (backendSecret s host port user password database)) = Inr m" for m
    using owner_laws_ok [OF assms(1) that] by (simp add: owned_by_def child_of_def backendSecret_def srv_ns_def)
  with assms(2) show ?thesis
    by (auto simp: writeBackendSecret_def Let_def intro!: calls_storeSecret calls_intros split: sum.split)
qed

lemma calls_materialise:
  assumes "owner_laws X" "KSecret \<in> K"
  shows "calls_only (child_req s K) (materialiseCNPGBackendSecret X s cluster)"
    and "calls_only (child_req s K) (materialiseBYOBackendSecret X s byo)"
  using assms by (auto simp: materialiseCNPGBackendSecret_def materialiseBYOBackendSecret_def Let_def
      simp del: pickKey.simps intro!: calls_writeBackendSecret calls_intros split: sum.split)

lemma calls_cnpgClusterReady: "calls_only (child_req s K) (cnpgClusterReady X s name)"
  by (simp add: cnpgClusterReady_def calls_intros)

lemma calls_computeConfigHash: "calls_only (child_req s K) (computeConfigHash s' cm)"
  by (auto simp: computeConfigHash_def hashedSecrets_def Let_def intro!: calls_intros)

lemma calls_reconcileAdditional:
  assumes "owner_laws X" "retry_laws X" "KService \<in> K"
  shows "calls_only (child_req s K) (reconcileAdditionalDNSServices X s)"
  using assms by (auto simp: reconcileAdditionalDNSServices_def Let_def
      intro!: calls_server_updateService rendered calls_intros)

lemma calls_reconcileObservability:
  assumes "owner_laws X" "KUnstructured PodMonitorGVK \<in> K"
  shows "calls_only (child_req s K) (reconcileObservability X s)"
proof -
  have "un_GVK (PodMonitor s) = PodMonitorGVK" by (simp add: PodMonitor_def Let_def)
  with assms show ?thesis
    by (auto simp: reconcileObservability_def Let_def intro!: calls_ensureUnstructured calls_intros split: sum.split)
qed

lemma calls_reconcileNetworkPolicy:
  assumes "owner_laws X" "KNetworkPolicy \<in> K"
  shows "calls_only (child_req s K) (reconcileNetworkPolicy X s)"
  using assms by (auto simp: reconcileNetworkPolicy_def Let_def intro!: calls_ensureOwned calls_intros split: sum.split)

lemma calls_ensureBudget:
  assumes "owner_laws X" "KPDB \<in> K"
  shows "calls_only (child_req s K) (ensureBudget X s)"
  using assms by (auto simp: ensureBudget_def intro!: calls_ensureOwned rendered calls_intros split: option.split)

lemma calls_reconcileRoutes:
  assumes "KTCPRoute \<in> K" "KUDPRoute \<in> K" "KHTTPRoute \<in> K"
  shows "calls_only (child_req s K) (reconcileRoutes X s)"
  using assms
  by (auto simp: reconcileRoutes_def reconcileDNSRoutes_def ensureTCPRoute_def ensureHTTPRoute_def Let_def
      intro!: rendered calls_intros split: option.split sum.split)

section \<open>Requests of the workload\<close>

text \<open>The kinds that deploying the workload writes, and those the Ready loop converges.\<close>

definition deployKinds :: "kind set" where
  "deployKinds = {KConfigMap, KDeployment, KService, KPDB, KNetworkPolicy, KUnstructured PodMonitorGVK}"

definition readyKinds :: "kind set" where
  "readyKinds = {KConfigMap, KDeployment, KService, KPDB, KTCPRoute, KUDPRoute, KHTTPRoute}"

lemma withHash_sel [simp]:
  "srv_Meta (withHash s h) = srv_Meta s" "srv_Spec (withHash s h) = srv_Spec s"
  "pst_Phase (srv_Status (withHash s h)) = pst_Phase (srv_Status s)"
  by (simp_all add: withHash_def)

lemma calls_child_cong:
  "srv_Meta s = srv_Meta s' \<Longrightarrow> calls_only (child_req s K) p \<Longrightarrow> calls_only (child_req s' K) p"
  by (erule calls_only_mono) (drule child_req_cong, blast)

lemma calls_createWorkload:
  assumes "owner_laws X" "retry_laws X"
  shows "calls_only (child_req s deployKinds) (createWorkload X s h)"
  unfolding createWorkload_def
  by (intro calls_only_tryIO calls_only_mapErr calls_ensureOwned calls_reconcileAdditional calls_ensureBudget
      calls_reconcileObservability calls_reconcileNetworkPolicy assms rendered_children)
    (simp_all add: deployKinds_def)

lemma calls_convergeWorkload:
  assumes "owner_laws X" "retry_laws X"
  shows "calls_only (child_req s readyKinds) (convergeWorkload X s h)"
  unfolding convergeWorkload_def
  by (intro calls_only_tryIO calls_updateDeployment calls_server_updateService calls_reconcileAdditional
      calls_reconcileRoutes calls_ensureBudget assms rendered_children)
    (simp_all add: readyKinds_def)

lemma calls_ensureWorkload:
  assumes "owner_laws X" "retry_laws X"
  shows "calls_only (child_req s deployKinds) (ensureWorkload X s)"
proof -
  have "calls_only (child_req s deployKinds) (createWorkload X (withHash s h) h)" for h
    using calls_child_cong [OF _ calls_createWorkload [OF assms]] by simp
  then show ?thesis
    unfolding ensureWorkload_def Let_def
    by (intro calls_intros calls_server_updateConfigMap calls_computeConfigHash assms)
      (simp_all add: deployKinds_def)
qed

lemma calls_reconcileDrift:
  assumes "owner_laws X" "retry_laws X"
  shows "calls_only (child_req s readyKinds) (reconcileDrift X s)"
proof -
  have "calls_only (child_req s readyKinds) (convergeWorkload X (withHash s h) h)" for h
    using calls_child_cong [OF _ calls_convergeWorkload [OF assms]] by simp
  then show ?thesis
    unfolding reconcileDrift_def Let_def
    by (intro calls_intros calls_server_updateConfigMap calls_computeConfigHash assms)
      (simp_all add: readyKinds_def)
qed

section \<open>Requests of the phases\<close>

text \<open>Besides the requests about its children, a phase stores the server's status.\<close>

definition phase_req :: "PowerDNSServer \<Rightarrow> kind set \<Rightarrow> req \<Rightarrow> bool" where
  "phase_req s K q \<longleftrightarrow> child_req s K q \<or> (\<exists>s'. q = KStatusUpdate (ObjServer s'))"

lemma phase_req_simps [simp]: "phase_req s K (KStatusUpdate (ObjServer s'))" "phase_req s K (KGet k n)"
  "phase_req s K (KEvent k n a b c)"
  by (simp_all add: phase_req_def)

lemma phase_child: "calls_only (child_req s K) p \<Longrightarrow> calls_only (phase_req s K) p"
  by (erule calls_only_mono) (simp add: phase_req_def)

lemma phase_calls [calls_intros]:
  "calls_only (phase_req s K) (setPhase s' p)"
  "calls_only (phase_req s K) (setFailed X s' msg)"
  "calls_only (phase_req s K) (storeEndpoint s' ep)"
  by (auto simp: setPhase_def setFailed_def storeEndpoint_def intro!: calls_intros)

text \<open>The kinds each stored phase may create, change or delete.\<close>

definition kindsOf :: "string \<Rightarrow> kind set" where
  "kindsOf p =
     (if p = [] \<or> p = PhasePending then {KSecret}
      else if p = PhaseProvisioningBackend then {KSecret, KUnstructured ClusterGVK}
      else if p = PhaseInitializingSchema then {KJob}
      else if p = PhaseDeployingServer then deployKinds
      else if p = PhaseExposingDNS then {KTCPRoute, KUDPRoute, KHTTPRoute}
      else if p = PhaseReady then readyKinds
      else {})"

lemma calls_phasePending:
  "owner_laws X \<Longrightarrow> calls_only (phase_req s {KSecret}) (phasePending X s)"
  unfolding phasePending_def Let_def
  by (intro calls_intros phase_child [OF calls_ensureAPIKey]) auto

lemma calls_phaseProvisioning:
  assumes "owner_laws X"
  shows "calls_only (phase_req s {KSecret, KUnstructured ClusterGVK}) (phaseProvisioningBackend X s)"
proof -
  have "calls_only (child_req s {KSecret, KUnstructured ClusterGVK}) (ensureUnstructured X s (Cluster s (nm_CNPGCluster (NameSet s))))"
    by (rule calls_ensureUnstructured [OF assms]) (simp_all add: Cluster_def child_of_def Let_def)
  then show ?thesis
    unfolding phaseProvisioningBackend_def provisionBYO_def provisionCNPG_def Let_def
    by (intro calls_intros phase_child calls_materialise calls_cnpgClusterReady assms) auto
qed

lemma calls_phaseInitializing:
  assumes "owner_laws X"
  shows "calls_only (phase_req s {KJob}) (phaseInitializingSchema X s)"
proof -
  have "calls_only (phase_req s {KJob}) (createSchemaJob X s)"
    by (auto simp: createSchemaJob_def phase_req_def dest!: setOwner_ok [OF assms] intro!: calls_intros split: sum.split)
  moreover have "calls_only (phase_req s {KJob}) (replaceSchemaJob X s c job)" for c job
    by (auto simp: replaceSchemaJob_def phase_req_def intro!: calls_intros)
  ultimately show ?thesis
    unfolding phaseInitializingSchema_def by (intro calls_intros) auto
qed

lemma calls_phaseDeploying:
  assumes "owner_laws X" "retry_laws X"
  shows "calls_only (phase_req s deployKinds) (phaseDeployingServer X s)"
  unfolding phaseDeployingServer_def
  by (intro calls_intros phase_child [OF calls_ensureWorkload [OF assms]]) auto

lemma calls_phaseExposing:
  "calls_only (phase_req s {KTCPRoute, KUDPRoute, KHTTPRoute}) (phaseExposingDNS X s)"
  unfolding phaseExposingDNS_def exposeDNS_def getDNSService_def Let_def
  by (intro calls_intros phase_child [OF calls_reconcileRoutes]) auto

lemma calls_phaseReady:
  assumes "owner_laws X" "retry_laws X"
  shows "calls_only (phase_req s readyKinds) (phaseReady X s)"
  unfolding phaseReady_def warnExtraSettings_def refreshDNSEndpoint_def getDNSService_def refreshLoadBalancer_def
    refreshReplicaStatus_def announceReady_def Let_def
  by (intro calls_intros phase_child [OF calls_reconcileDrift [OF assms]]) auto

lemma calls_server_body:
  assumes "owner_laws X" "retry_laws X"
  shows "calls_only (phase_req s (kindsOf (pst_Phase (srv_Status s)))) (server_body X s)"
  using assms unfolding server_body_def kindsOf_def Let_def
  by (simp add: calls_phasePending calls_phaseProvisioning calls_phaseInitializing calls_phaseDeploying
      calls_phaseExposing calls_phaseReady)

end
