(* ===== verification/Server_Phases.thy ===== *)
theory Server_Phases
  imports Server_Requests
begin

text \<open>
  The phase machine of a PowerDNSServer.  The abstract machine \<open>abs_step\<close> works on what a status
  promises (\<open>promise\<close>) and on the facts a pass has observed; every status a pass stores is one of
  its steps.  Reachable servers, the invariant of their status and the bound on the number of
  phase changes follow from the abstract machine.
\<close>

section \<open>The abstract machine\<close>

datatype Phase = Pending | Provisioning | Initializing | Deploying | Exposing | Serving | Rejected | Unknown

definition phase_of :: "string \<Rightarrow> Phase" where
  "phase_of p =
     (if p = [] \<or> p = PhasePending then Pending
      else if p = PhaseProvisioningBackend then Provisioning
      else if p = PhaseInitializingSchema then Initializing
      else if p = PhaseDeployingServer then Deploying
      else if p = PhaseExposingDNS then Exposing
      else if p = PhaseReady then Serving
      else if p = PhaseFailed then Rejected
      else Unknown)"

record promise =
  pr_phase :: Phase
  pr_key :: bool  \<comment> \<open>the API key Secret is published\<close>
  pr_backend :: bool  \<comment> \<open>the backend Secret is published\<close>
  pr_schema :: bool
  pr_api :: bool  \<comment> \<open>the API endpoint is published\<close>
  pr_ready :: bool  \<comment> \<open>\<open>status.ready\<close>\<close>
  pr_cond :: bool  \<comment> \<open>the Ready condition is true\<close>
  pr_failure :: bool  \<comment> \<open>a failure message is published\<close>

definition promised :: "PowerDNSServer \<Rightarrow> promise" where
  "promised s = (let st = srv_Status s in
     \<lparr>pr_phase = phase_of (pst_Phase st), pr_key = (pst_APIKeySecretName st \<noteq> []),
      pr_backend = (pst_BackendSecretName st \<noteq> []), pr_schema = pst_SchemaApplied st,
      pr_api = (pst_APIEndpoint st \<noteq> []), pr_ready = pst_Ready st,
      pr_cond = isReady (pst_Conditions st), pr_failure = (pst_FailureMessage st \<noteq> [])\<rparr>)"

datatype fact = SpecValid | SpecInvalid | SchemaSucceeded | PodAvailable | AllAvailable | SomeMissing | NoParents

text \<open>The step relation, for a set of observed facts.\<close>

inductive abs_step :: "fact set \<Rightarrow> promise \<Rightarrow> promise \<Rightarrow> bool" for F where
  accept: "pr_phase p = Pending \<Longrightarrow> SpecValid \<in> F \<Longrightarrow>
     abs_step F p (p\<lparr>pr_phase := Provisioning, pr_key := True, pr_cond := False\<rparr>)"
| reject: "pr_phase p = Pending \<Longrightarrow> SpecInvalid \<in> F \<Longrightarrow>
     abs_step F p (p\<lparr>pr_phase := Rejected, pr_cond := False, pr_failure := True\<rparr>)"
| provision: "pr_phase p = Provisioning \<Longrightarrow> abs_step F p (p\<lparr>pr_phase := Initializing, pr_backend := True\<rparr>)"
| migrate: "pr_phase p = Initializing \<Longrightarrow> SchemaSucceeded \<in> F \<Longrightarrow>
     abs_step F p (p\<lparr>pr_phase := Deploying, pr_schema := True\<rparr>)"
| deploy: "pr_phase p = Deploying \<Longrightarrow> PodAvailable \<in> F \<Longrightarrow>
     abs_step F p (p\<lparr>pr_phase := Exposing, pr_api := True\<rparr>)"
| expose: "pr_phase p = Exposing \<Longrightarrow> abs_step F p (p\<lparr>pr_phase := Serving\<rparr>)"
| abandon: "pr_phase p = Exposing \<Longrightarrow> NoParents \<in> F \<Longrightarrow>
     abs_step F p (p\<lparr>pr_phase := Rejected, pr_cond := False, pr_failure := True\<rparr>)"
| refresh: "pr_phase p = Serving \<Longrightarrow> abs_step F p p"
| recover: "pr_phase p = Serving \<Longrightarrow> AllAvailable \<in> F \<Longrightarrow>
     abs_step F p (p\<lparr>pr_ready := True, pr_cond := True\<rparr>)"
| degrade: "pr_phase p = Serving \<Longrightarrow> SomeMissing \<in> F \<Longrightarrow>
     abs_step F p (p\<lparr>pr_ready := False, pr_cond := False\<rparr>)"

text \<open>The facts of a pass: those of the spec, and those of the objects it read.\<close>

definition jobKey :: "PowerDNSServer \<Rightarrow> NamespacedName" where
  "jobKey s = (srv_ns s, nm_SchemaJob (NameSet s))"

definition deploymentKey :: "PowerDNSServer \<Rightarrow> NamespacedName" where
  "deploymentKey s = (srv_ns s, nm_Deployment (NameSet s))"

inductive_set observed :: "PowerDNSServer \<Rightarrow> event list \<Rightarrow> fact set" for s tr where
  "validateSpec s = [] \<Longrightarrow> SpecValid \<in> observed s tr"
| "validateSpec s \<noteq> [] \<Longrightarrow> SpecInvalid \<in> observed s tr"
| "(KGet KJob (jobKey s), RObj (ObjJob job)) \<in> set tr \<Longrightarrow> job_Succeeded job > 0 \<Longrightarrow>
     SchemaSucceeded \<in> observed s tr"
| "(KGet KDeployment (deploymentKey s), RObj (ObjDeployment dep)) \<in> set tr \<Longrightarrow> dep_AvailableReplicas dep \<ge> 1 \<Longrightarrow>
     PodAvailable \<in> observed s tr"
| "(KGet KDeployment (deploymentKey s), RObj (ObjDeployment dep)) \<in> set tr \<Longrightarrow> available dep \<Longrightarrow>
     AllAvailable \<in> observed s tr"
| "(KGet KDeployment (deploymentKey s), RObj (ObjDeployment dep)) \<in> set tr \<Longrightarrow> \<not> available dep \<Longrightarrow>
     SomeMissing \<in> observed s tr"
| "gatewayUnset (ps_DNS (srv_Spec s)) \<Longrightarrow> NoParents \<in> observed s tr"

section \<open>Stored statuses\<close>

lemma phase_of_simps [simp]:
  "phase_of [] = Pending" "phase_of PhasePending = Pending" "phase_of PhaseProvisioningBackend = Provisioning"
  "phase_of PhaseInitializingSchema = Initializing" "phase_of PhaseDeployingServer = Deploying"
  "phase_of PhaseExposingDNS = Exposing" "phase_of PhaseReady = Serving" "phase_of PhaseFailed = Rejected"
  by (simp_all add: phase_of_def phase_defs)

lemma phase_of_iff:
  "phase_of p = Pending \<longleftrightarrow> p = [] \<or> p = PhasePending" "phase_of p = Provisioning \<longleftrightarrow> p = PhaseProvisioningBackend"
  "phase_of p = Initializing \<longleftrightarrow> p = PhaseInitializingSchema" "phase_of p = Deploying \<longleftrightarrow> p = PhaseDeployingServer"
  "phase_of p = Exposing \<longleftrightarrow> p = PhaseExposingDNS" "phase_of p = Serving \<longleftrightarrow> p = PhaseReady"
  "phase_of p = Rejected \<longleftrightarrow> p = PhaseFailed"
  by (auto simp: phase_of_def phase_defs)

text \<open>No status is stored by a program that only manages children.\<close>

lemma no_status:
  "calls_only (child_req s K) p \<Longrightarrow> exec p tr x \<Longrightarrow> (KStatusUpdate y, r) \<notin> set tr"
  by (auto dest: calls_only_exec)

lemma no_status_event: "exec (server_event X s a b c) tr x \<Longrightarrow> (KStatusUpdate y, r) \<notin> set tr"
  by (auto simp: server_event_def dest: exec_emitD)

lemma status_setPhase:
  "exec (setPhase s p) tr res \<Longrightarrow> (KStatusUpdate y, r) \<in> set tr \<Longrightarrow> y = ObjServer (withPhase p s)"
  by (auto simp: setPhase_def exec_tryIO_iff exec_mapErr_iff)

lemma status_setFailed:
  "exec (setFailed X s msg) tr res \<Longrightarrow> (KStatusUpdate y, r) \<in> set tr \<Longrightarrow> y = ObjServer (failedServer X s msg)"
  by (auto simp: setFailed_def exec_tryIO_iff exec_andThen_iff dest: no_status_event)

lemma setCondition_sel [simp]:
  "srv_Meta (setCondition X s c st reason msg) = srv_Meta s"
  "srv_Spec (setCondition X s c st reason msg) = srv_Spec s"
  "pst_Phase (srv_Status (setCondition X s c st reason msg)) = pst_Phase (srv_Status s)"
  "pst_Ready (srv_Status (setCondition X s c st reason msg)) = pst_Ready (srv_Status s)"
  "pst_DNSEndpoint (srv_Status (setCondition X s c st reason msg)) = pst_DNSEndpoint (srv_Status s)"
  "pst_APIEndpoint (srv_Status (setCondition X s c st reason msg)) = pst_APIEndpoint (srv_Status s)"
  "pst_APIKeySecretName (srv_Status (setCondition X s c st reason msg)) = pst_APIKeySecretName (srv_Status s)"
  "pst_BackendSecretName (srv_Status (setCondition X s c st reason msg)) = pst_BackendSecretName (srv_Status s)"
  "pst_SchemaApplied (srv_Status (setCondition X s c st reason msg)) = pst_SchemaApplied (srv_Status s)"
  "pst_DesiredReplicas (srv_Status (setCondition X s c st reason msg)) = pst_DesiredReplicas (srv_Status s)"
  "pst_ReadyReplicas (srv_Status (setCondition X s c st reason msg)) = pst_ReadyReplicas (srv_Status s)"
  "pst_ConfigHash (srv_Status (setCondition X s c st reason msg)) = pst_ConfigHash (srv_Status s)"
  "pst_FailureMessage (srv_Status (setCondition X s c st reason msg)) = pst_FailureMessage (srv_Status s)"
  by (simp_all add: setCondition_def)

lemma isReady_setCondition:
  "condition_laws X \<Longrightarrow> isReady (pst_Conditions (srv_Status (setCondition X s c st reason msg))) =
     (if c = ConditionReady then st = ''True'' else isReady (pst_Conditions (srv_Status s)))"
  by (auto simp: setCondition_def isReady_def condition_laws_set)

lemmas status_defs = withPhase_def failedServer_def pendingServer_def withAPIKey_def withBackendSecret_def
  backendReady_def schemaApplied_def withAPIEndpoint_def withDNSEndpoint_def withReplicas_def
  replicaStatus_def trueCond_def falseCond_def withHash_def

text \<open>What each kind of stored status promises.\<close>

lemma promised_accept:
  "condition_laws X \<Longrightarrow> n \<noteq> [] \<Longrightarrow>
   promised (withPhase PhaseProvisioningBackend (pendingServer X (withAPIKey s n))) =
     (promised s)\<lparr>pr_phase := Provisioning, pr_key := True, pr_cond := False\<rparr>"
  by (simp add: promised_def status_defs Let_def isReady_setCondition condition_defs)

lemma promised_failed:
  "condition_laws X \<Longrightarrow> msg \<noteq> [] \<Longrightarrow>
   promised (failedServer X s msg) = (promised s)\<lparr>pr_phase := Rejected, pr_cond := False, pr_failure := True\<rparr>"
  by (simp add: promised_def status_defs Let_def isReady_setCondition condition_defs)

lemma promised_provision:
  "promised (withPhase PhaseInitializingSchema (withBackendSecret s)) =
     (promised s)\<lparr>pr_phase := Initializing, pr_backend := True\<rparr>"
  "condition_laws X \<Longrightarrow> promised (withPhase PhaseInitializingSchema (backendReady X s)) =
     (promised s)\<lparr>pr_phase := Initializing, pr_backend := True\<rparr>"
  by (simp_all add: promised_def status_defs Let_def isReady_setCondition condition_defs)

lemma promised_migrate:
  "condition_laws X \<Longrightarrow> promised (withPhase PhaseDeployingServer (schemaApplied X s)) =
     (promised s)\<lparr>pr_phase := Deploying, pr_schema := True\<rparr>"
  by (simp add: promised_def status_defs Let_def isReady_setCondition condition_defs)

lemma apiURL_nonempty [simp]: "apiURL s \<noteq> []"
  by (simp add: apiURL_def)

lemma promised_deploy:
  "promised (withPhase PhaseExposingDNS (withAPIEndpoint (withHash s h))) =
     (promised s)\<lparr>pr_phase := Exposing, pr_api := True\<rparr>"
  by (simp add: promised_def withPhase_def withAPIEndpoint_def withHash_def Let_def)

lemma promised_expose:
  "promised (withPhase PhaseReady (withDNSEndpoint s ep)) = (promised s)\<lparr>pr_phase := Serving\<rparr>"
  "promised (withPhase PhaseReady s) = (promised s)\<lparr>pr_phase := Serving\<rparr>"
  by (simp_all add: promised_def status_defs Let_def)

lemma promised_endpoint:
  "promised (withDNSEndpoint s ep) = promised s" "promised (withHash s h) = promised s"
  by (simp_all add: promised_def status_defs Let_def)

lemma promised_replicas:
  "condition_laws X \<Longrightarrow> promised (replicaStatus X s dep) =
     (promised s)\<lparr>pr_ready := available dep, pr_cond := available dep\<rparr>"
  by (simp add: promised_def status_defs Let_def isReady_setCondition condition_defs)

section \<open>Which status each phase stores\<close>

text \<open>A status stored by \<open>p; f\<close> with \<open>p\<close> managing children is one \<open>f\<close> stores.\<close>

lemma status_after:
  assumes "exec (andThen p f) tr res" "(KStatusUpdate y, r) \<in> set tr" "calls_only (child_req s K) p"
  obtains t1 x t2 where "tr = t1 @ t2" "exec p t1 x" "exec (f x) t2 res" "(KStatusUpdate y, r) \<in> set t2"
  using assms(1)
proof (cases rule: exec_andThenE)
  case (1 t1 x t2)
  with no_status [OF assms(3) 1(2)] assms(2) show ?thesis by (intro that [of t1 t2 x]) auto
qed

lemma status_after_try:
  assumes "exec (tryIO p f) tr res" "(KStatusUpdate y, r) \<in> set tr" "calls_only (child_req s K) p"
  obtains t1 x t2 where "tr = t1 @ t2" "exec p t1 (Inr x)" "exec (f x) t2 res" "(KStatusUpdate y, r) \<in> set t2"
  using assms(1)
proof (cases rule: exec_tryIOE)
  case (fail e)
  with no_status [OF assms(3) fail(1)] assms(2) show ?thesis by auto
next
  case (ok t1 x t2)
  with no_status [OF assms(3) ok(2)] assms(2) show ?thesis by (intro that [of t1 t2 x]) auto
qed

lemma createAPIKey_ok: "exec (createAPIKey X s) t (Inr s') \<Longrightarrow> s' = withAPIKey s (nm_APIKeySecret (NameSet s))"
proof -
  assume "exec (createAPIKey X s) t (Inr s')"
  then obtain key t' where "exec (case setOwner X (serverRef s) (srv_ns s) (ObjSecret (newAPIKeySecret s key)) of
      Inl e \<Rightarrow> Return (Inl e)
    | Inr sec \<Rightarrow> tryIO (ask (KCreate sec) respUnit)
        (\<lambda>_. Return (Inr (withAPIKey s (nm_APIKeySecret (NameSet s)))))) t' (Inr s')"
    by (auto simp: createAPIKey_def exec_tryIO_iff [of "randomHex 32"] simp del: NameSet_simps)
  then show ?thesis
    by (cases "setOwner X (serverRef s) (srv_ns s) (ObjSecret (newAPIKeySecret s key))") (auto simp: exec_tryIO_iff)
qed

lemma ensureAPIKey_ok:
  assumes "exec (ensureAPIKey X s) t (Inr s')"
  shows "\<exists>n. n \<noteq> [] \<and> s' = withAPIKey s n"
proof (cases "apiKeyRef s = []")
  case False
  with assms show ?thesis by (auto simp: ensureAPIKey_def)
next
  case True
  with assms obtain r t' where "exec (case respSecret r of
      Inl e \<Rightarrow> if err_kind e \<noteq> KubeNotFound then Return (Inl e) else createAPIKey X s
    | Inr _ \<Rightarrow> Return (Inr (withAPIKey s (nm_APIKeySecret (NameSet s))))) t' (Inr s')"
    by (auto simp: ensureAPIKey_def Let_def exec_Call_iff simp del: NameSet_simps)
  then have "s' = withAPIKey s (nm_APIKeySecret (NameSet s))"
    by (cases "respSecret r") (auto dest: createAPIKey_ok split: if_splits)
  then show ?thesis by auto
qed

lemma status_phasePending:
  assumes "owner_laws X" "exec (phasePending X s) tr res" "(KStatusUpdate y, r) \<in> set tr"
  shows "validateSpec s \<noteq> [] \<and> y = ObjServer (failedServer X s (validateSpec s)) \<or>
    validateSpec s = [] \<and> (\<exists>n. n \<noteq> [] \<and>
      y = ObjServer (withPhase PhaseProvisioningBackend (pendingServer X (withAPIKey s n))))"
proof (cases "validateSpec s = []")
  case False
  with assms(2) have "exec (setFailed X s (validateSpec s)) tr res"
    by (simp add: phasePending_def Let_def)
  from status_setFailed [OF this assms(3)] False show ?thesis by simp
next
  case True
  from True assms(2) have ex: "exec (tryIO (mapErr (wrapErr ''ensure api key'') (ensureAPIKey X s)) (\<lambda>s'.
        andThen (server_event X s' ''Normal'' ''Provisioning'' ''PowerDNSServer accepted; provisioning backend'')
        (\<lambda>_. setPhase (pendingServer X s') PhaseProvisioningBackend))) tr res"
    by (simp add: phasePending_def)
  have c: "calls_only (child_req s UNIV) (mapErr (wrapErr ''ensure api key'') (ensureAPIKey X s))"
    by (simp add: calls_ensureAPIKey calls_intros assms(1))
  from ex assms(3) c obtain t1 s' t2 where "exec (mapErr (wrapErr ''ensure api key'') (ensureAPIKey X s)) t1 (Inr s')"
    and t2: "exec (andThen (server_event X s' ''Normal'' ''Provisioning'' ''PowerDNSServer accepted; provisioning backend'')
        (\<lambda>_. setPhase (pendingServer X s') PhaseProvisioningBackend)) t2 res" "(KStatusUpdate y, r) \<in> set t2"
    by (rule status_after_try)
  then have e: "exec (ensureAPIKey X s) t1 (Inr s')" by (simp add: exec_mapErr_iff)
  from t2 have "y = ObjServer (withPhase PhaseProvisioningBackend (pendingServer X s'))"
    by (auto simp: exec_andThen_iff dest: no_status_event status_setPhase)
  with ensureAPIKey_ok [OF e] True show ?thesis by auto
qed

text \<open>For the phases whose stored status does not depend on what was read.\<close>

definition stores :: "(kobj \<Rightarrow> bool) \<Rightarrow> req \<Rightarrow> bool" where
  "stores P q \<longleftrightarrow> (\<forall>y. q = KStatusUpdate y \<longrightarrow> P y)"

lemma stores_simps [simp]: "stores P (KStatusUpdate y) = P y" "stores P (KEvent k n a b c)" "stores P (KGet k m)"
  by (simp_all add: stores_def)

lemma stores_child: "calls_only (child_req s K) p \<Longrightarrow> calls_only (stores P) p"
  by (erule calls_only_mono) (auto simp: stores_def)

lemma stores_none: "calls_only (stores (\<lambda>_. False)) p \<Longrightarrow> exec p tr x \<Longrightarrow> (KStatusUpdate y, r) \<notin> set tr"
  by (auto dest: calls_only_exec)

lemma stores_setPhase: "P (ObjServer (withPhase p s)) \<Longrightarrow> calls_only (stores P) (setPhase s p)"
  by (auto simp: setPhase_def intro!: calls_intros)

lemma stores_setFailed: "P (ObjServer (failedServer X s msg)) \<Longrightarrow> calls_only (stores P) (setFailed X s msg)"
  by (auto simp: setFailed_def intro!: calls_intros)

lemma status_phaseProvisioning:
  assumes "owner_laws X"
  shows "calls_only (stores (\<lambda>y. y = ObjServer (withPhase PhaseInitializingSchema (withBackendSecret s)) \<or>
    y = ObjServer (withPhase PhaseInitializingSchema (backendReady X s)))) (phaseProvisioningBackend X s)"
  unfolding phaseProvisioningBackend_def provisionBYO_def provisionCNPG_def
  by (auto intro!: calls_intros stores_setPhase stores_child [OF calls_materialise(1) [of X UNIV]]
      stores_child [OF calls_materialise(2) [of X UNIV]] stores_child [OF calls_cnpgClusterReady [of _ UNIV]]
      stores_child [OF calls_ensureUnstructured [of X _ _ UNIV]] simp: assms Let_def split: option.split)

lemma respJob_Inr: "respJob r = Inr x \<longleftrightarrow> r = RObj (ObjJob x)"
  by (cases r rule: respJob.cases) auto

lemma status_phaseInitializing:
  assumes "exec (phaseInitializingSchema X s) tr res" "(KStatusUpdate y, r) \<in> set tr"
  shows "SchemaSucceeded \<in> observed s tr \<and> y = ObjServer (withPhase PhaseDeployingServer (schemaApplied X s))"
proof -
  let ?ok = "andThen (server_event X s ''Normal'' ''SchemaApplied'' ''PowerDNS schema initialised'')
             (\<lambda>_. setPhase (schemaApplied X s) PhaseDeployingServer)"
  from assms(1) obtain r0 t where tr: "tr = (KGet KJob (jobKey s), r0) # t" and t: "exec (case respJob r0 of
       Inl e \<Rightarrow> if err_kind e = KubeNotFound then createSchemaJob X s else Return (Inl e)
     | Inr job \<Rightarrow> if job_Succeeded job > 0 then ?ok
         else case failedCondition (job_Conditions job) of
           Some c \<Rightarrow> replaceSchemaJob X s c job
         | None \<Rightarrow> Return (Inr (RequeueAfter requeueShort))) t res"
    by (auto simp: phaseInitializingSchema_def exec_Call_iff jobKey_def)
  have "calls_only (stores (\<lambda>_. False)) (createSchemaJob X s)"
    "calls_only (stores (\<lambda>_. False)) (replaceSchemaJob X s c job)" for c job
    by (auto simp: createSchemaJob_def replaceSchemaJob_def stores_def intro!: calls_intros split: sum.split)
  note no = this [THEN stores_none]
  from assms(2) tr have y: "(KStatusUpdate y, r) \<in> set t" by simp
  show ?thesis
  proof (cases "respJob r0")
    case (Inl e)
    with t y show ?thesis by (auto dest: no split: if_splits)
  next
    case (Inr job)
    with t y have "job_Succeeded job > 0" "exec ?ok t res"
      by (auto dest: no split: if_splits option.splits)
    moreover from this(2) y have "y = ObjServer (withPhase PhaseDeployingServer (schemaApplied X s))"
      by (auto simp: exec_andThen_iff dest: no_status_event status_setPhase)
    ultimately show ?thesis using Inr tr
      by (auto simp: respJob_Inr intro: observed.intros)
  qed
qed

lemma ensureWorkload_ok: "exec (ensureWorkload X s) tr (Inr s') \<Longrightarrow> \<exists>h. s' = withHash s h"
  by (auto simp: ensureWorkload_def Let_def exec_tryIO_iff)

lemma reconcileDrift_ok: "exec (reconcileDrift X s) tr (Inr s') \<Longrightarrow> \<exists>h. s' = withHash s h"
  by (auto simp: reconcileDrift_def Let_def exec_tryIO_iff)

lemma status_phaseDeploying:
  assumes "owner_laws X" "retry_laws X" "exec (phaseDeployingServer X s) tr res" "(KStatusUpdate y, r) \<in> set tr"
  shows "PodAvailable \<in> observed s tr \<and>
    (\<exists>h. y = ObjServer (withPhase PhaseExposingDNS (withAPIEndpoint (withHash s h))))"
proof -
  from status_after_try [OF assms(3) [unfolded phaseDeployingServer_def] assms(4) calls_ensureWorkload [OF assms(1,2)]]
  obtain t1 s' t2 where tr: "tr = t1 @ t2" and e: "exec (ensureWorkload X s) t1 (Inr s')"
    and t2: "exec (andThen (ask (KGet KDeployment (srv_ns s', nm_Deployment (NameSet s'))) respDeployment) (\<lambda>r. case r of
       Inl e \<Rightarrow> Return (Inr (RequeueAfter requeueShort))
     | Inr deploy \<Rightarrow>
         if dep_AvailableReplicas deploy < 1 then Return (Inr (RequeueAfter requeueShort))
         else setPhase (withAPIEndpoint s') PhaseExposingDNS)) t2 res" "(KStatusUpdate y, r) \<in> set t2"
    by blast
  from ensureWorkload_ok [OF e] obtain h where s': "s' = withHash s h" by blast
  from t2(1) obtain r0 t where t: "t2 = (KGet KDeployment (deploymentKey s), r0) # t" "exec (case respDeployment r0 of
       Inl e \<Rightarrow> Return (Inr (RequeueAfter requeueShort))
     | Inr deploy \<Rightarrow>
         if dep_AvailableReplicas deploy < 1 then Return (Inr (RequeueAfter requeueShort))
         else setPhase (withAPIEndpoint s') PhaseExposingDNS) t res"
    by (auto simp: exec_Call_iff deploymentKey_def s' srv_ns_def)
  from t t2(2) obtain dep where "respDeployment r0 = Inr dep" "dep_AvailableReplicas dep \<ge> 1"
      "exec (setPhase (withAPIEndpoint s') PhaseExposingDNS) t res" "(KStatusUpdate y, r) \<in> set t"
    by (cases "respDeployment r0") (auto split: if_splits)
  with t(1) tr s' show ?thesis
    by (auto simp: respDeployment_Inr dest: status_setPhase intro: observed.intros)
qed

lemma noParentsMsg_nonempty [simp]: "noParentsMsg \<noteq> []"
  by (simp add: noParentsMsg_def)

lemma status_phaseExposing:
  "calls_only (stores (\<lambda>y. (\<exists>ep. y = ObjServer (withPhase PhaseReady (withDNSEndpoint s ep))) \<or>
     y = ObjServer (withPhase PhaseReady s) \<or>
     gatewayUnset (ps_DNS (srv_Spec s)) \<and> y = ObjServer (failedServer X s noParentsMsg))) (phaseExposingDNS X s)"
proof -
  have unset: "gatewayUnset (ps_DNS (srv_Spec s)) \<longleftrightarrow> (case dns_Gateway (ps_DNS (srv_Spec s)) of
      None \<Rightarrow> True | Some gw \<Rightarrow> dgw_ParentRefs gw = [])" if "exposureOf s = DNSExposureGateway"
    using that by (simp add: gatewayUnset_def exposureOf_def exposure_defs Let_def split: if_splits)
  show ?thesis
    unfolding phaseExposingDNS_def exposeDNS_def getDNSService_def Let_def
    by (intro calls_only_tryIO stores_child [OF calls_reconcileRoutes [of UNIV]] calls_only_if calls_only_ask
        calls_only_case_option calls_only_Return stores_setPhase stores_setFailed)
      (auto simp: unset)
qed

lemma storeEndpoint_ok:
  "exec (storeEndpoint s ep) tr (Inr s') \<Longrightarrow> s' = s \<or> s' = withDNSEndpoint s ep"
  by (auto simp: storeEndpoint_def exec_tryIO_iff split: if_splits)

lemma refreshDNSEndpoint_ok:
  assumes "exec (refreshDNSEndpoint X s) tr (Inr s')"
  shows "s' = s \<or> (\<exists>ep. s' = withDNSEndpoint s ep)"
proof -
  have lb: "s' = s \<or> (\<exists>ep. s' = withDNSEndpoint s ep)" if "exec (refreshLoadBalancer X s svc) t (Inr s')" for svc t
    using that by (auto simp: refreshLoadBalancer_def Let_def exec_andThen_iff dest: storeEndpoint_ok split: if_splits)
  have live: "s' = s \<or> (\<exists>ep. s' = withDNSEndpoint s ep)"
    if "exec (case r of Inl e \<Rightarrow> Return (if err_kind e = KubeNotFound then Inr s else Inl e)
        | Inr svc \<Rightarrow> if exposureOf s = DNSExposureNone then storeEndpoint s (clusterEndpoint svc)
            else refreshLoadBalancer X s svc) t (Inr s')" for r t
    using that by (cases r) (auto dest: lb storeEndpoint_ok split: if_splits)
  from assms show ?thesis
    by (auto simp: refreshDNSEndpoint_def exec_andThen_iff dest: live storeEndpoint_ok split: if_splits)
qed

lemma stores_refreshDNSEndpoint:
  "calls_only (stores (\<lambda>y. \<exists>ep. y = ObjServer (withDNSEndpoint s ep))) (refreshDNSEndpoint X s)"
proof -
  have [calls_intros]: "calls_only (stores (\<lambda>y. \<exists>ep. y = ObjServer (withDNSEndpoint s ep))) (storeEndpoint s ep)" for ep
    unfolding storeEndpoint_def by (intro calls_intros) auto
  show ?thesis
    unfolding refreshDNSEndpoint_def getDNSService_def refreshLoadBalancer_def Let_def
    by (intro calls_intros) auto
qed

lemma status_refreshReplicaStatus:
  assumes "exec (refreshReplicaStatus X s) tr res" "(KStatusUpdate y, r) \<in> set tr"
  shows "\<exists>dep. (KGet KDeployment (deploymentKey s), RObj (ObjDeployment dep)) \<in> set tr \<and>
    y = ObjServer (replicaStatus X s dep)"
proof -
  have q: "(KStatusUpdate y, r) \<notin> set t" if "exec (announceReady X s dep) t x" for dep t x
    using that by (auto simp: announceReady_def Let_def dest: no_status_event split: if_splits)
  from assms obtain dep t where "tr = (KGet KDeployment (deploymentKey s), RObj (ObjDeployment dep)) # t"
    "exec (if replicasChanged s dep then
         tryIO (ask (KStatusUpdate (ObjServer (replicaStatus X s dep))) respUnit) (\<lambda>_.
         andThen (announceReady X s dep) (\<lambda>_. Return (Inr ())))
       else Return (Inr ())) t res"
    by (auto simp: refreshReplicaStatus_def exec_tryIO_iff [of "ask _ _"] deploymentKey_def
        eq_commute [of _ "respDeployment _"] respDeployment_Inr)
  with assms(2) show ?thesis
    by (auto simp: exec_tryIO_iff exec_andThen_iff dest: q split: if_splits)
qed

section \<open>The simulation\<close>

definition stored_step :: "PowerDNSServer \<Rightarrow> event list \<Rightarrow> PowerDNSServer \<Rightarrow> bool" where
  "stored_step s tr s' \<longleftrightarrow> srv_Meta s' = srv_Meta s \<and> srv_Spec s' = srv_Spec s \<and>
     abs_step (observed s tr) (promised s) (promised s')"

lemma observed_mono: "f \<in> observed s tr \<Longrightarrow> set tr \<subseteq> set tr' \<Longrightarrow> f \<in> observed s tr'"
  by (induction rule: observed.induct) (auto intro: observed.intros)

lemma abs_step_mono: "abs_step F p p' \<Longrightarrow> F \<subseteq> F' \<Longrightarrow> abs_step F' p p'"
  by (induction rule: abs_step.induct) (auto intro: abs_step.intros)

lemma stored_step_mono: "stored_step s tr s' \<Longrightarrow> set tr \<subseteq> set tr' \<Longrightarrow> stored_step s tr' s'"
  unfolding stored_step_def by (metis abs_step_mono observed_mono subsetI)

lemma status_frame:
  "srv_Meta (withPhase p s) = srv_Meta s" "srv_Spec (withPhase p s) = srv_Spec s"
  "srv_Meta (withAPIKey s n) = srv_Meta s" "srv_Spec (withAPIKey s n) = srv_Spec s"
  "srv_Meta (failedServer X s m) = srv_Meta s" "srv_Spec (failedServer X s m) = srv_Spec s"
  "srv_Meta (pendingServer X s) = srv_Meta s" "srv_Spec (pendingServer X s) = srv_Spec s"
  "srv_Meta (withBackendSecret s) = srv_Meta s" "srv_Spec (withBackendSecret s) = srv_Spec s"
  "srv_Meta (backendReady X s) = srv_Meta s" "srv_Spec (backendReady X s) = srv_Spec s"
  "srv_Meta (schemaApplied X s) = srv_Meta s" "srv_Spec (schemaApplied X s) = srv_Spec s"
  "srv_Meta (withAPIEndpoint s) = srv_Meta s" "srv_Spec (withAPIEndpoint s) = srv_Spec s"
  "srv_Meta (withDNSEndpoint s ep) = srv_Meta s" "srv_Spec (withDNSEndpoint s ep) = srv_Spec s"
  "srv_Meta (replicaStatus X s dep) = srv_Meta s" "srv_Spec (replicaStatus X s dep) = srv_Spec s"
  by (simp_all add: status_defs Let_def)

lemma promised_phase [simp]: "pr_phase (promised s) = phase_of (pst_Phase (srv_Status s))"
  by (simp add: promised_def Let_def)

lemma observed_cong:
  "srv_Meta s = srv_Meta s' \<Longrightarrow> deploymentKey s = deploymentKey s'"
  by (simp add: deploymentKey_def srv_ns_def)

lemma status_phaseReady:
  assumes "owner_laws X" "retry_laws X" "condition_laws X" "pst_Phase (srv_Status s) = PhaseReady"
    and "exec (phaseReady X s) tr res" "(KStatusUpdate y, r) \<in> set tr"
  shows "\<exists>s'. y = ObjServer s' \<and> stored_step s tr s'"
proof -
  let ?g = "\<lambda>s2. tryIO (refreshReplicaStatus X s2) (\<lambda>_. Return (Inr (RequeueAfter requeueLong)))"
  have warn: "calls_only (child_req s UNIV) (warnExtraSettings X s)"
    unfolding warnExtraSettings_def Let_def by (intro calls_intros) auto
  from status_after [OF assms(5) [unfolded phaseReady_def] assms(6) warn] obtain ta tb where
    b: "tr = ta @ tb" "exec (tryIO (reconcileDrift X s) (\<lambda>s1. tryIO (refreshDNSEndpoint X s1) ?g)) tb res"
      "(KStatusUpdate y, r) \<in> set tb" by blast
  from status_after_try [OF b(2,3) calls_reconcileDrift [OF assms(1,2)]] obtain tc s1 td where
    c: "tb = tc @ td" "exec (reconcileDrift X s) tc (Inr s1)" "exec (tryIO (refreshDNSEndpoint X s1) ?g) td res"
      "(KStatusUpdate y, r) \<in> set td" by blast
  from reconcileDrift_ok [OF c(2)] obtain h where s1: "s1 = withHash s h" by blast
  note fr = stored_step_def status_frame promised_endpoint s1
  have endpoint: "\<exists>s'. y = ObjServer s' \<and> stored_step s tr s'"
    if "exec (refreshDNSEndpoint X s1) t x" "(KStatusUpdate y, r) \<in> set t" for t x
    using calls_only_exec [OF that(1) stores_refreshDNSEndpoint that(2)] assms(4)
    by (auto simp: fr intro!: abs_step.refresh)
  from c(3) show ?thesis
  proof (cases rule: exec_tryIOE)
    case (fail e)
    with c(4) endpoint show ?thesis by blast
  next
    case (ok t1 s2 t2)
    show ?thesis
    proof (cases "(KStatusUpdate y, r) \<in> set t1")
      case True
      with ok(2) endpoint show ?thesis by blast
    next
      case False
      with c(4) ok(1) have y: "(KStatusUpdate y, r) \<in> set t2" by auto
      from ok(3) obtain x where x: "exec (refreshReplicaStatus X s2) t2 x" by (auto simp: exec_tryIO_iff)
      from status_refreshReplicaStatus [OF x y] obtain dep where
        d: "(KGet KDeployment (deploymentKey s2), RObj (ObjDeployment dep)) \<in> set t2" "y = ObjServer (replicaStatus X s2 dep)"
        by blast
      from refreshDNSEndpoint_ok [OF ok(2)] have s2: "srv_Meta s2 = srv_Meta s" "srv_Spec s2 = srv_Spec s" "promised s2 = promised s"
        by (auto simp: fr)
      have dep: "(KGet KDeployment (deploymentKey s), RObj (ObjDeployment dep)) \<in> set tr"
        using d(1) ok(1) c(1) b(1) observed_cong [OF s2(1)] by simp
      have "abs_step (observed s tr) (promised s) ((promised s)\<lparr>pr_ready := available dep, pr_cond := available dep\<rparr>)"
        using assms(4) observed.intros(5,6) [OF dep] by (cases "available dep") (auto intro: abs_step.intros)
      with d(2) s2 show ?thesis by (auto simp: fr promised_replicas [OF assms(3)])
    qed
  qed
qed

lemma server_body_phases:
  "server_body X s = (case phase_of (pst_Phase (srv_Status s)) of
     Pending \<Rightarrow> phasePending X s
   | Provisioning \<Rightarrow> phaseProvisioningBackend X s
   | Initializing \<Rightarrow> phaseInitializingSchema X s
   | Deploying \<Rightarrow> phaseDeployingServer X s
   | Exposing \<Rightarrow> phaseExposingDNS X s
   | Serving \<Rightarrow> phaseReady X s
   | _ \<Rightarrow> Return (Inr Done))"
  by (simp add: server_body_def Let_def phase_of_def phase_defs)

lemma server_body_step:
  assumes "owner_laws X" "retry_laws X" "condition_laws X"
    and "exec (server_body X s) tr res" "(KStatusUpdate y, r) \<in> set tr"
  shows "\<exists>s'. y = ObjServer s' \<and> stored_step s tr s'"
proof -
  note fr = stored_step_def status_frame
  show ?thesis
  proof (cases "phase_of (pst_Phase (srv_Status s))")
    case Pending
    with assms(4) have "exec (phasePending X s) tr res" by (simp add: server_body_phases)
    from status_phasePending [OF assms(1) this assms(5)] Pending show ?thesis
      by (auto simp: fr promised_accept promised_failed assms(3) intro!: abs_step.accept abs_step.reject intro: observed.intros)
  next
    case Provisioning
    with assms(4) have "exec (phaseProvisioningBackend X s) tr res" by (simp add: server_body_phases)
    from calls_only_exec [OF this status_phaseProvisioning [OF assms(1)] assms(5)] Provisioning show ?thesis
      by (auto simp: fr promised_provision assms(3) intro!: abs_step.intros)
  next
    case Initializing
    with assms(4) have "exec (phaseInitializingSchema X s) tr res" by (simp add: server_body_phases)
    from status_phaseInitializing [OF this assms(5)] Initializing show ?thesis
      by (auto simp: fr promised_migrate assms(3) intro!: abs_step.intros)
  next
    case Deploying
    with assms(4) have "exec (phaseDeployingServer X s) tr res" by (simp add: server_body_phases)
    from status_phaseDeploying [OF assms(1,2) this assms(5)] Deploying show ?thesis
      by (auto simp: fr promised_deploy intro!: abs_step.intros)
  next
    case Exposing
    with assms(4) have "exec (phaseExposingDNS X s) tr res" by (simp add: server_body_phases)
    from calls_only_exec [OF this status_phaseExposing assms(5)] Exposing show ?thesis
      by (auto simp: fr promised_expose promised_endpoint promised_failed assms(3) intro!: abs_step.expose abs_step.abandon intro: observed.intros)
  next
    case Serving
    with assms(4) have "exec (phaseReady X s) tr res" by (simp add: server_body_phases)
    with status_phaseReady [OF assms(1-3)] Serving assms(5) show ?thesis by (simp add: phase_of_iff)
  qed (use assms(4,5) in \<open>auto simp: server_body_phases\<close>)
qed

text \<open>A request that is not a write of the server itself comes from the handler of its phase.\<close>

lemma server_pass_body:
  assumes "exec (server_Reconcile X key) ((KGet KServer key, RObj (ObjServer s)) # t) res"
    and "(q, r) \<in> set t" "\<And>s'. q \<noteq> KUpdate (ObjServer s')"
  shows "\<not> om_Deleting (srv_Meta s)" "ContainsFinalizer X (om_Finalizers (srv_Meta s)) finalizer"
    "exec (server_body X s) t res"
proof -
  have read: "respServer (RObj (ObjServer s)) = Inr s" by simp
  show live: "\<not> om_Deleting (srv_Meta s)"
    using server.delete_pass [OF assms(1) read] assms(2,3) by (auto simp: server_reconcileDelete_def exec_tryIO_iff)
  show protected: "ContainsFinalizer X (om_Finalizers (srv_Meta s)) finalizer"
  proof (rule ccontr)
    assume "\<not> ContainsFinalizer X (om_Finalizers (srv_Meta s)) finalizer"
    with server.unprotected_pass [OF assms(1) read live] assms(2,3) show False by (auto simp: server_protect_def)
  qed
  show "exec (server_body X s) t res" by (rule server.body_pass [OF assms(1) read live protected])
qed

lemma server_pass_read:
  assumes "exec (server_Reconcile X key) tr res" "(q, r) \<in> set tr" "q \<noteq> KGet KServer key"
  obtains s t where "tr = (KGet KServer key, RObj (ObjServer s)) # t" "(q, r) \<in> set t"
proof -
  from server.starts_with_get [OF assms(1)] obtain r0 t where tr: "tr = (KGet KServer key, r0) # t" by blast
  with assms show thesis
    by (cases "respServer r0") (auto simp: server_Reconcile_def exec_Call_iff respServer_Inr intro: that)
qed

lemma server_pass_step:
  assumes "owner_laws X" "retry_laws X" "condition_laws X"
    and "exec (server_Reconcile X key) tr res" "(KStatusUpdate y, r) \<in> set tr"
  obtains s s' t where "tr = (KGet KServer key, RObj (ObjServer s)) # t" "\<not> om_Deleting (srv_Meta s)"
    "ContainsFinalizer X (om_Finalizers (srv_Meta s)) finalizer" "y = ObjServer s'" "stored_step s tr s'"
proof -
  from assms(4,5) obtain s t where tr: "tr = (KGet KServer key, RObj (ObjServer s)) # t"
    and y: "(KStatusUpdate y, r) \<in> set t"
    by (rule server_pass_read) simp
  note body = server_pass_body [OF assms(4) [unfolded tr] y]
  from server_body_step [OF assms(1-3) body(3) y] obtain s' where "y = ObjServer s'" "stored_step s t s'" by auto
  moreover from this(2) tr have "stored_step s tr s'" by (auto elim!: stored_step_mono)
  ultimately show thesis using that tr body(1,2) by auto
qed

section \<open>Reachable servers\<close>

definition zeroStatus :: PowerDNSServerStatus where
  "zeroStatus = \<lparr>pst_Phase = [], pst_Ready = False, pst_DNSEndpoint = [], pst_APIEndpoint = [],
     pst_APIKeySecretName = [], pst_BackendSecretName = [], pst_SchemaApplied = False, pst_DesiredReplicas = 0,
     pst_ReadyReplicas = 0, pst_ConfigHash = [], pst_Conditions = [], pst_FailureMessage = []\<rparr>"

text \<open>
  How the stored object changes: someone edits its spec or metadata (the status is a subresource,
  so it stays), or a pass that read it has its status stored.
\<close>

inductive evolves :: "ext \<Rightarrow> NamespacedName \<Rightarrow> PowerDNSServer \<Rightarrow> PowerDNSServer \<Rightarrow> bool" for X key where
  edit: "srv_Status s' = srv_Status s \<Longrightarrow> evolves X key s s'"
| pass: "exec (server_Reconcile X key) ((KGet KServer key, RObj (ObjServer s)) # t) res \<Longrightarrow>
     (KStatusUpdate (ObjServer s'), r) \<in> set t \<Longrightarrow> evolves X key s s'"

definition reachable :: "ext \<Rightarrow> NamespacedName \<Rightarrow> PowerDNSServer \<Rightarrow> bool" where
  "reachable X key s \<longleftrightarrow> (\<exists>s0. srv_Status s0 = zeroStatus \<and> (evolves X key)\<^sup>*\<^sup>* s0 s)"

text \<open>A concrete relation simulated by an abstract one.\<close>

locale simulation =
  fixes cstep :: "'c \<Rightarrow> 'c \<Rightarrow> bool"
    and astep :: "'a \<Rightarrow> 'a \<Rightarrow> bool"
    and abstr :: "'c \<Rightarrow> 'a"
  assumes simulates: "cstep c c' \<Longrightarrow> astep (abstr c) (abstr c')"
begin

lemma run_simulated: "cstep\<^sup>*\<^sup>* c c' \<Longrightarrow> astep\<^sup>*\<^sup>* (abstr c) (abstr c')"
  by (induction rule: rtranclp_induct) (auto intro: simulates rtranclp.rtrancl_into_rtrancl)

lemma invariant_pulled_back:
  assumes "cstep\<^sup>*\<^sup>* c c'" "I (abstr c)" "\<And>a a'. I a \<Longrightarrow> astep a a' \<Longrightarrow> I a'"
  shows "I (abstr c')"
  using assms(1,2) by (induction rule: rtranclp_induct) (auto intro: assms(3) simulates)

end

definition abs_moves :: "promise \<Rightarrow> promise \<Rightarrow> bool" where
  "abs_moves p p' \<longleftrightarrow> p = p' \<or> (\<exists>F. abs_step F p p')"

lemma ext_lawsD:
  assumes "ext_laws X"
  shows "owner_laws X" "retry_laws X" "condition_laws X" "equality_laws X" "finalizer_laws X"
  using assms by (simp_all add: ext_laws_def)

lemma promised_status: "srv_Status s' = srv_Status s \<Longrightarrow> promised s' = promised s"
  by (simp add: promised_def)

interpretation phases: simulation "\<lambda>s s'. ext_laws X \<and> evolves X key s s'" abs_moves promised for X key
proof
  fix s s'
  assume "ext_laws X \<and> evolves X key s s'"
  then have laws: "ext_laws X" and "evolves X key s s'" by auto
  from this(2) show "abs_moves (promised s) (promised s')"
  proof cases
    case edit
    from promised_status [OF this] show ?thesis by (simp add: abs_moves_def)
  next
    case (pass t res r)
    then have "(KStatusUpdate (ObjServer s'), r) \<in> set ((KGet KServer key, RObj (ObjServer s)) # t)" by simp
    with pass(1) show ?thesis
      by (rule server_pass_step [OF ext_lawsD(1-3) [OF laws]]) (auto simp: abs_moves_def stored_step_def)
  qed
qed

text \<open>What a reachable status promises, phase by phase.\<close>

definition promise_ok :: "promise \<Rightarrow> bool" where
  "promise_ok p \<longleftrightarrow> pr_ready p = pr_cond p \<and> (case pr_phase p of
     Pending \<Rightarrow> \<not> pr_key p \<and> \<not> pr_backend p \<and> \<not> pr_schema p \<and> \<not> pr_api p \<and> \<not> pr_ready p \<and> \<not> pr_failure p
   | Provisioning \<Rightarrow> pr_key p \<and> \<not> pr_backend p \<and> \<not> pr_schema p \<and> \<not> pr_api p \<and> \<not> pr_ready p \<and> \<not> pr_failure p
   | Initializing \<Rightarrow> pr_key p \<and> pr_backend p \<and> \<not> pr_schema p \<and> \<not> pr_api p \<and> \<not> pr_ready p \<and> \<not> pr_failure p
   | Deploying \<Rightarrow> pr_key p \<and> pr_backend p \<and> pr_schema p \<and> \<not> pr_api p \<and> \<not> pr_ready p \<and> \<not> pr_failure p
   | Exposing \<Rightarrow> pr_key p \<and> pr_backend p \<and> pr_schema p \<and> pr_api p \<and> \<not> pr_ready p \<and> \<not> pr_failure p
   | Serving \<Rightarrow> pr_key p \<and> pr_backend p \<and> pr_schema p \<and> pr_api p \<and> \<not> pr_failure p
   | Rejected \<Rightarrow> pr_failure p \<and> \<not> pr_ready p
   | Unknown \<Rightarrow> False)"

lemma promise_ok_step: "promise_ok p \<Longrightarrow> abs_moves p p' \<Longrightarrow> promise_ok p'"
  by (auto simp: promise_ok_def abs_moves_def elim!: abs_step.cases)

lemma reachable_promise_ok:
  assumes "ext_laws X" "reachable X key s"
  shows "promise_ok (promised s)"
proof -
  from assms(2) obtain s0 where s0: "srv_Status s0 = zeroStatus" "(evolves X key)\<^sup>*\<^sup>* s0 s"
    by (auto simp: reachable_def)
  have "(\<lambda>s s'. ext_laws X \<and> evolves X key s s')\<^sup>*\<^sup>* s0 s"
    using s0(2) by (simp add: assms(1))
  moreover have "promise_ok (promised s0)"
    by (simp add: s0(1) promise_ok_def promised_def zeroStatus_def isReady_def findCond_def)
  ultimately show ?thesis by (rule phases.invariant_pulled_back) (rule promise_ok_step)
qed

end
