(* ===== verification/Server_Liveness.thy ===== *)
theory Server_Liveness
  imports Server_Phases
begin

text \<open>
  Progress of the phase machine.  \<open>ends G p Q\<close> says that every execution of \<open>p\<close> whose answers all
  satisfy \<open>G\<close> ends with a result in \<open>Q\<close>; \<open>works G p\<close> that it ends without an error.  The rules for
  the combinators carry both over whole handlers.
\<close>

section \<open>Executions with given answers\<close>

definition answered :: "(req \<Rightarrow> resp \<Rightarrow> bool) \<Rightarrow> event list \<Rightarrow> bool" where
  "answered G tr \<longleftrightarrow> (\<forall>(q, r) \<in> set tr. G q r)"

definition ends :: "(req \<Rightarrow> resp \<Rightarrow> bool) \<Rightarrow> 'a kio \<Rightarrow> ('a \<Rightarrow> bool) \<Rightarrow> bool" where
  "ends G p Q \<longleftrightarrow> (\<forall>tr x. exec p tr x \<longrightarrow> answered G tr \<longrightarrow> Q x)"

definition works :: "(req \<Rightarrow> resp \<Rightarrow> bool) \<Rightarrow> ('e + 'a) kio \<Rightarrow> bool" where
  "works G p \<longleftrightarrow> ends G p (\<lambda>x. \<exists>y. x = Inr y)"

lemma answered_simps [simp]:
  "answered G []" "answered G (e # tr) \<longleftrightarrow> G (fst e) (snd e) \<and> answered G tr"
  "answered G (t1 @ t2) \<longleftrightarrow> answered G t1 \<and> answered G t2"
  by (auto simp: answered_def)

named_theorems ends_intros "rules for programs run against given answers"

lemma ends_Return [ends_intros]: "Q x \<Longrightarrow> ends G (Return x) Q"
  by (simp add: ends_def)

lemma ends_andThen: "ends G p (\<lambda>x. ends G (f x) Q) \<Longrightarrow> ends G (andThen p f) Q"
  unfolding ends_def by (auto simp: exec_andThen_iff)

lemma ends_ask: "(\<And>r. G q r \<Longrightarrow> Q (f r)) \<Longrightarrow> ends G (ask q f) Q"
  by (auto simp: ends_def)

lemma ends_mono: "ends G p Q \<Longrightarrow> (\<And>x. Q x \<Longrightarrow> Q' x) \<Longrightarrow> ends G p Q'"
  by (auto simp: ends_def)

lemma works_Return [ends_intros]: "works G (Return (Inr x))"
  by (simp add: works_def ends_Return)

lemma works_then [ends_intros]: "(\<And>x. works G (f x)) \<Longrightarrow> works G (andThen p f)"
  unfolding works_def by (rule ends_andThen) (simp add: ends_def)

lemma works_ask_then:
  "(\<And>r. G q r \<Longrightarrow> works G (f (g r))) \<Longrightarrow> works G (andThen (ask q g) f)"
  unfolding works_def by (rule ends_andThen) (rule ends_ask)

lemma works_ask: "(\<And>r. G q r \<Longrightarrow> \<exists>y. f r = Inr y) \<Longrightarrow> works G (ask q f)"
  unfolding works_def by (rule ends_ask)

lemma works_tryIO [ends_intros]: "works G p \<Longrightarrow> (\<And>x. works G (f x)) \<Longrightarrow> works G (tryIO p f)"
  unfolding works_def ends_def by (fastforce simp: exec_tryIO_iff)

lemma works_mapErr [ends_intros]: "works G p \<Longrightarrow> works G (mapErr g p)"
  unfolding works_def ends_def by (fastforce simp: exec_mapErr_iff)

lemma works_forIO [ends_intros]: "(\<And>x. x \<in> set xs \<Longrightarrow> works G (f x)) \<Longrightarrow> works G (forIO f xs)"
  by (induction xs) (auto intro: ends_intros)

lemma works_if [ends_intros]:
  "(b \<Longrightarrow> works G p) \<Longrightarrow> (\<not> b \<Longrightarrow> works G q) \<Longrightarrow> works G (if b then p else q)"
  by simp

lemma works_option [ends_intros]:
  "(s = None \<Longrightarrow> works G p) \<Longrightarrow> (\<And>x. s = Some x \<Longrightarrow> works G (f x)) \<Longrightarrow>
   works G (case s of None \<Rightarrow> p | Some x \<Rightarrow> f x)"
  by (cases s) simp_all

lemma works_retry:
  assumes "retry_laws X" "works G p"
  shows "works G (RetryOnConflict X p)"
  unfolding works_def ends_def
proof (intro allI impI)
  fix tr x
  assume "exec (RetryOnConflict X p) tr x" and a: "answered G tr"
  then have "attempts p tr x" using assms(1) by (simp add: retry_laws_def)
  from attempts_result [OF this] obtain t1 t2 where "tr = t1 @ t2" "exec p t2 x" by blast
  with a assms(2) show "\<exists>y. x = Inr y" by (auto simp: works_def ends_def)
qed

text \<open>A program always has an execution with answers from \<open>G\<close>, if every request has one.\<close>

lemma answered_exists:
  assumes "\<And>q. \<exists>r. G q r"
  shows "\<exists>tr x. exec p tr x \<and> answered G tr"
proof (induction p)
  case (Return x)
  have "exec (Return x) [] x \<and> answered G []" by simp
  then show ?case by blast
next
  case (Call q k)
  from assms obtain r where r: "G q r" by blast
  from Call.IH [of "k r"] obtain tr x where "exec (k r) tr x" "answered G tr" by auto
  with r have "exec (Call q k) ((q, r) # tr) x \<and> answered G ((q, r) # tr)" by (auto intro: exec_Call)
  then show ?case by blast
qed

section \<open>Helpful answers\<close>

text \<open>
  The environment does its part: no request fails, the schema Job has succeeded, the Deployment
  has an available replica, the credentials Secret holds a user and a password, the database
  cluster has a ready instance and a load balancer has an address.
\<close>

definition hasCredentials :: "Secret \<Rightarrow> bool" where
  "hasCredentials sec \<longleftrightarrow> pickKey (sec_Data sec) [''username'', ''user''] \<noteq> [] \<and>
     pickKey (sec_Data sec) [''password''] \<noteq> []"

definition clusterUp :: "ext \<Rightarrow> Unstructured \<Rightarrow> bool" where
  "clusterUp X u \<longleftrightarrow> (\<exists>n \<ge> 1. NestedInt64 X (un_Object u) [''status'', ''readyInstances''] = Inr (Some n))"

fun helpful :: "ext \<Rightarrow> req \<Rightarrow> resp \<Rightarrow> bool" where
  "helpful X (KGet KJob n) r = (\<exists>job. r = RObj (ObjJob job) \<and> job_Succeeded job > 0)"
| "helpful X (KGet KDeployment n) r = (\<exists>dep. r = RObj (ObjDeployment dep) \<and> dep_AvailableReplicas dep \<ge> 1)"
| "helpful X (KGet KService n) r = (\<exists>svc. r = RObj (ObjService svc) \<and> ingressAddr (svc_Ingress svc) \<noteq> [])"
| "helpful X (KGet KSecret n) r = (\<exists>sec. r = RObj (ObjSecret sec) \<and> hasCredentials sec)"
| "helpful X (KGet KConfigMap n) r = (\<exists>cm. r = RObj (ObjConfigMap cm))"
| "helpful X (KGet (KUnstructured g) n) r = (\<exists>u. r = RObj (ObjUnstructured u) \<and> clusterUp X u)"
| "helpful X (KListByLabels k n ls) r = (\<exists>xs. r = RList xs)"
| "helpful X (RandRead n) r = (\<exists>b. r = RBytes b)"
| "helpful X q r = (respUnit r = Inr ())"

lemma helpful_unit: "helpful X (KGet k n) r \<Longrightarrow> respUnit r = Inr ()"
  by (cases k) auto

text \<open>
  \<open>SetControllerReference\<close> succeeds for an object of the owner's namespace that has no controller,
  and \<open>NestedInt64\<close> finds a number at its path.
\<close>

definition owner_total :: "ext \<Rightarrow> bool" where
  "owner_total X \<longleftrightarrow> (\<forall>ow ns m. om_Owner m = None \<and> om_Namespace m = ns \<longrightarrow>
     (\<exists>m'. SetControllerReference X ow ns m = Inr m'))"

definition nested_laws :: "ext \<Rightarrow> bool" where
  "nested_laws X \<longleftrightarrow> (\<forall>n. NestedInt64 X (JObj [(''status'', JObj [(''readyInstances'', JNum n)])])
     [''status'', ''readyInstances''] = Inr (Some n))"

text \<open>One helpful answer to every request.\<close>

fun goodAnswer :: "req \<Rightarrow> resp" where
  "goodAnswer (KGet KJob n) = RObj (ObjJob ((SchemaInitJob demoServer)\<lparr>job_Succeeded := 1\<rparr>))"
| "goodAnswer (KGet KDeployment n) = RObj (ObjDeployment ((Deployment demoServer [])\<lparr>dep_AvailableReplicas := 1\<rparr>))"
| "goodAnswer (KGet KService n) = RObj (ObjService ((DNSService demoServer)\<lparr>svc_Ingress :=
     [\<lparr>lbi_IP = ''192.0.2.1'', lbi_Hostname = []\<rparr>]\<rparr>))"
| "goodAnswer (KGet KSecret n) = RObj (ObjSecret (demoSecret\<lparr>sec_Data := [(''username'', ''u''), (''password'', ''p'')]\<rparr>))"
| "goodAnswer (KGet KConfigMap n) = RObj (ObjConfigMap (Manifests.ConfigMap demoServer))"
| "goodAnswer (KGet (KUnstructured g) n) = RObj (ObjUnstructured ((Cluster demoServer [])\<lparr>un_Object :=
     JObj [(''status'', JObj [(''readyInstances'', JNum 1)])]\<rparr>))"
| "goodAnswer (KListByLabels k n ls) = RList []"
| "goodAnswer (RandRead n) = RBytes []"
| "goodAnswer q = ROk"

lemma helpful_goodAnswer: "nested_laws X \<Longrightarrow> helpful X q (goodAnswer q)"
  by (cases q rule: goodAnswer.cases) (simp_all add: hasCredentials_def clusterUp_def nested_laws_def)

section \<open>The helpers work\<close>

abbreviation goes :: "ext \<Rightarrow> ('e + 'a) kio \<Rightarrow> bool" where
  "goes X p \<equiv> works (helpful X) p"

definition fresh :: "PowerDNSServer \<Rightarrow> kobj \<Rightarrow> bool" where
  "fresh s x \<longleftrightarrow> om_Owner (obj_meta x) = None \<and> om_Namespace (obj_meta x) = srv_ns s"

lemma rendered_fresh [simp]:
  "fresh s (ObjConfigMap (Manifests.ConfigMap s))"
  "fresh s (ObjDeployment (Deployment s h))"
  "fresh s (ObjService (APIService s))"
  "fresh s (ObjService (DNSService s))"
  "fresh s (ObjJob (SchemaInitJob s))"
  "fresh s (ObjSecret (newAPIKeySecret s key))"
  "fresh s (ObjSecret (backendSecret s host port user password database))"
  "fresh s (ObjNetworkPolicy (NetworkPolicy s))"
  "fresh s (ObjUnstructured (PodMonitor s))"
  "fresh s (ObjUnstructured (Cluster s n))"
  by (simp_all add: fresh_def Manifests.ConfigMap_def Deployment_def APIService_def SchemaInitJob_def
      newAPIKeySecret_def backendSecret_def NetworkPolicy_def PodMonitor_def Cluster_def Let_def srv_ns_def)

lemma rendered_fresh_optional:
  "PodDisruptionBudget s = Some pdb \<Longrightarrow> fresh s (ObjPDB pdb)"
  "svc \<in> set (AdditionalDNSServices s) \<Longrightarrow> fresh s (ObjService (tagAdditional svc))"
  by (auto simp: fresh_def srv_ns_def PodDisruptionBudget_def pdbFor_def AdditionalDNSServices_def
      additionalDNSService_def tagAdditional_def Let_def split: if_splits option.splits)

lemma owner_total_fresh:
  assumes "owner_total X" "fresh s x"
  obtains m where "SetControllerReference X (serverRef s) (srv_ns s) (obj_meta x) = Inr m"
  using assms by (metis owner_total_def fresh_def)

lemma setOwner_total:
  assumes "owner_total X" "fresh s x"
  obtains x' where "setOwner X (serverRef s) (srv_ns s) x = Inr x'"
proof -
  from assms obtain m where "SetControllerReference X (serverRef s) (srv_ns s) (obj_meta x) = Inr m"
    by (rule owner_total_fresh)
  then show thesis by (intro that) (simp add: setOwner_def)
qed

lemma goes_writes [ends_intros]:
  "goes X (ask (KCreate x) respUnit)" "goes X (ask (KUpdate x) respUnit)"
  "goes X (ask (KStatusUpdate x) respUnit)" "goes X (ask (KCreateOrUpdate x) respUnit)"
  "goes X (ask (KDelete k n) (\<lambda>r. ignoreMissing (respUnit r)))"
  by (auto intro!: works_ask simp: ignoreMissing_def)

lemma goes_tryDelete [ends_intros]: "goes X (tryDelete k n)"
  unfolding tryDelete_def by (rule works_ask) simp

lemma goes_createIfMissing [ends_intros]: "goes X (createIfMissing x)"
  unfolding createIfMissing_def
  by (rule works_ask_then) (simp add: helpful_unit ends_intros)

lemma goes_ensureOwned [ends_intros]:
  assumes "owner_total X" "fresh s x"
  shows "goes X (ensureOwned X s x)"
proof -
  from assms obtain x' where "setOwner X (serverRef s) (srv_ns s) x = Inr x'" by (rule setOwner_total)
  then show ?thesis by (simp add: ensureOwned_def ends_intros)
qed

lemma goes_ensureUnstructured [ends_intros]:
  assumes "owner_total X" "fresh s (ObjUnstructured u)"
  shows "goes X (ensureUnstructured X s u)"
proof -
  from assms obtain x' where "setOwner X (serverRef s) (srv_ns s) (ObjUnstructured u) = Inr x'" by (rule setOwner_total)
  then show ?thesis by (simp add: ensureUnstructured_def ends_intros)
qed

lemma goes_updateService:
  assumes "retry_laws X"
  shows "goes X (updateService X svc)"
proof -
  have "goes X (updateService_attempt X svc)"
    unfolding updateService_attempt_def
    by (rule works_ask_then) (auto simp: Let_def intro!: ends_intros)
  with works_retry [OF assms] show ?thesis by (simp add: updateService_def)
qed

lemma goes_server_updateService [ends_intros]:
  assumes "owner_total X" "retry_laws X" "fresh s (ObjService svc)"
  shows "goes X (server_updateService X s svc)"
proof -
  from assms(1,3) obtain m where "SetControllerReference X (serverRef s) (srv_ns s) (obj_meta (ObjService svc)) = Inr m"
    by (rule owner_total_fresh)
  then have "ownedService X (serverRef s) (om_Namespace (srv_Meta s)) svc = Inr (svc\<lparr>svc_Meta := m\<rparr>)"
    by (simp add: ownedService_def srv_ns_def)
  with goes_updateService [OF assms(2)] show ?thesis by (simp add: server_updateService_def)
qed

lemma goes_updateDeployment [ends_intros]: "goes X (updateDeployment X s dep)"
  unfolding updateDeployment_def
  by (rule works_ask_then) (auto intro!: ends_intros)

lemma goes_updateConfigMap [ends_intros]:
  assumes "retry_laws X"
  shows "goes X (server_updateConfigMap X s cm)"
proof -
  have "goes X (storeConfigMap cm)"
    unfolding storeConfigMap_def by (auto intro!: ends_intros works_ask)
  from works_retry [OF assms this] show ?thesis
    unfolding server_updateConfigMap_def updateConfigMap_def
    by (intro works_ask_then) (auto intro!: ends_intros)
qed

lemma goes_deleteIfExists [ends_intros]: "goes X (deleteIfExists k n)"
  unfolding deleteIfExists_def
  by (rule works_ask_then) (simp add: helpful_unit ends_intros)

lemma goes_upsertOwned [ends_intros]: "goes X (upsertOwned ow x)"
  by (simp add: upsertOwned_def ends_intros)

lemma goes_ensureAPIKey [ends_intros]: "goes X (ensureAPIKey X s)"
  unfolding ensureAPIKey_def Let_def
  by (intro ends_intros works_ask_then) (auto intro!: ends_intros)

lemma goes_storeSecret [ends_intros]: "goes X (storeSecret sec)"
  unfolding storeSecret_def
  by (rule works_ask_then) (auto intro!: ends_intros)

lemma goes_writeBackendSecret:
  assumes "owner_total X"
  shows "goes X (writeBackendSecret X s host port user password database)"
proof -
  from assms rendered_fresh(7) obtain m where "SetControllerReference X (serverRef s) (srv_ns s)
      (obj_meta (ObjSecret (backendSecret s host port user password database))) = Inr m"
    by (rule owner_total_fresh)
  then show ?thesis by (simp add: writeBackendSecret_def Let_def ends_intros)
qed

lemma goes_computeConfigHash [ends_intros]: "goes X (computeConfigHash s cm)"
  unfolding computeConfigHash_def hashedSecrets_def Let_def
  by (auto intro!: ends_intros works_ask simp: secretDataOf_def)

lemma goes_reconcileAdditional:
  assumes "owner_total X" "retry_laws X"
  shows "goes X (reconcileAdditionalDNSServices X s)"
  unfolding reconcileAdditionalDNSServices_def Let_def collectServices_def
  by (intro ends_intros works_ask assms) (auto simp: items_def intro: rendered_fresh_optional)

lemma goes_reconcileObservability:
  assumes "owner_total X"
  shows "goes X (reconcileObservability X s)"
proof -
  have "goes X (andThen (ensureUnstructured X s (PodMonitor s)) (\<lambda>r. case r of
          Inr _ \<Rightarrow> Return (Inr ())
        | Inl e \<Rightarrow>
            if err_kind e = KubeNoMatch then
              andThen (server_event X s ''Warning'' ''PodMonitorUnavailable''
                ''PodMonitor CRD not installed; metrics scraping skipped'') (\<lambda>_. Return (Inr ()))
            else Return (Inl e)))"
    using goes_ensureUnstructured [OF assms rendered_fresh(9), of s]
    unfolding works_def by (intro ends_andThen) (auto elim!: ends_mono intro!: ends_Return)
  then show ?thesis
    unfolding reconcileObservability_def Let_def by (intro works_if goes_tryDelete)
qed

lemma goes_reconcileNetworkPolicy:
  assumes "owner_total X"
  shows "goes X (reconcileNetworkPolicy X s)"
  unfolding reconcileNetworkPolicy_def Let_def
proof (intro works_if works_tryIO goes_tryDelete goes_ensureOwned assms rendered_fresh works_ask_then)
  fix r
  show "goes X (case respNetworkPolicy r of Inl e \<Rightarrow> Return (Inr ())
    | Inr existing \<Rightarrow> ask (KUpdate (ObjNetworkPolicy (withPolicySpec existing (NetworkPolicy s)))) respUnit)"
    by (cases "respNetworkPolicy r") (auto intro!: ends_intros)
qed

lemma goes_ensureBudget:
  assumes "owner_total X"
  shows "goes X (ensureBudget X s)"
  unfolding ensureBudget_def
  by (intro ends_intros assms) (auto intro: rendered_fresh_optional)

lemma goes_reconcileRoutes [ends_intros]: "goes X (reconcileRoutes X s)"
proof -
  have tcp: "goes X (ensureTCPRoute X s)"
    unfolding ensureTCPRoute_def upsertOwned_def by (rule works_ask_then) (simp add: ends_intros)
  have http: "goes X (ensureHTTPRoute X s hr)" for hr
    unfolding ensureHTTPRoute_def works_def
    by (rule ends_andThen) (auto simp: ends_def exec_andThen_iff split: if_splits)
  show ?thesis
    unfolding reconcileRoutes_def reconcileDNSRoutes_def Let_def
    by (intro ends_intros tcp http)
qed

lemma goes_ensureWorkload:
  assumes "owner_total X" "retry_laws X"
  shows "goes X (ensureWorkload X s)"
proof -
  have "goes X (createWorkload X s' h)" for s' h
    unfolding createWorkload_def
    by (intro ends_intros goes_reconcileAdditional goes_ensureBudget goes_reconcileObservability
        goes_reconcileNetworkPolicy assms rendered_fresh)
  then show ?thesis
    unfolding ensureWorkload_def Let_def by (intro ends_intros assms)
qed

section \<open>One phase\<close>

text \<open>A pass that asks to be run again at once has had a status accepted.\<close>

definition announced :: "reconcile \<Rightarrow> bool" where
  "announced p \<longleftrightarrow> (\<forall>tr. exec p tr (Inr Requeue) \<longrightarrow> (\<exists>y r. (KStatusUpdate y, r) \<in> set tr \<and> respUnit r = Inr ()))"

named_theorems announced_intros "rules for passes that requeue only after storing a status"

lemma announced_Return [announced_intros]: "x \<noteq> Inr Requeue \<Longrightarrow> announced (Return x)"
  by (auto simp: announced_def)

lemma announced_andThen [announced_intros]: "(\<And>x. announced (f x)) \<Longrightarrow> announced (andThen p f)"
  by (fastforce simp: announced_def exec_andThen_iff)

lemma announced_tryIO [announced_intros]: "(\<And>x. announced (f x)) \<Longrightarrow> announced (tryIO p f)"
  by (fastforce simp: announced_def exec_tryIO_iff)

lemma announced_setPhase [announced_intros]: "announced (setPhase s p)"
  by (auto simp: announced_def setPhase_def exec_tryIO_iff exec_mapErr_iff)

lemma announced_setFailed [announced_intros]: "announced (setFailed X s msg)"
  by (auto simp: announced_def setFailed_def exec_tryIO_iff exec_andThen_iff)

lemma announced_cases [announced_intros]:
  "(b \<Longrightarrow> announced p) \<Longrightarrow> (\<not> b \<Longrightarrow> announced q) \<Longrightarrow> announced (if b then p else q)"
  "(\<And>e. announced (f e)) \<Longrightarrow> (\<And>x. announced (g x)) \<Longrightarrow> announced (case v of Inl e \<Rightarrow> f e | Inr x \<Rightarrow> g x)"
  "announced p \<Longrightarrow> (\<And>x. announced (h x)) \<Longrightarrow> announced (case w of None \<Rightarrow> p | Some x \<Rightarrow> h x)"
  by (auto split: sum.split option.split)

lemma announced_body: "announced (server_body X s)"
  unfolding server_body_def phasePending_def phaseProvisioningBackend_def provisionBYO_def provisionCNPG_def
    phaseInitializingSchema_def createSchemaJob_def replaceSchemaJob_def phaseDeployingServer_def
    phaseExposingDNS_def exposeDNS_def phaseReady_def Let_def
  by (intro announced_intros) auto

definition requeues :: "ext \<Rightarrow> reconcile \<Rightarrow> bool" where
  "requeues X p \<longleftrightarrow> ends (helpful X) p (\<lambda>res. res = Inr Requeue)"

lemma requeues_setPhase: "requeues X (setPhase s p)"
  by (auto simp: requeues_def ends_def setPhase_def exec_tryIO_iff exec_mapErr_iff)

lemma requeues_then: "(\<And>x. requeues X (f x)) \<Longrightarrow> requeues X (andThen p f)"
  unfolding requeues_def by (rule ends_andThen) (simp add: ends_def)

lemma requeues_ask_then: "(\<And>r. helpful X q r \<Longrightarrow> requeues X (f (g r))) \<Longrightarrow> requeues X (andThen (ask q g) f)"
  unfolding requeues_def by (rule ends_andThen) (rule ends_ask)

lemma requeues_try: "goes X p \<Longrightarrow> (\<And>x. requeues X (f x)) \<Longrightarrow> requeues X (tryIO p f)"
  unfolding requeues_def works_def ends_def by (fastforce simp: exec_tryIO_iff)

lemma requeues_try_True:
  "ends (helpful X) p (\<lambda>x. x = Inr True) \<Longrightarrow> requeues X (f True) \<Longrightarrow> requeues X (tryIO p f)"
  unfolding requeues_def ends_def by (fastforce simp: exec_tryIO_iff)

lemma ends_tryTrue: "goes X p \<Longrightarrow> ends (helpful X) (tryIO p (\<lambda>_. Return (Inr True))) (\<lambda>x. x = Inr True)"
  unfolding works_def ends_def by (fastforce simp: exec_tryIO_iff)

lemma materialise_True:
  assumes "owner_total X"
  shows "ends (helpful X) (materialiseCNPGBackendSecret X s c) (\<lambda>x. x = Inr True)"
    and "ends (helpful X) (materialiseBYOBackendSecret X s byo) (\<lambda>x. x = Inr True)"
proof -
  note ok = hasCredentials_def ends_tryTrue [OF goes_writeBackendSecret [OF assms]]
  show "ends (helpful X) (materialiseCNPGBackendSecret X s c) (\<lambda>x. x = Inr True)"
    unfolding materialiseCNPGBackendSecret_def Let_def
    by (rule ends_andThen, rule ends_ask) (auto simp: ok simp del: pickKey.simps)
  show "ends (helpful X) (materialiseBYOBackendSecret X s byo) (\<lambda>x. x = Inr True)"
    unfolding materialiseBYOBackendSecret_def Let_def
    by (rule ends_andThen, rule ends_ask) (auto simp: ok simp del: pickKey.simps)
qed

lemma cnpgClusterReady_True: "ends (helpful X) (cnpgClusterReady X s c) (\<lambda>x. x = Inr True)"
  unfolding cnpgClusterReady_def by (rule ends_ask) (auto simp: clusterUp_def)

lemma validateSpec_gateway:
  assumes "validateSpec s = []" "exposureOf s = DNSExposureGateway"
  obtains gw where "dns_Gateway (ps_DNS (srv_Spec s)) = Some gw" "dgw_ParentRefs gw \<noteq> []"
proof -
  from assms(2) have e: "dns_Exposure (ps_DNS (srv_Spec s)) = DNSExposureGateway"
    by (simp add: exposureOf_def exposure_defs Let_def split: if_splits)
  from assms(1) have "validateDNSGateway (ps_DNS (srv_Spec s)) = []"
    by (simp add: validateSpec_def Let_def split: if_splits)
  with e show thesis
    by (intro that [of "the (dns_Gateway (ps_DNS (srv_Spec s)))"])
      (auto simp: validateDNSGateway_def gatewayUnset_def gatewayUnsetMsg_def split: if_splits option.splits)
qed

lemma exposing_requeues:
  assumes "validateSpec s = []"
  shows "requeues X (phaseExposingDNS X s)"
proof -
  have "requeues X (exposeDNS X s)"
  proof (cases "exposureOf s = DNSExposureGateway")
    case True
    with assms obtain gw where "dns_Gateway (ps_DNS (srv_Spec s)) = Some gw" "dgw_ParentRefs gw \<noteq> []"
      by (rule validateSpec_gateway)
    with True show ?thesis by (simp add: exposeDNS_def exposure_defs requeues_setPhase)
  next
    case False
    have live: "requeues X (tryIO (getDNSService s) f)" if "\<And>svc. ingressAddr (svc_Ingress svc) \<noteq> [] \<Longrightarrow> requeues X (f svc)" for f
      unfolding getDNSService_def tryIO_def by (rule requeues_ask_then) (auto intro: that)
    from False show ?thesis
      by (auto simp: exposeDNS_def Let_def intro!: live requeues_setPhase)
  qed
  then show ?thesis
    unfolding phaseExposingDNS_def by (intro requeues_try goes_reconcileRoutes)
qed

lemma body_requeues:
  assumes "ext_laws X" "owner_total X" "validateSpec s = []"
    and "phase_of (pst_Phase (srv_Status s)) \<in> {Pending, Provisioning, Initializing, Deploying, Exposing}"
  shows "requeues X (server_body X s)"
proof -
  have 1: "requeues X (phasePending X s)"
    using assms(3) by (auto simp: phasePending_def intro!: requeues_try requeues_then requeues_setPhase ends_intros)
  have "requeues X (provisionBYO X s byo)" for byo
    unfolding provisionBYO_def
    by (rule requeues_try_True [OF materialise_True(2) [OF assms(2)]]) (simp add: requeues_setPhase)
  moreover have "requeues X (provisionCNPG X s)"
    unfolding provisionCNPG_def Let_def
    by (intro requeues_try works_mapErr goes_ensureUnstructured assms(2) rendered_fresh
        requeues_try_True [OF materialise_True(1) [OF assms(2)]])
      (simp add: requeues_try_True [OF cnpgClusterReady_True] requeues_then requeues_setPhase)
  ultimately have 2: "requeues X (phaseProvisioningBackend X s)"
    by (simp add: phaseProvisioningBackend_def split: option.split)
  have 3: "requeues X (phaseInitializingSchema X s)"
    unfolding phaseInitializingSchema_def
    by (rule requeues_ask_then) (auto intro!: requeues_then requeues_setPhase)
  have 4: "requeues X (phaseDeployingServer X s)"
    unfolding phaseDeployingServer_def
    by (intro requeues_try requeues_ask_then goes_ensureWorkload assms(2) ext_lawsD(2) [OF assms(1)])
      (auto intro!: requeues_setPhase)
  from 1 2 3 4 exposing_requeues [OF assms(3)] assms(4) show ?thesis
    by (auto simp: server_body_phases)
qed

section \<open>From creation to Ready\<close>

text \<open>The successor of a phase when all goes well, and the distance to Ready.\<close>

fun next_phase :: "Phase \<Rightarrow> Phase" where
  "next_phase Pending = Provisioning"
| "next_phase Provisioning = Initializing"
| "next_phase Initializing = Deploying"
| "next_phase Deploying = Exposing"
| "next_phase Exposing = Serving"
| "next_phase p = p"

definition admitted :: "ext \<Rightarrow> PowerDNSServer \<Rightarrow> bool" where
  "admitted X s \<longleftrightarrow> \<not> om_Deleting (srv_Meta s) \<and> ContainsFinalizer X (om_Finalizers (srv_Meta s)) finalizer \<and>
     validateSpec s = []"

lemma admitted_pass:
  assumes "admitted X s"
  shows "exec (server_Reconcile X key) ((KGet KServer key, RObj (ObjServer s)) # t) res \<longleftrightarrow> exec (server_body X s) t res"
  using assms by (auto simp: admitted_def server_Reconcile_def exec_Call_iff)

lemma valid_no_fact:
  assumes "validateSpec s = []"
  shows "SpecInvalid \<notin> observed s tr" "NoParents \<notin> observed s tr"
proof -
  show "SpecInvalid \<notin> observed s tr" using assms by (auto elim: observed.cases)
  have "\<not> gatewayUnset (ps_DNS (srv_Spec s))"
  proof
    assume g: "gatewayUnset (ps_DNS (srv_Spec s))"
    then have "exposureOf s = DNSExposureGateway" by (simp add: gatewayUnset_def exposureOf_def exposure_defs)
    with assms obtain gw where "dns_Gateway (ps_DNS (srv_Spec s)) = Some gw" "dgw_ParentRefs gw \<noteq> []"
      by (rule validateSpec_gateway)
    with g show False by (simp add: gatewayUnset_def)
  qed
  then show "NoParents \<notin> observed s tr" by (auto elim: observed.cases)
qed

lemma step_next:
  assumes "stored_step s tr s'" "validateSpec s = []"
  shows "phase_of (pst_Phase (srv_Status s')) = next_phase (phase_of (pst_Phase (srv_Status s)))"
proof -
  from assms(1) have "abs_step (observed s tr) (promised s) (promised s')" by (simp add: stored_step_def)
  then have "pr_phase (promised s') = next_phase (pr_phase (promised s))"
    using valid_no_fact [OF assms(2)] by cases auto
  then show ?thesis by simp
qed

lemma admitted_step:
  assumes "ext_laws X" "admitted X s"
    and "exec (server_Reconcile X key) ((KGet KServer key, RObj (ObjServer s)) # t) res"
    and "(KStatusUpdate (ObjServer s'), r) \<in> set t"
  shows "admitted X s' \<and> phase_of (pst_Phase (srv_Status s')) = next_phase (phase_of (pst_Phase (srv_Status s)))"
proof -
  from assms(2,3) have "exec (server_body X s) t res" by (simp add: admitted_pass)
  from server_body_step [OF ext_lawsD(1-3) [OF assms(1)] this assms(4)] have st: "stored_step s t s'" by simp
  then have "srv_Meta s' = srv_Meta s" "srv_Spec s' = srv_Spec s" by (simp_all add: stored_step_def)
  with assms(2) have "admitted X s'" by (simp add: admitted_def validateSpec_def)
  with step_next [OF st] assms(2) show ?thesis by (simp add: admitted_def)
qed

text \<open>\<open>n\<close> passes with helpful answers, each reading the status the one before had accepted.\<close>

inductive helped :: "ext \<Rightarrow> NamespacedName \<Rightarrow> nat \<Rightarrow> PowerDNSServer \<Rightarrow> PowerDNSServer \<Rightarrow> bool" for X key where
  no_pass: "helped X key 0 s s"
| one_more: "helped X key n s s1 \<Longrightarrow>
     exec (server_Reconcile X key) ((KGet KServer key, RObj (ObjServer s1)) # t) res \<Longrightarrow>
     answered (helpful X) t \<Longrightarrow> (KStatusUpdate (ObjServer s2), r) \<in> set t \<Longrightarrow> respUnit r = Inr () \<Longrightarrow>
     helped X key (Suc n) s s2"

lemma helped_phase:
  assumes "helped X key n s s'" "ext_laws X" "admitted X s"
  shows "admitted X s' \<and> phase_of (pst_Phase (srv_Status s')) = (next_phase ^^ n) (phase_of (pst_Phase (srv_Status s)))"
  using assms
proof (induction rule: helped.induct)
  case (one_more n s s1 t res s2 r)
  from one_more.IH [OF one_more.prems] admitted_step [OF one_more.prems(1) _ one_more.hyps(2,4)]
  show ?case by simp
qed simp

lemma helped_once:
  assumes "ext_laws X" "owner_total X" "nested_laws X" "admitted X s"
    and "phase_of (pst_Phase (srv_Status s)) \<in> {Pending, Provisioning, Initializing, Deploying, Exposing}"
  shows "\<exists>t res s' r. exec (server_Reconcile X key) ((KGet KServer key, RObj (ObjServer s)) # t) res \<and>
    answered (helpful X) t \<and> (KStatusUpdate (ObjServer s'), r) \<in> set t \<and> respUnit r = Inr ()"
proof -
  from answered_exists [of "helpful X" "server_body X s"] helpful_goodAnswer [OF assms(3)]
  obtain t res where t: "exec (server_body X s) t res" "answered (helpful X) t" by blast
  have "requeues X (server_body X s)"
    using body_requeues [OF assms(1,2)] assms(4,5) by (simp add: admitted_def)
  with t have "res = Inr Requeue" by (auto simp: requeues_def ends_def)
  with announced_body t(1) obtain y r where y: "(KStatusUpdate y, r) \<in> set t" "respUnit r = Inr ()"
    unfolding announced_def by metis
  from server_body_step [OF ext_lawsD(1-3) [OF assms(1)] t(1) y(1)] obtain s' where "y = ObjServer s'" by blast
  with t y show ?thesis by (auto simp: admitted_pass [OF assms(4)])
qed

lemma next_phases:
  "n < 5 \<Longrightarrow> (next_phase ^^ n) Pending \<in> {Pending, Provisioning, Initializing, Deploying, Exposing}"
  by (auto simp: numeral_eq_Suc less_Suc_eq)

lemma helped_exists:
  assumes "ext_laws X" "owner_total X" "nested_laws X" "admitted X s" "phase_of (pst_Phase (srv_Status s)) = Pending"
  shows "n \<le> 5 \<Longrightarrow> \<exists>s'. helped X key n s s'"
proof (induction n)
  case 0
  show ?case using helped.no_pass by blast
next
  case (Suc n)
  then obtain s1 where s1: "helped X key n s s1" by auto
  from helped_phase [OF s1 assms(1,4)] assms(5) have "admitted X s1"
    "phase_of (pst_Phase (srv_Status s1)) = (next_phase ^^ n) Pending" by simp_all
  with helped_once [OF assms(1-3), of s1 key] next_phases [of n] Suc.prems show ?case
    by (metis Suc_le_lessD helped.one_more [OF s1])
qed

end
