(* ===== verification/Server_Correct.thy ===== *)
theory Server_Correct
  imports Server_Liveness
begin

text \<open>
  The properties of the PowerDNSServer reconciler: the phase machine as a refinement of its
  abstract specification, the invariant of reachable statuses and what rests on it, progress to
  Ready, and what a pass writes.
\<close>

section \<open>A server at work\<close>

text \<open>The demo server in a given phase, as its reconciler sees it.\<close>

definition demoAt :: "string \<Rightarrow> PowerDNSServer" where
  "demoAt p = demoServer\<lparr>srv_Meta := (demoMeta ''pdns'')\<lparr>om_Finalizers := [finalizer]\<rparr>,
     srv_Status := zeroStatus\<lparr>pst_Phase := p\<rparr>\<rparr>"

definition demoKey :: NamespacedName where
  "demoKey = (''dns'', ''pdns'')"

definition demoJob :: Job where
  "demoJob = (SchemaInitJob demoServer)\<lparr>job_Succeeded := 1\<rparr>"

definition demoMigrated :: "event list" where
  "demoMigrated = trace_of ROk (server_Reconcile refExt demoKey)
     [RObj (ObjServer (demoAt PhaseInitializingSchema)), RObj (ObjJob demoJob), ROk, ROk]"

definition demoDeploying :: PowerDNSServer where
  "demoDeploying = withPhase PhaseDeployingServer (schemaApplied refExt (demoAt PhaseInitializingSchema))"

lemma demoMigrated_stores: "(KStatusUpdate (ObjServer demoDeploying), ROk) \<in> set demoMigrated"
  by code_simp

lemma demoMigrated_exec:
  "exec (server_Reconcile refExt demoKey) demoMigrated (result_of ROk (server_Reconcile refExt demoKey)
     [RObj (ObjServer (demoAt PhaseInitializingSchema)), RObj (ObjJob demoJob), ROk, ROk])"
  unfolding demoMigrated_def by (rule exec_trace_of)

section \<open>The phase machine\<close>

text \<open>
  C1: The reconciler implements the abstract phase machine.  Every status a pass stores is one
  step of \<open>abs_step\<close> from what the status it read promised, justified by what the pass observed:
  the spec was valid before provisioning starts, the schema Job was read as succeeded before the
  server is deployed, a replica was read as available before the API endpoint is published, and
  \<open>status.ready\<close> follows the Deployment read in the same pass.  Spec and metadata are untouched.
\<close>

theorem server_phase_refines:
  assumes "ext_laws X" "exec (server_Reconcile X key) tr res" "(KStatusUpdate y, r) \<in> set tr"
  shows "\<exists>s s'. (KGet KServer key, RObj (ObjServer s)) \<in> set tr \<and> \<not> om_Deleting (srv_Meta s) \<and>
    y = ObjServer s' \<and> srv_Meta s' = srv_Meta s \<and> srv_Spec s' = srv_Spec s \<and>
    abs_step (observed s tr) (promised s) (promised s')"
  using assms(2,3)
  by (rule server_pass_step [OF ext_lawsD(1-3) [OF assms(1)]]) (auto simp: stored_step_def)

theorem server_phase_refines_witness:
  "\<exists>s tr. abs_step (observed s tr) (promised s) (promised demoDeploying)"
  using server_phase_refines [OF refExt_laws demoMigrated_exec demoMigrated_stores] by auto

text \<open>
  C5: The invariant of reachable statuses.  Starting from an empty status, after any sequence of
  edits and of passes with arbitrary answers, the status promises exactly what its phase implies:
  from ProvisioningBackend on the API key Secret is published, from InitializingSchema on the
  backend Secret, from DeployingServer on the schema is applied, from ExposingDNS on the API
  endpoint is published; \<open>status.ready\<close> agrees with the Ready condition and holds in phase Ready
  only; a failed server has a failure message; no other phase is ever stored.
\<close>

theorem server_status_invariant:
  assumes "ext_laws X" "reachable X key s"
  shows "promise_ok (promised s)"
  using assms by (rule reachable_promise_ok)

text \<open>A server that helpful answers have brought to Ready is reachable.\<close>

lemma refExt_helpful: "owner_total refExt" "nested_laws refExt"
  by (simp_all add: owner_total_def nested_laws_def refExt_def)

lemma helped_evolves: "helped X key n s s' \<Longrightarrow> (evolves X key)\<^sup>*\<^sup>* s s'"
  by (induction rule: helped.induct) (auto intro: evolves.pass rtranclp.rtrancl_into_rtrancl)

lemma demo_admitted: "admitted refExt (demoAt [])"
  by code_simp

lemma demo_reaches_ready:
  "\<exists>s. helped refExt demoKey 5 (demoAt []) s \<and> reachable refExt demoKey s \<and> pst_Phase (srv_Status s) = PhaseReady"
proof -
  have z: "srv_Status (demoAt []) = zeroStatus" by (simp add: demoAt_def zeroStatus_def)
  from helped_exists [OF refExt_laws refExt_helpful demo_admitted, of 5 demoKey] z
  obtain s where s: "helped refExt demoKey 5 (demoAt []) s" by (auto simp: zeroStatus_def)
  from helped_evolves [OF s] z have "reachable refExt demoKey s" by (auto simp: reachable_def)
  moreover from helped_phase [OF s refExt_laws demo_admitted] z have "pst_Phase (srv_Status s) = PhaseReady"
    by (simp add: zeroStatus_def numeral_eq_Suc phase_of_iff)
  ultimately show ?thesis using s by blast
qed

theorem server_status_invariant_witness:
  "\<exists>s. pst_Phase (srv_Status s) = PhaseReady \<and> reachable refExt demoKey s \<and> promise_ok (promised s)"
  using demo_reaches_ready server_status_invariant [OF refExt_laws] by blast

text \<open>
  C7: No server before its schema.  Whatever a reachable server's spec and history, a pass over
  it creates or updates a Deployment only if its status says that the schema is applied, and the
  backend Secret and the API key Secret the pods refer to are published.
\<close>

theorem server_schema_first:
  assumes "ext_laws X" "reachable X key s"
    and "exec (server_Reconcile X key) ((KGet KServer key, RObj (ObjServer s)) # t) res"
    and "(q, r) \<in> set t" "q = KCreate (ObjDeployment dep) \<or> q = KUpdate (ObjDeployment dep)"
  shows "pst_SchemaApplied (srv_Status s) \<and> pst_BackendSecretName (srv_Status s) \<noteq> [] \<and>
    pst_APIKeySecretName (srv_Status s) \<noteq> []"
proof -
  have "exec (server_body X s) t res"
    using assms(5) by (intro server_pass_body(3) [OF assms(3,4)]) auto
  from calls_only_exec [OF this calls_server_body [OF ext_lawsD(1,2) [OF assms(1)]] assms(4)] assms(5)
  have "KDeployment \<in> kindsOf (pst_Phase (srv_Status s))" by (auto simp: phase_req_def)
  then have "phase_of (pst_Phase (srv_Status s)) \<in> {Deploying, Serving}"
    by (auto simp: kindsOf_def phase_of_def readyKinds_def split: if_splits)
  with reachable_promise_ok [OF assms(1,2)] show ?thesis
    by (auto simp: promise_ok_def promised_def Let_def)
qed

text \<open>A Ready pass over the demo server that finds its ConfigMap and Deployment in place.\<close>

lemma drift_writes_deployment:
  assumes "admitted refExt s" "pst_Phase (srv_Status s) = PhaseReady"
  shows "\<exists>t res dep r. exec (server_Reconcile refExt key) ((KGet KServer key, RObj (ObjServer s)) # t) res \<and>
    (KUpdate (ObjDeployment dep), r) \<in> set t"
proof -
  let ?cm = "Manifests.ConfigMap s"
  let ?err = "RErr (mkErr OtherError [])"
  let ?get = "(KGet KConfigMap (cm_key ?cm), RObj (ObjConfigMap ?cm))"
  have cm: "exec (server_updateConfigMap refExt s ?cm) [?get] (Inr ())"
    by (auto simp: server_updateConfigMap_def updateConfigMap_def exec_Call_iff refExt_def)
  obtain th h where h: "exec (computeConfigHash s ?cm) th (Inr h)"
    using answered_exists [of "helpful refExt" "computeConfigHash s ?cm"] helpful_goodAnswer [OF refExt_helpful(2)]
      goes_computeConfigHash [of refExt s ?cm] unfolding works_def ends_def by metis
  let ?d = "Deployment (withHash s h) h"
  let ?u = "(KUpdate (ObjDeployment (?d\<lparr>dep_Spec := (dep_Spec ?d)\<lparr>dps_Replicas := dps_Replicas (dep_Spec ?d),
     dps_Template := dps_Template (dep_Spec ?d)\<rparr>\<rparr>)), ?err)"
  have "exec (updateDeployment refExt (withHash s h) ?d) [(KGet KDeployment (dep_key ?d), RObj (ObjDeployment ?d)), ?u]
      (Inl (mkErr OtherError []))"
    by (simp add: updateDeployment_def exec_Call_iff)
  then have "exec (convergeWorkload refExt (withHash s h) h) [(KGet KDeployment (dep_key ?d), RObj (ObjDeployment ?d)), ?u]
      (Inl (mkErr OtherError []))"
    by (auto simp: convergeWorkload_def exec_tryIO_iff)
  with h have "exec (tryIO (computeConfigHash s ?cm) (\<lambda>hash.
      tryIO (convergeWorkload refExt (withHash s hash) hash) (\<lambda>_. Return (Inr (withHash s hash)))))
      (th @ [(KGet KDeployment (dep_key ?d), RObj (ObjDeployment ?d)), ?u]) (Inl (mkErr OtherError []))"
    by (auto simp: exec_tryIO_iff)
  with cm have drift: "exec (reconcileDrift refExt s) ([?get] @ th @ [(KGet KDeployment (dep_key ?d), RObj (ObjDeployment ?d)), ?u])
      (Inl (mkErr OtherError []))"
    unfolding reconcileDrift_def Let_def exec_tryIO_iff [of "server_updateConfigMap _ _ _"] by blast
  from exec_exists [of "warnExtraSettings refExt s"] obtain tw where w: "exec (warnExtraSettings refExt s) tw ()" by auto
  from drift have "exec (tryIO (reconcileDrift refExt s) f)
      ([?get] @ th @ [(KGet KDeployment (dep_key ?d), RObj (ObjDeployment ?d)), ?u]) (Inl (mkErr OtherError []))"
    for f :: "PowerDNSServer \<Rightarrow> reconcile"
    by (auto simp: exec_tryIO_iff)
  from exec_andThenI [OF w this] have "exec (phaseReady refExt s)
      (tw @ [?get] @ th @ [(KGet KDeployment (dep_key ?d), RObj (ObjDeployment ?d)), ?u]) (Inl (mkErr OtherError []))"
    by (simp add: phaseReady_def)
  with assms have "exec (server_Reconcile refExt key) ((KGet KServer key, RObj (ObjServer s)) #
      tw @ [?get] @ th @ [(KGet KDeployment (dep_key ?d), RObj (ObjDeployment ?d)), ?u]) (Inl (mkErr OtherError []))"
    by (simp add: admitted_pass server_body_phases)
  then show ?thesis by fastforce
qed

theorem server_schema_first_witness:
  "\<exists>s. reachable refExt demoKey s \<and> pst_Phase (srv_Status s) = PhaseReady \<and> pst_SchemaApplied (srv_Status s)"
proof -
  from demo_reaches_ready obtain s where s: "helped refExt demoKey 5 (demoAt []) s" "reachable refExt demoKey s"
    "pst_Phase (srv_Status s) = PhaseReady" by blast
  from helped_phase [OF s(1) refExt_laws demo_admitted] have "admitted refExt s" by blast
  from drift_writes_deployment [OF this s(3), of demoKey] obtain t res dep r where
    "exec (server_Reconcile refExt demoKey) ((KGet KServer demoKey, RObj (ObjServer s)) # t) res"
    "(KUpdate (ObjDeployment dep), r) \<in> set t" by blast
  from server_schema_first [OF refExt_laws s(2) this, of dep] have "pst_SchemaApplied (srv_Status s)" by simp
  with s(2,3) show ?thesis by blast
qed

text \<open>
  C20: What Zones and RRSets rely on.  Their reconcilers act only on a server in phase Ready; for
  every reachable such server \<open>pdnsClientFor\<close> never fails because the endpoint is missing: it reads
  the API key Secret the status names, and nothing else.
\<close>

theorem ready_server_has_api:
  assumes "ext_laws X" "reachable X key s" "pst_Phase (srv_Status s) = PhaseReady"
    and "exec (pdnsClientFor s) tr x"
  shows "\<exists>r. tr = [(secretRequest s, r)]"
proof -
  from reachable_promise_ok [OF assms(1,2)] assms(3)
  have "pst_APIKeySecretName (srv_Status s) \<noteq> []" "pst_APIEndpoint (srv_Status s) \<noteq> []"
    by (auto simp: promise_ok_def promised_def Let_def)
  with assms(4) show ?thesis
    by (auto simp: pdnsClientFor_def secretRequest_def Let_def exec_Call_iff)
qed

theorem ready_server_has_api_witness:
  "\<exists>s r. pst_Phase (srv_Status s) = PhaseReady \<and> exec (pdnsClientFor s) [(secretRequest s, r)]
     (Inl (wrapErr (''read API key secret '' @ pst_APIKeySecretName (srv_Status s)) badResp))"
proof -
  from demo_reaches_ready obtain s where s: "reachable refExt demoKey s" "pst_Phase (srv_Status s) = PhaseReady" by blast
  have ex: "exec (pdnsClientFor s) (trace_of ROk (pdnsClientFor s) []) (result_of ROk (pdnsClientFor s) [])"
    by (rule exec_trace_of)
  from ready_server_has_api [OF refExt_laws s ex] obtain r where tr: "trace_of ROk (pdnsClientFor s) [] = [(secretRequest s, r)]"
    by blast
  then have "r = ROk \<and> result_of ROk (pdnsClientFor s) [] =
      Inl (wrapErr (''read API key secret '' @ pst_APIKeySecretName (srv_Status s)) badResp)"
    by (auto simp: trace_of_def result_of_def pdnsClientFor_def Let_def split: if_splits)
  with s(2) ex tr show ?thesis by auto
qed



section \<open>The machine stops\<close>

text \<open>Histories that count how often the phase changed.\<close>

inductive phase_changes :: "ext \<Rightarrow> NamespacedName \<Rightarrow> nat \<Rightarrow> PowerDNSServer \<Rightarrow> bool" for X key where
  start: "srv_Status s = zeroStatus \<Longrightarrow> phase_changes X key 0 s"
| stay: "phase_changes X key n s \<Longrightarrow> evolves X key s s' \<Longrightarrow>
     phase_of (pst_Phase (srv_Status s')) = phase_of (pst_Phase (srv_Status s)) \<Longrightarrow> phase_changes X key n s'"
| change: "phase_changes X key n s \<Longrightarrow> evolves X key s s' \<Longrightarrow>
     phase_of (pst_Phase (srv_Status s')) \<noteq> phase_of (pst_Phase (srv_Status s)) \<Longrightarrow> phase_changes X key (Suc n) s'"

fun depth :: "Phase \<Rightarrow> nat" where
  "depth Pending = 0"
| "depth Provisioning = 1"
| "depth Initializing = 2"
| "depth Deploying = 3"
| "depth Exposing = 4"
| "depth p = 5"

lemma abs_moves_depth: "abs_moves p p' \<Longrightarrow> pr_phase p' \<noteq> pr_phase p \<Longrightarrow> depth (pr_phase p) < depth (pr_phase p')"
  by (auto simp: abs_moves_def elim!: abs_step.cases)


lemma helped_changes:
  assumes "helped X key n s s'" "ext_laws X" "admitted X s" "srv_Status s = zeroStatus" "n \<le> 5"
  shows "phase_changes X key n s'"
  using assms
proof (induction rule: helped.induct)
  case (no_pass s)
  then show ?case by (simp add: phase_changes.start)
next
  case (one_more n s s1 t res s2 r)
  from helped_phase [OF one_more.hyps(1) one_more.prems(1,2)] one_more.prems
  have "admitted X s1" "phase_of (pst_Phase (srv_Status s1)) = (next_phase ^^ n) Pending"
    by (simp_all add: zeroStatus_def)
  with admitted_step [OF one_more.prems(1) _ one_more.hyps(2,4)] next_phases [of n] one_more.prems
  have "phase_of (pst_Phase (srv_Status s2)) \<noteq> phase_of (pst_Phase (srv_Status s1))" by auto
  with one_more show ?case by (auto intro: phase_changes.change evolves.pass)
qed


end
