(* ===== verification/Server_Writes.thy ===== *)
theory Server_Writes
  imports Server_Correct
begin

text \<open>
  What a PowerDNSServer pass writes: its children, the backend Secret, the disruption budgets and
  what its garbage collection deletes.
\<close>

section \<open>Children\<close>

lemma server_not_child: "KServer \<notin> kindsOf p"
  by (auto simp: kindsOf_def deployKinds_def readyKinds_def split: if_splits)

text \<open>A pass updates the server object itself only to change its finalizers.\<close>

lemma own_update:
  assumes "ext_laws X" "exec (server_Reconcile X key) tr res" "tr = (KGet KServer key, RObj (ObjServer s)) # t"
    and "(q, r) \<in> set t" "\<exists>s'. q = KUpdate (ObjServer s')"
  shows "\<exists>fs. q = KUpdate (ObjServer (withFinalizers s fs))"
proof -
  have ex: "exec (server_Reconcile X key) ((KGet KServer key, RObj (ObjServer s)) # t) res" using assms(2,3) by simp
  have read: "respServer (RObj (ObjServer s)) = Inr s" by simp
  consider (delete) "om_Deleting (srv_Meta s)"
    | (protect) "\<not> om_Deleting (srv_Meta s)" "\<not> ContainsFinalizer X (om_Finalizers (srv_Meta s)) finalizer"
    | (body) "\<not> om_Deleting (srv_Meta s)" "ContainsFinalizer X (om_Finalizers (srv_Meta s)) finalizer" by blast
  then show ?thesis
  proof cases
    case delete
    with server.delete_pass [OF ex read] assms(4) show ?thesis
      by (auto simp: server_reconcileDelete_def exec_tryIO_iff)
  next
    case protect
    with server.unprotected_pass [OF ex read] assms(4) show ?thesis by (auto simp: server_protect_def)
  next
    case body
    from calls_only_exec [OF server.body_pass [OF ex read body] calls_server_body [OF ext_lawsD(1,2) [OF assms(1)]] assms(4)] assms(5)
    show ?thesis by (auto simp: phase_req_def server_not_child)
  qed
qed


definition demoKeyPass :: "event list" where
  "demoKeyPass = trace_of ROk (server_Reconcile refExt demoKey)
     [RObj (ObjServer (demoAt [])), RErr (mkErr KubeNotFound []), RBytes [CHR 0x0F, CHR 0xA0], ROk, ROk, ROk]"

definition demoNewKey :: Secret where
  "demoNewKey = (let sec = newAPIKeySecret (demoAt []) ''0fa0'' in
     sec\<lparr>sec_Meta := (sec_Meta sec)\<lparr>om_Owner := Some (serverRef (demoAt []))\<rparr>\<rparr>)"


section \<open>The backend Secret\<close>

definition secret_settled :: "Secret \<Rightarrow> kobj \<Rightarrow> bool" where
  "secret_settled desired x \<longleftrightarrow> (\<exists>sec. x = ObjSecret sec \<and> same_map (sec_Data sec) (sec_Data desired))"

definition secret_derived :: "Secret \<Rightarrow> kobj \<Rightarrow> kobj \<Rightarrow> bool" where
  "secret_derived desired x y \<longleftrightarrow>
     (\<exists>live. x = ObjSecret live \<and> y = ObjSecret (live\<lparr>sec_Data := sec_Data desired\<rparr>))"

lemma respSecret_NotFound: "respSecret r = Inl e \<Longrightarrow> err_kind e = KubeNotFound \<Longrightarrow> r = RErr e"
  by (cases r rule: respSecret.cases) (auto simp: badResp_def)

lemma storeSecret_run:
  assumes "exec (storeSecret desired) tr x"
  shows "upsert_run KSecret (obj_key (ObjSecret desired)) (secret_settled desired) (secret_derived desired) tr x"
proof -
  let ?key = "obj_key (ObjSecret desired)"
  from assms obtain r t where tr: "tr = (KGet KSecret ?key, r) # t" and t: "exec (case respSecret r of
       Inl e \<Rightarrow> if err_kind e = KubeNotFound then ask (KCreate (ObjSecret desired)) respUnit else Return (Inl e)
     | Inr existing \<Rightarrow>
         if same_map (sec_Data existing) (sec_Data desired) then Return (Inr ())
         else ask (KUpdate (ObjSecret (existing\<lparr>sec_Data := sec_Data desired\<rparr>))) respUnit) t x"
    by (auto simp: storeSecret_def exec_Call_iff)
  show ?thesis
  proof (cases "respSecret r")
    case (Inl e)
    with t tr show ?thesis
      by (auto simp: secret_settled_def intro!: upsert_run.intros split: if_splits dest!: respSecret_NotFound)
  next
    case (Inr live)
    with t tr show ?thesis
      by (auto simp: respSecret_Inr secret_settled_def secret_derived_def intro!: upsert_run.intros split: if_splits)
  qed
qed

interpretation secret: upsert X "storeSecret desired" KSecret "obj_key (ObjSecret desired)"
  "secret_settled desired" "secret_derived desired" for X desired
  by unfold_locales (rule storeSecret_run)

text \<open>
  A Secret with the given content is in place: it was created, found with that content, or stored
  with that content, and the cluster accepted it.
\<close>

definition published :: "event list \<Rightarrow> NamespacedName \<Rightarrow> gomap \<Rightarrow> bool" where
  "published tr key data \<longleftrightarrow> (\<exists>sec r. same_map (sec_Data sec) data \<and> respUnit r = Inr () \<and>
     ((KCreate (ObjSecret sec), r) \<in> set tr \<and> obj_key (ObjSecret sec) = key \<or>
      (KGet KSecret key, RObj (ObjSecret sec)) \<in> set tr \<or>
      (\<exists>live. (KGet KSecret key, RObj (ObjSecret live)) \<in> set tr \<and> sec = live\<lparr>sec_Data := data\<rparr> \<and>
         (KUpdate (ObjSecret sec), r) \<in> set tr)))"

lemma published_mono: "published tr key data \<Longrightarrow> set tr \<subseteq> set tr' \<Longrightarrow> published tr' key data"
  unfolding published_def by blast

lemma storeSecret_published:
  assumes "exec (storeSecret desired) tr (Inr ())"
  shows "published tr (obj_key (ObjSecret desired)) (sec_Data desired)"
  using storeSecret_run [OF assms]
proof cases
  case (created x e r)
  then obtain sec where "x = ObjSecret sec" "same_map (sec_Data sec) (sec_Data desired)"
    by (auto simp: secret_settled_def)
  with created show ?thesis
    unfolding published_def by (intro exI [of _ sec] exI [of _ r]) simp
next
  case (idle x)
  then obtain sec where "x = ObjSecret sec" "same_map (sec_Data sec) (sec_Data desired)"
    by (auto simp: secret_settled_def)
  with idle show ?thesis
    unfolding published_def by (intro exI [of _ sec] exI [of _ ROk]) simp
next
  case (updated y x r)
  then obtain live where "x = ObjSecret live" "y = ObjSecret (live\<lparr>sec_Data := sec_Data desired\<rparr>)"
    by (auto simp: secret_derived_def)
  with updated show ?thesis
    unfolding published_def by (intro exI [of _ "live\<lparr>sec_Data := sec_Data desired\<rparr>"] exI [of _ r]) simp
qed

definition backendKey :: "PowerDNSServer \<Rightarrow> NamespacedName" where
  "backendKey s = (srv_ns s, nm_BackendSecret (NameSet s))"

lemma writeBackendSecret_published:
  assumes "owner_laws X" "exec (writeBackendSecret X s host port user password database) tr (Inr ())"
  shows "published tr (backendKey s) (sec_Data (backendSecret s host port user password database))"
proof -
  let ?d = "backendSecret s host port user password database"
  obtain m where m: "SetControllerReference X (serverRef s) (srv_ns s) (sec_Meta ?d) = Inr m"
    and ex: "exec (storeSecret (?d\<lparr>sec_Meta := m\<rparr>)) tr (Inr ())"
    using assms(2) by (cases "SetControllerReference X (serverRef s) (srv_ns s) (sec_Meta ?d)")
      (auto simp: writeBackendSecret_def Let_def)
  from owner_laws_ok [OF assms(1) m] have "obj_key (ObjSecret (?d\<lparr>sec_Meta := m\<rparr>)) = backendKey s"
    by (simp add: obj_key_def backendSecret_def backendKey_def)
  with storeSecret_published [OF ex] show ?thesis by simp
qed

text \<open>
  The specification of the backend Secret: where the credentials come from, and what the Secret
  holds given the Secret they were read from.
\<close>

definition credentialsName :: "PowerDNSServer \<Rightarrow> string" where
  "credentialsName s = (case byoSpec s of
     Some byo \<Rightarrow> byo_CredentialsSecretRef byo | None \<Rightarrow> om_Name (srv_Meta s) @ ''-pg-app'')"

definition connection :: "PowerDNSServer \<Rightarrow> Secret \<Rightarrow> gomap" where
  "connection s src =
     (let data = sec_Data src; user = pickKey data [''username'', ''user'']; pass = pickKey data [''password''] in
      case byoSpec s of
        Some byo \<Rightarrow> [(''host'', byo_Host byo), (''port'', itoa (if byo_Port byo = 0 then 5432 else byo_Port byo)),
          (''username'', user), (''password'', pass), (''database'', orElse (byo_Database byo) ''powerdns'')]
      | None \<Rightarrow> [(''host'', orElse (pickKey data [''host'']) (om_Name (srv_Meta s) @ ''-pg-rw.'' @ srv_ns s @ ''.svc'')),
          (''port'', orElse (pickKey data [''port'']) ''5432''), (''username'', user), (''password'', pass),
          (''database'', orElse (pickKey data [''dbname'', ''database'']) ''powerdns'')])"

text \<open>The credentials were read, and the backend Secret holds the connection they make.\<close>

definition in_place :: "PowerDNSServer \<Rightarrow> event list \<Rightarrow> bool" where
  "in_place s tr \<longleftrightarrow> (\<exists>src. (KGet KSecret (srv_ns s, credentialsName s), RObj (ObjSecret src)) \<in> set tr \<and>
     hasCredentials src \<and> published tr (backendKey s) (connection s src))"

lemma in_place_mono: "in_place s t \<Longrightarrow> set t \<subseteq> set tr \<Longrightarrow> in_place s tr"
  unfolding in_place_def by (meson published_mono subsetD)

lemma materialiseBYO_ok:
  assumes "owner_laws X" "byoSpec s = Some byo" "exec (materialiseBYOBackendSecret X s byo) tr (Inr True)"
  shows "in_place s tr"
proof -
  let ?w = "\<lambda>src. writeBackendSecret X s (byo_Host byo) (itoa (if byo_Port byo = 0 then 5432 else byo_Port byo))
     (pickKey (sec_Data src) [''username'', ''user'']) (pickKey (sec_Data src) [''password'']) (orElse (byo_Database byo) DefaultDatabase)"
  obtain r t where tr: "tr = (KGet KSecret (srv_ns s, byo_CredentialsSecretRef byo), r) # t"
    using assms(3) by (auto simp: materialiseBYOBackendSecret_def exec_Call_iff)
  obtain src where src: "respSecret r = Inr src" "hasCredentials src" "exec (tryIO (?w src) (\<lambda>_. Return (Inr True))) t (Inr True)"
    using assms(3) tr by (cases "respSecret r")
      (auto simp: materialiseBYOBackendSecret_def exec_Call_iff Let_def hasCredentials_def simp del: pickKey.simps split: if_splits)
  from src(3) have "exec (?w src) t (Inr ())" by (auto simp: exec_tryIO_iff)
  from writeBackendSecret_published [OF assms(1) this] have "published t (backendKey s) (connection s src)"
    using assms(2) by (simp add: connection_def Let_def backendSecret_def DefaultDatabase_def del: pickKey.simps)
  then have "published tr (backendKey s) (connection s src)" by (rule published_mono) (auto simp: tr)
  moreover have "(KGet KSecret (srv_ns s, credentialsName s), RObj (ObjSecret src)) \<in> set tr"
    using tr src(1) assms(2) by (simp add: respSecret_Inr credentialsName_def)
  ultimately show ?thesis using src(2) by (auto simp: in_place_def)
qed

lemma materialiseCNPG_ok:
  assumes "owner_laws X" "byoSpec s = None" "exec (materialiseCNPGBackendSecret X s (nm_CNPGCluster (NameSet s))) tr (Inr True)"
  shows "in_place s tr"
proof -
  let ?c = "nm_CNPGCluster (NameSet s)"
  let ?w = "\<lambda>src. writeBackendSecret X s (orElse (pickKey (sec_Data src) [''host'']) (cnpgHost ?c (srv_ns s)))
     (orElse (pickKey (sec_Data src) [''port'']) ''5432'') (pickKey (sec_Data src) [''username'', ''user''])
     (pickKey (sec_Data src) [''password'']) (orElse (pickKey (sec_Data src) [''dbname'', ''database'']) DefaultDatabase)"
  obtain r t where tr: "tr = (KGet KSecret (srv_ns s, AppSecretName ?c), r) # t"
    using assms(3) by (auto simp: materialiseCNPGBackendSecret_def exec_Call_iff)
  obtain src where src: "respSecret r = Inr src" "hasCredentials src" "exec (tryIO (?w src) (\<lambda>_. Return (Inr True))) t (Inr True)"
    using assms(3) tr by (cases "respSecret r")
      (auto simp: materialiseCNPGBackendSecret_def exec_Call_iff Let_def hasCredentials_def
        simp del: pickKey.simps NameSet_simps split: if_splits)
  from src(3) have "exec (?w src) t (Inr ())" by (auto simp: exec_tryIO_iff)
  from writeBackendSecret_published [OF assms(1) this] have "published t (backendKey s) (connection s src)"
    using assms(2) by (simp add: connection_def Let_def backendSecret_def DefaultDatabase_def cnpgHost_def del: pickKey.simps)
  then have "published tr (backendKey s) (connection s src)" by (rule published_mono) (auto simp: tr)
  moreover have "(KGet KSecret (srv_ns s, credentialsName s), RObj (ObjSecret src)) \<in> set tr"
    using tr src(1) assms(2) by (simp add: respSecret_Inr credentialsName_def AppSecretName_def)
  ultimately show ?thesis using src(2) by (auto simp: in_place_def)
qed

text \<open>A database cluster with a ready instance was read.\<close>

definition database_up :: "ext \<Rightarrow> PowerDNSServer \<Rightarrow> event list \<Rightarrow> bool" where
  "database_up X s tr \<longleftrightarrow> (\<exists>u. (KGet (KUnstructured ClusterGVK) (srv_ns s, nm_CNPGCluster (NameSet s)),
     RObj (ObjUnstructured u)) \<in> set tr \<and> clusterUp X u)"

lemma cnpgClusterReady_up:
  assumes "exec (cnpgClusterReady X s (nm_CNPGCluster (NameSet s))) tr (Inr True)"
  shows "database_up X s tr"
proof -
  let ?c = "nm_CNPGCluster (NameSet s)"
  from assms obtain r where r: "tr = [(KGet (KUnstructured ClusterGVK) (srv_ns s, ?c), r)]" "(case respUnstructured r of
       Inl e \<Rightarrow> if err_kind e = KubeNotFound then Inr False else Inl e
     | Inr u \<Rightarrow> (case NestedInt64 X (un_Object u) [''status'', ''readyInstances''] of
         Inl e \<Rightarrow> Inl (wrapErr ''read CNPG cluster readyInstances'' e)
       | Inr None \<Rightarrow> Inr False
       | Inr (Some n) \<Rightarrow> Inr (n \<ge> 1))) = Inr True"
    by (auto simp: cnpgClusterReady_def simp del: NameSet_simps)
  then obtain u where u: "respUnstructured r = Inr u" "clusterUp X u"
    by (cases "respUnstructured r") (auto simp: clusterUp_def split: if_splits sum.splits option.splits)
  then have "r = RObj (ObjUnstructured u)" by (cases r rule: respUnstructured.cases) auto
  with r(1) u(2) show ?thesis by (auto simp: database_up_def)
qed

lemma provisionBYO_facts:
  assumes "owner_laws X" "byoSpec s = Some byo" "exec (provisionBYO X s byo) tr res" "(KStatusUpdate y, r) \<in> set tr"
  shows "in_place s tr"
proof -
  obtain t1 ready t2 where t: "tr = t1 @ t2" "exec (materialiseBYOBackendSecret X s byo) t1 (Inr ready)"
    "exec (if \<not> ready then Return (Inr (RequeueAfter requeueShort))
     else setPhase (withBackendSecret s) PhaseInitializingSchema) t2 res" "(KStatusUpdate y, r) \<in> set t2"
    by (rule status_after_try [OF assms(3) [unfolded provisionBYO_def] assms(4) calls_materialise(2) [OF assms(1) UNIV_I]])
  from t(3,4) have ready by (cases ready) auto
  with t(2) materialiseBYO_ok [OF assms(1,2)] have "in_place s t1" by simp
  then show ?thesis by (rule in_place_mono) (simp add: t(1))
qed

lemma provisionCNPG_facts:
  assumes "owner_laws X" "byoSpec s = None" "exec (provisionCNPG X s) tr res" "(KStatusUpdate y, r) \<in> set tr"
  shows "in_place s tr \<and> database_up X s tr"
proof -
  let ?c = "nm_CNPGCluster (NameSet s)"
  let ?g = "tryIO (cnpgClusterReady X s ?c) (\<lambda>dbReady.
    if \<not> dbReady then Return (Inr (RequeueAfter requeueShort))
    else andThen (server_event X s ''Normal'' ''BackendProvisioned'' ''Postgres backend ready, applying schema'')
      (\<lambda>_. setPhase (backendReady X s) PhaseInitializingSchema))"
  have c: "calls_only (child_req s UNIV) (mapErr (wrapErr ''ensure CNPG cluster'') (ensureUnstructured X s (Cluster s ?c)))"
    by (intro calls_only_mapErr calls_ensureUnstructured assms(1)) simp_all
  obtain ta x tb where a: "tr = ta @ tb" "exec (tryIO (materialiseCNPGBackendSecret X s ?c) (\<lambda>ready.
      if \<not> ready then Return (Inr (RequeueAfter requeueShort)) else ?g)) tb res" "(KStatusUpdate y, r) \<in> set tb"
    by (rule status_after_try [OF assms(3) [unfolded provisionCNPG_def Let_def] assms(4) c])
  obtain t1 ready t2 where t: "tb = t1 @ t2" "exec (materialiseCNPGBackendSecret X s ?c) t1 (Inr ready)"
    "exec (if \<not> ready then Return (Inr (RequeueAfter requeueShort)) else ?g) t2 res" "(KStatusUpdate y, r) \<in> set t2"
    by (rule status_after_try [OF a(2,3) calls_materialise(1) [OF assms(1) UNIV_I]])
  from t(3,4) have ready: ready by (cases ready) auto
  with t(2) materialiseCNPG_ok [OF assms(1,2)] have "in_place s t1" by simp
  moreover from ready t(3) have g: "exec ?g t2 res" by simp
  obtain t3 db t4 where d: "t2 = t3 @ t4" "exec (cnpgClusterReady X s ?c) t3 (Inr db)"
    "exec (if \<not> db then Return (Inr (RequeueAfter requeueShort))
      else andThen (server_event X s ''Normal'' ''BackendProvisioned'' ''Postgres backend ready, applying schema'')
      (\<lambda>_. setPhase (backendReady X s) PhaseInitializingSchema)) t4 res" "(KStatusUpdate y, r) \<in> set t4"
    by (rule status_after_try [OF g t(4) calls_cnpgClusterReady])
  from d(3,4) have db by (cases db) auto
  with d(2) cnpgClusterReady_up have "database_up X s t3" by simp
  ultimately show ?thesis
    using a(1) t(1) d(1) in_place_mono [of s t1 tr] by (auto simp: database_up_def)
qed

text \<open>
  C15: The schema Job runs against a complete connection.  A pass moves a server on from
  ProvisioningBackend only if it read the Secret with the credentials (the user's own, or the one
  CloudNativePG publishes), both user and password were present, the backend Secret with exactly
  the connection made from them is in place, and a managed cluster was read with a ready instance.
\<close>

theorem backend_published_first:
  assumes "ext_laws X" "pst_Phase (srv_Status s) = PhaseProvisioningBackend"
    and "exec (server_Reconcile X key) ((KGet KServer key, RObj (ObjServer s)) # t) res"
    and "(KStatusUpdate y, r) \<in> set t"
  shows "(\<exists>src. (KGet KSecret (srv_ns s, credentialsName s), RObj (ObjSecret src)) \<in> set t \<and>
      hasCredentials src \<and> published t (backendKey s) (connection s src)) \<and>
    (byoSpec s = None \<longrightarrow> database_up X s t)"
proof -
  have "exec (server_body X s) t res" by (rule server_pass_body(3) [OF assms(3,4)]) simp
  then have "exec (case byoSpec s of Some byo \<Rightarrow> provisionBYO X s byo | None \<Rightarrow> provisionCNPG X s) t res"
    by (simp add: server_body_phases assms(2) phaseProvisioningBackend_def)
  then have "in_place s t \<and> (byoSpec s = None \<longrightarrow> database_up X s t)"
    using provisionBYO_facts [OF ext_lawsD(1) [OF assms(1)] _ _ assms(4)]
      provisionCNPG_facts [OF ext_lawsD(1) [OF assms(1)] _ _ assms(4)]
    by (cases "byoSpec s") auto
  then show ?thesis by (simp add: in_place_def)
qed

definition demoBYO :: PowerDNSServer where
  "demoBYO = (let s = demoAt PhaseProvisioningBackend in s\<lparr>srv_Spec := (srv_Spec s)\<lparr>ps_Backend :=
     \<lparr>be_Type = BackendPostgres, be_Postgres = Some \<lparr>pg_Instances = None, pg_StorageSize = [], pg_StorageClass = [],
       pg_BYO = Some \<lparr>byo_Host = ''db.example'', byo_Port = 54, byo_Database = [], byo_CredentialsSecretRef = ''creds'',
         byo_SSLMode = []\<rparr>\<rparr>\<rparr>\<rparr>\<rparr>)"

definition demoCreds :: Secret where
  "demoCreds = demoSecret\<lparr>sec_Data := [(''user'', ''pdns''), (''password'', ''s3cret'')]\<rparr>"

theorem backend_published_first_witness:
  "\<exists>src t. hasCredentials src \<and> published t (''dns'', ''pdns-backend'') (connection demoBYO src)"
proof -
  let ?p = "server_Reconcile refExt demoKey"
  let ?rs = "[RObj (ObjServer demoBYO), RObj (ObjSecret demoCreds), RErr (mkErr KubeNotFound []), ROk, ROk]"
  have "trace_of ROk ?p ?rs \<noteq> [] \<and> hd (trace_of ROk ?p ?rs) = (KGet KServer demoKey, RObj (ObjServer demoBYO))"
    by code_simp
  then have ex: "exec ?p ((KGet KServer demoKey, RObj (ObjServer demoBYO)) # tl (trace_of ROk ?p ?rs)) (result_of ROk ?p ?rs)"
    by (rule exec_tl_trace_of)
  have y: "(KStatusUpdate (ObjServer (withPhase PhaseInitializingSchema (withBackendSecret demoBYO))), ROk) \<in> set (tl (trace_of ROk ?p ?rs))"
    by code_simp
  have p: "pst_Phase (srv_Status demoBYO) = PhaseProvisioningBackend" and k: "backendKey demoBYO = (''dns'', ''pdns-backend'')"
    by code_simp+
  from backend_published_first [OF refExt_laws p ex y] show ?thesis unfolding k by blast
qed

section \<open>Validation and disruption budgets\<close>

lemma unnamedParent_ok: "unnamedParent what i ns = [] \<longleftrightarrow> [] \<notin> set ns"
  by (induction ns arbitrary: i) auto

lemma validateSuffixes_ok:
  "validateSuffixes i seen es = [] \<longleftrightarrow> [] \<notin> set (map als_NameSuffix es) \<and> distinct (map als_NameSuffix es) \<and>
     set (map als_NameSuffix es) \<inter> set seen = {}"
  by (induction es arbitrary: i seen) (auto simp: suffixMsg_def)

lemma firstMsg_ok: "firstMsg ms = [] \<longleftrightarrow> (\<forall>m \<in> set ms. m = [])"
  by (induction ms) auto

text \<open>What the operator-side validation guarantees.\<close>

lemma validateSpec_ok:
  "validateSpec s = [] \<longleftrightarrow>
     be_Type (ps_Backend (srv_Spec s)) = BackendPostgres \<and>
     (\<forall>byo. byoSpec s = Some byo \<longrightarrow> byo_Host byo \<noteq> [] \<and> byo_CredentialsSecretRef byo \<noteq> []) \<and>
     validateDNSGateway (ps_DNS (srv_Spec s)) = [] \<and> validateAPIGateway (ps_API (srv_Spec s)) = [] \<and>
     \<not> pdbTooHigh (ps_PodDisruptionBudget (srv_Spec s)) (replicasOf (ps_Replicas (srv_Spec s))) \<and>
     validateAdditional (ps_DNS (srv_Spec s)) = [] \<and> ValidateExtraSettings (ps_ExtraSettings (srv_Spec s)) = []"
  by (auto simp: validateSpec_def firstMsg_ok Let_def validateBackend_def byoSpec_def unsupportedMsg_def byoHostMsg_def
      byoSecretMsg_def validatePDB_def serverPdbMsg_def validateExtra_def split: option.splits if_splits)

lemma validateAdditional_ok:
  "validateAdditional dns = [] \<Longrightarrow> dns_Exposure dns = DNSExposureLoadBalancer \<Longrightarrow> dns_LoadBalancer dns = Some lb \<Longrightarrow>
   distinct (map als_NameSuffix (dlb_AdditionalServices lb)) \<and> [] \<notin> set (map als_NameSuffix (dlb_AdditionalServices lb))"
  by (auto simp: validateAdditional_def validateSuffixes_ok)

lemma pdbFor_bounds:
  assumes "\<not> pdbTooHigh p n" "\<And>m. pdbOverride p = Some m \<Longrightarrow> 1 \<le> m" "pdbFor name ns ls n (pdbOverride p) = Some pdb"
  shows "1 < n \<and> (\<exists>m. pdb_MinAvailable pdb = Some m \<and> 1 \<le> m \<and> m \<le> n - 1)"
  using assms by (auto simp: pdbFor_def pdbTooHigh_def pdbOverride_def Let_def split: if_splits option.splits)

text \<open>
  C36: Budgets leave room for drains.  For a valid server or DNSDist whose \<open>minAvailable\<close>, if set,
  is at least 1 (the bound of the CRD schema), a disruption budget is rendered only for more than
  one replica, and it requires at least one and at most all but one of them.
\<close>

theorem pdb_bounds:
  assumes "validateSpec s = []" "PodDisruptionBudget s = Some pdb"
    and "validateDNSDist d = []" "DNSDistPDB d = Some pdb'"
    and "\<forall>m. pdbOverride (ps_PodDisruptionBudget (srv_Spec s)) = Some m \<longrightarrow> 1 \<le> m"
    and "\<forall>m. pdbOverride (ds_PodDisruptionBudget (dd_Spec d)) = Some m \<longrightarrow> 1 \<le> m"
  shows "(1 < replicasOf (ps_Replicas (srv_Spec s)) \<and>
      (\<exists>m. pdb_MinAvailable pdb = Some m \<and> 1 \<le> m \<and> m \<le> replicasOf (ps_Replicas (srv_Spec s)) - 1)) \<and>
    (1 < dnsdistReplicas d \<and> (\<exists>m. pdb_MinAvailable pdb' = Some m \<and> 1 \<le> m \<and> m \<le> dnsdistReplicas d - 1))"
proof
  from assms(1) have "\<not> pdbTooHigh (ps_PodDisruptionBudget (srv_Spec s)) (replicasOf (ps_Replicas (srv_Spec s)))"
    by (simp add: validateSpec_ok)
  then show "1 < replicasOf (ps_Replicas (srv_Spec s)) \<and>
      (\<exists>m. pdb_MinAvailable pdb = Some m \<and> 1 \<le> m \<and> m \<le> replicasOf (ps_Replicas (srv_Spec s)) - 1)"
    using assms(2,5) by (intro pdbFor_bounds) (auto simp: PodDisruptionBudget_def)
  from assms(3) have "\<not> pdbTooHigh (ds_PodDisruptionBudget (dd_Spec d)) (dnsdistReplicas d)"
    by (simp add: validateDNSDist_ok)
  then show "1 < dnsdistReplicas d \<and> (\<exists>m. pdb_MinAvailable pdb' = Some m \<and> 1 \<le> m \<and> m \<le> dnsdistReplicas d - 1)"
    using assms(4,6) by (intro pdbFor_bounds) (auto simp: DNSDistPDB_def)
qed

theorem pdb_bounds_witness:
  "\<exists>m. pdb_MinAvailable (the (PodDisruptionBudget demoServer)) = Some m \<and> 1 \<le> m \<and> m \<le> 1"
proof -
  have "validateSpec demoServer = []" "PodDisruptionBudget demoServer = Some (the (PodDisruptionBudget demoServer))"
    "validateDNSDist demoTier = []" "DNSDistPDB demoTier = Some (the (DNSDistPDB demoTier))"
    "pdbOverride (ps_PodDisruptionBudget (srv_Spec demoServer)) = None"
    "pdbOverride (ds_PodDisruptionBudget (dd_Spec demoTier)) = None"
    "replicasOf (ps_Replicas (srv_Spec demoServer)) = 2"
    by code_simp+
  with pdb_bounds [of demoServer "the (PodDisruptionBudget demoServer)" demoTier "the (DNSDistPDB demoTier)"]
  show ?thesis by simp
qed

section \<open>Garbage collection\<close>

definition serverList :: "PowerDNSServer \<Rightarrow> req" where
  "serverList s = KListByLabels KService (srv_ns s) (serverRoleSelector s)"

definition serverAdditionalNames :: "PowerDNSServer \<Rightarrow> string list" where
  "serverAdditionalNames s = map (\<lambda>svc. om_Name (svc_Meta svc)) (AdditionalDNSServices s)"

lemma tagAdditional_name [simp]: "om_Name (svc_Meta (tagAdditional svc)) = om_Name (svc_Meta svc)"
  by (simp add: tagAdditional_def)

lemma server_collects:
  assumes "exec (reconcileAdditionalDNSServices X s) tr (Inr ())"
  obtains t1 xs t2 where "tr = t1 @ (serverList s, RList xs) # t2"
    "exec (collectServices (serverAdditionalNames s) (concat (map itemService xs))) t2 (Inr ())"
  using assms
  by (auto simp: reconcileAdditionalDNSServices_def Let_def exec_tryIO_iff items_services serverList_def
      serverAdditionalNames_def comp_def eq_commute [of _ "items _ _"])

text \<open>The labels every additional Service of a tier is created with.\<close>

definition tier_labelled :: "DNSDist \<Rightarrow> gomap \<Rightarrow> bool" where
  "tier_labelled d ls \<longleftrightarrow> map_of ls labelManagedBy = Some managedBy \<and> map_of ls labelInstance = Some (om_Name (dd_Meta d)) \<and>
     map_of ls roleLabel = Some additionalRole"

definition tier_create :: "DNSDist \<Rightarrow> req \<Rightarrow> bool" where
  "tier_create d q \<longleftrightarrow> (\<forall>svc. q = KCreate (ObjService svc) \<longrightarrow> tier_labelled d (om_Labels (svc_Meta svc)))"

lemma tier_create_simps [simp]:
  "tier_create d (KGet k n)" "tier_create d (KDelete k n)" "tier_create d (KListByLabels k ns ls)" "tier_create d (KUpdate x)"
  "tier_create d (KCreate (ObjService svc)) \<longleftrightarrow> tier_labelled d (om_Labels (svc_Meta svc))"
  by (auto simp: tier_create_def)

lemma role_fresh: "roleLabel \<noteq> labelManagedBy" "roleLabel \<noteq> labelInstance"
  by (simp_all add: roleLabel_def label_defs)

lemma calls_tier_create:
  assumes laws: "retry_laws X" "owner_laws X"
    and "\<forall>r \<in> set refs. sref_Labels r = 0 \<and> sref_Selector r = 0" "st \<noteq> []"
    and "map_of (st ! 0) labelManagedBy = Some managedBy" "map_of (st ! 0) labelInstance = Some (om_Name (dd_Meta d))"
  shows "calls_only (tier_create d) (applyAdditional X d st refs)"
  using assms(3-6)
proof (induction refs arbitrary: st)
  case (Cons r rs)
  let ?st = "setLabel r roleLabel additionalRole st"
  have st: "?st \<noteq> []" "map_of (?st ! 0) labelManagedBy = Some managedBy"
    "map_of (?st ! 0) labelInstance = Some (om_Name (dd_Meta d))" "map_of (?st ! 0) roleLabel = Some additionalRole"
    using Cons.prems role_fresh by (simp_all add: setLabel_def)
  have "calls_only (tier_create d) (updateService X svc)"
    if "ownedService X (dnsdistRef d) (om_Namespace (dd_Meta d)) (deref ?st r) = Inr svc" for svc
    using ownedService_ok [OF laws(2) that] Cons.prems(1) st laws(1)
    by (auto simp: deref_def tier_labelled_def intro!: calls_only_updateService)
  moreover have "calls_only (tier_create d) (applyAdditional X d ?st rs)"
    by (rule Cons.IH) (use Cons.prems(1) st in auto)
  ultimately show ?case by (auto simp: Let_def intro!: calls_only_tryIO split: sum.split)
qed simp

lemma tier_creates:
  assumes "retry_laws X" "owner_laws X" "exec (reconcileDNSDistAdditionalServices X d) tr x"
    and "(KCreate (ObjService svc), r) \<in> set tr"
  shows "tier_labelled d (om_Labels (svc_Meta svc))"
proof -
  obtain st refs where sr: "DNSDistAdditionalDNSServices d = (st, refs)" by fastforce
  have "calls_only (tier_create d) (applyAdditional X d st refs)"
  proof (cases "refs = []")
    case False
    with sr have "st = [dnsdistLabels d]"
      by (auto simp: DNSDistAdditionalDNSServices_def Let_def split: if_splits option.splits)
    then show ?thesis using additional_refs(2,3) [OF sr]
      by (intro calls_tier_create assms(1,2)) (auto simp: dnsdistLabels_def label_defs)
  qed simp
  then have "calls_only (tier_create d) (reconcileDNSDistAdditionalServices X d)"
    by (auto simp: reconcileDNSDistAdditionalServices_def sr intro!: calls_intros)
  from calls_only_exec [OF assms(3) this assms(4)] show ?thesis by simp
qed

text \<open>
  The server's garbage collection takes a tier's Services.  The additional Services a DNSDist
  creates satisfy the selector with which the PowerDNSServer of the same name lists its own, since
  that selector does not mention the application; a pass of that server deletes every one it
  finds listed and does not declare itself.
\<close>

theorem server_gc_takes_tier_services:
  assumes "ext_laws X" "om_Name (dd_Meta d) = om_Name (srv_Meta s)"
    and "exec (reconcileDNSDistAdditionalServices X d) tr x" "(KCreate (ObjService svc), r) \<in> set tr"
    and "exec (reconcileAdditionalDNSServices X s) tr' (Inr ())"
    and "om_Name (svc_Meta svc) \<notin> set (serverAdditionalNames s)"
  shows "selects (serverRoleSelector s) (om_Labels (svc_Meta svc)) \<and>
    (\<exists>xs. (serverList s, RList xs) \<in> set tr' \<and> (ObjService svc \<in> set xs \<longrightarrow>
      (\<exists>r'. (KDelete KService (svc_key svc), r') \<in> set tr' \<and> ignoreMissing (respUnit r') = Inr ())))"
proof
  from tier_creates [OF ext_lawsD(2,1) [OF assms(1)] assms(3,4)] assms(2)
  show "selects (serverRoleSelector s) (om_Labels (svc_Meta svc))"
    by (simp add: selects_def serverRoleSelector_def tier_labelled_def managedBy_def)
  from assms(5) obtain t1 xs t2 where t: "tr' = t1 @ (serverList s, RList xs) # t2"
    "exec (collectServices (serverAdditionalNames s) (concat (map itemService xs))) t2 (Inr ())"
    by (rule server_collects)
  from collectServices_all [OF t(2) _ assms(6)] t(1)
  show "\<exists>xs. (serverList s, RList xs) \<in> set tr' \<and> (ObjService svc \<in> set xs \<longrightarrow>
      (\<exists>r'. (KDelete KService (svc_key svc), r') \<in> set tr' \<and> ignoreMissing (respUnit r') = Inr ()))"
    by (intro exI [of _ xs]) auto
qed

text \<open>The demo tier is called \<open>edge\<close>; a server of that name in the same namespace.\<close>

definition demoTwin :: PowerDNSServer where
  "demoTwin = demoServer\<lparr>srv_Meta := demoMeta ''edge''\<rparr>"

definition demoTierTrace :: "event list" where
  "demoTierTrace = trace_of ROk (reconcileDNSDistAdditionalServices refExt demoTier) (drop 3 demoChildren)"

definition demoTierService :: Service where
  "demoTierService = (case demoTierTrace of _ # (KCreate (ObjService svc), _) # _ \<Rightarrow> svc | _ \<Rightarrow> DNSService demoServer)"

theorem server_gc_takes_tier_services_witness:
  "selects (serverRoleSelector demoTwin) (om_Labels (svc_Meta demoTierService)) \<and>
   (\<exists>r. (KDelete KService (''dns'', ''edge-dnsdist-dns-b''), r) \<in>
      set (trace_of ROk (reconcileAdditionalDNSServices refExt demoTwin) [RList [ObjService demoTierService], ROk]))"
proof -
  let ?p = "reconcileAdditionalDNSServices refExt demoTwin" and ?rs = "[RList [ObjService demoTierService], ROk]"
  have facts: "om_Name (dd_Meta demoTier) = om_Name (srv_Meta demoTwin)" "(KCreate (ObjService demoTierService), ROk) \<in> set demoTierTrace"
    "om_Name (svc_Meta demoTierService) \<notin> set (serverAdditionalNames demoTwin)"
    "svc_key demoTierService = (''dns'', ''edge-dnsdist-dns-b'')"
    by code_simp+
  have tier: "exec (reconcileDNSDistAdditionalServices refExt demoTier) demoTierTrace
      (result_of ROk (reconcileDNSDistAdditionalServices refExt demoTier) (drop 3 demoChildren))"
    unfolding demoTierTrace_def by (rule exec_trace_of)
  have ok: "result_of ROk ?p ?rs = Inr ()" by code_simp
  have ex: "exec ?p (trace_of ROk ?p ?rs) (Inr ())" using exec_trace_of [of ?p ROk ?rs] by (simp only: ok)
  have only: "map snd (filter (\<lambda>(q, r). q = serverList demoTwin) (trace_of ROk ?p ?rs)) = [RList [ObjService demoTierService]]"
    by code_simp
  from server_gc_takes_tier_services [OF refExt_laws facts(1) tier facts(2) ex facts(3)] obtain xs where
    s: "selects (serverRoleSelector demoTwin) (om_Labels (svc_Meta demoTierService))"
    and xs: "(serverList demoTwin, RList xs) \<in> set (trace_of ROk ?p ?rs)"
    and d: "ObjService demoTierService \<in> set xs \<longrightarrow> (\<exists>r'. (KDelete KService (svc_key demoTierService), r') \<in> set (trace_of ROk ?p ?rs) \<and>
      ignoreMissing (respUnit r') = Inr ())" by blast
  have "RList xs \<in> set (map snd (filter (\<lambda>(q, r). q = serverList demoTwin) (trace_of ROk ?p ?rs)))"
    using xs by force
  then have "ObjService demoTierService \<in> set xs" by (simp only: only) simp
  with s d show ?thesis by (simp only: facts(4)) blast
qed

end
