(* ===== verification/Go_Memory.thy ===== *)
theory Go_Memory
  imports Go_Prelude
begin

text \<open>
  Go's memory, as far as sharing is concerned.

  Every other theory of the development treats an API object as a value.  That is sound only if
  two variables that hold "the same" object never share a backing array, a map or a pointee: a
  write through one of them would show through the other.  This theory has the memory in which
  that can be said: a \<open>memory\<close> is the list of the cells allocated so far (nothing is ever
  freed: Go is garbage collected), a \<open>gval\<close> is what a variable or a field holds, and pointers,
  slices and maps refer to cells by address.  A slice is a window of an array.

  \<open>gtype\<close> describes a Go type by its structure.  \<open>wt T m v\<close> says that \<open>v\<close> is a value of type
  \<open>T\<close> in \<open>m\<close>, \<open>contents T m v\<close> is what a reader that follows every reference sees, and
  \<open>refs T m v\<close> are the addresses it visits.  \<open>deep_copier T c\<close> is the contract of a
  \<open>DeepCopyInto\<close> method: the copy reads the same, nothing that existed has changed, and every
  address the copy refers to is new.  The rules of \<open>deep_intros\<close> prove it by following the
  structure of the code.
\<close>

section \<open>Values and cells\<close>

type_synonym addr = nat

datatype scalar = IntV int | BoolV bool | StringV string

datatype gval =
    Scalar scalar
  | Struct "(string \<times> gval) list"
  | Pointer "addr option"
  | Slice "(addr \<times> nat \<times> nat) option"  \<comment> \<open>array, offset, length\<close>
  | MapRef "addr option"

datatype cell = Var gval | Array "gval list" | Table "(string \<times> string) list"

type_synonym memory = "cell list"

definition load :: "memory \<Rightarrow> addr \<Rightarrow> cell option" where
  "load m a = (if a < length m then Some (m ! a) else None)"

definition alloc :: "cell \<Rightarrow> memory \<Rightarrow> addr \<times> memory" where
  "alloc c m = (length m, m @ [c])"

section \<open>Types\<close>

text \<open>\<open>TMap\<close> is \<open>map[string]string\<close>, the only map type of the API.\<close>

datatype gtype =
    TScalar
  | TStruct "(string \<times> gtype) list"
  | TPointer gtype
  | TSlice gtype
  | TMap

datatype tree =
    Leaf scalar
  | Fields "(string \<times> tree) list"
  | NilRef
  | Deref tree
  | Elems "tree list"
  | Entries "string \<rightharpoonup> string"
  | Broken

primrec wt :: "gtype \<Rightarrow> memory \<Rightarrow> gval \<Rightarrow> bool" where
  "wt TScalar m v = (case v of Scalar s \<Rightarrow> True | _ \<Rightarrow> False)"
| "wt (TStruct fs) m v = (case v of
     Struct xs \<Rightarrow> list_all (\<lambda>(f, w). case map_of xs f of None \<Rightarrow> False | Some x \<Rightarrow> w m x)
       (map (map_prod id wt) fs)
   | _ \<Rightarrow> False)"
| "wt (TPointer T) m v = (case v of
     Pointer None \<Rightarrow> True
   | Pointer (Some a) \<Rightarrow> (case load m a of Some (Var x) \<Rightarrow> wt T m x | _ \<Rightarrow> False)
   | _ \<Rightarrow> False)"
| "wt (TSlice T) m v = (case v of
     Slice None \<Rightarrow> True
   | Slice (Some (a, off, n)) \<Rightarrow> (case load m a of
       Some (Array xs) \<Rightarrow> off + n \<le> length xs \<and> list_all (wt T m) (take n (drop off xs))
     | _ \<Rightarrow> False)
   | _ \<Rightarrow> False)"
| "wt TMap m v = (case v of
     MapRef None \<Rightarrow> True
   | MapRef (Some a) \<Rightarrow> (case load m a of Some (Table kvs) \<Rightarrow> distinct (map fst kvs) | _ \<Rightarrow> False)
   | _ \<Rightarrow> False)"

primrec contents :: "gtype \<Rightarrow> memory \<Rightarrow> gval \<Rightarrow> tree" where
  "contents TScalar m v = (case v of Scalar s \<Rightarrow> Leaf s | _ \<Rightarrow> Broken)"
| "contents (TStruct fs) m v = (case v of
     Struct xs \<Rightarrow> Fields (map (\<lambda>(f, g). (f, case map_of xs f of None \<Rightarrow> Broken | Some x \<Rightarrow> g m x))
       (map (map_prod id contents) fs))
   | _ \<Rightarrow> Broken)"
| "contents (TPointer T) m v = (case v of
     Pointer None \<Rightarrow> NilRef
   | Pointer (Some a) \<Rightarrow> (case load m a of Some (Var x) \<Rightarrow> Deref (contents T m x) | _ \<Rightarrow> Broken)
   | _ \<Rightarrow> Broken)"
| "contents (TSlice T) m v = (case v of
     Slice None \<Rightarrow> NilRef
   | Slice (Some (a, off, n)) \<Rightarrow> (case load m a of
       Some (Array xs) \<Rightarrow> Elems (map (contents T m) (take n (drop off xs)))
     | _ \<Rightarrow> Broken)
   | _ \<Rightarrow> Broken)"
| "contents TMap m v = (case v of
     MapRef None \<Rightarrow> NilRef
   | MapRef (Some a) \<Rightarrow> (case load m a of Some (Table kvs) \<Rightarrow> Entries (map_of kvs) | _ \<Rightarrow> Broken)
   | _ \<Rightarrow> Broken)"

primrec refs :: "gtype \<Rightarrow> memory \<Rightarrow> gval \<Rightarrow> addr list" where
  "refs TScalar m v = []"
| "refs (TStruct fs) m v = (case v of
     Struct xs \<Rightarrow> concat (map (\<lambda>(f, g). case map_of xs f of None \<Rightarrow> [] | Some x \<Rightarrow> g m x)
       (map (map_prod id refs) fs))
   | _ \<Rightarrow> [])"
| "refs (TPointer T) m v = (case v of
     Pointer (Some a) \<Rightarrow> a # (case load m a of Some (Var x) \<Rightarrow> refs T m x | _ \<Rightarrow> [])
   | _ \<Rightarrow> [])"
| "refs (TSlice T) m v = (case v of
     Slice (Some (a, off, n)) \<Rightarrow> a # (case load m a of
       Some (Array xs) \<Rightarrow> concat (map (refs T m) (take n (drop off xs)))
     | _ \<Rightarrow> [])
   | _ \<Rightarrow> [])"
| "refs TMap m v = (case v of MapRef (Some a) \<Rightarrow> [a] | _ \<Rightarrow> [])"

text \<open>A type without references: assigning it copies it completely.\<close>

primrec plain :: "gtype \<Rightarrow> bool" where
  "plain TScalar \<longleftrightarrow> True"
| "plain (TStruct fs) \<longleftrightarrow> list_all snd (map (map_prod id plain) fs)"
| "plain (TPointer T) \<longleftrightarrow> False"
| "plain (TSlice T) \<longleftrightarrow> False"
| "plain TMap \<longleftrightarrow> False"

section \<open>What the copying code is made of\<close>

text \<open>
  A copier stands for the effect of \<open>in.DeepCopyInto(out)\<close>: from the value of \<open>*in\<close>, the value
  \<open>*out\<close> has afterwards and the memory.  The old value of \<open>*out\<close> is never read.
\<close>

type_synonym copier = "gval \<Rightarrow> memory \<Rightarrow> gval \<times> memory"

text \<open>\<open>*out = *in\<close>.\<close>

definition assign :: copier where
  "assign v m = (v, m)"

text \<open>
  \<open>if in.F != nil { out.F = new(T); in.F.DeepCopyInto(out.F) }\<close>, also written
  \<open>{ v := *in.F; out.F = &v }\<close> where an assignment copies the pointee.
\<close>

fun copyPointer :: "copier \<Rightarrow> copier" where
  "copyPointer c (Pointer (Some a)) m = (case load m a of
     Some (Var x) \<Rightarrow>
       (let (x', m1) = c x m; (b, m2) = alloc (Var x') m1 in (Pointer (Some b), m2))
   | _ \<Rightarrow> (Pointer (Some a), m))"
| "copyPointer c v m = (v, m)"

text \<open>
  \<open>l := make([]T, len(in.F))\<close> and the loop \<open>in.F[i].DeepCopyInto(&l[i])\<close>, or \<open>copy(l, in.F)\<close>,
  which assigns the elements.
\<close>

fun copyElems :: "copier \<Rightarrow> gval list \<Rightarrow> memory \<Rightarrow> gval list \<times> memory" where
  "copyElems c [] m = ([], m)"
| "copyElems c (x # xs) m =
     (let (y, m1) = c x m; (ys, m2) = copyElems c xs m1 in (y # ys, m2))"

fun copySlice :: "copier \<Rightarrow> copier" where
  "copySlice c (Slice (Some (a, off, n))) m = (case load m a of
     Some (Array xs) \<Rightarrow>
       (let (ys, m1) = copyElems c (take n (drop off xs)) m; (b, m2) = alloc (Array ys) m1
        in (Slice (Some (b, 0, n)), m2))
   | _ \<Rightarrow> (Slice (Some (a, off, n)), m))"
| "copySlice c v m = (v, m)"

text \<open>\<open>m := make(map[string]string, len(in.F))\<close> and the loop \<open>m[k] = v\<close>.\<close>

fun copyMap :: copier where
  "copyMap (MapRef (Some a)) m = (case load m a of
     Some (Table kvs) \<Rightarrow>
       (let (b, m1) = alloc (Table (fold (\<lambda>(k, v) t. AList.update k v t) kvs [])) m
        in (MapRef (Some b), m1))
   | _ \<Rightarrow> (MapRef (Some a), m))"
| "copyMap v m = (v, m)"

fun field :: "gval \<Rightarrow> string \<Rightarrow> gval option" where
  "field (Struct xs) f = map_of xs f"
| "field v f = None"

fun putField :: "string \<Rightarrow> gval \<Rightarrow> gval \<Rightarrow> gval" where
  "putField f x (Struct xs) = Struct (AList.update f x xs)"
| "putField f x v = v"

text \<open>
  The body of a \<open>DeepCopyInto\<close> method: \<open>*out = *in\<close>, then one statement per field of the list,
  in that order, each reading \<open>in\<close> and overwriting the field of \<open>out\<close>.
\<close>

fun copyFields :: "(string \<times> copier) list \<Rightarrow> gval \<Rightarrow> gval \<Rightarrow> memory \<Rightarrow> gval \<times> memory" where
  "copyFields [] v out m = (out, m)"
| "copyFields ((f, c) # cs) v out m = (case field v f of
     None \<Rightarrow> copyFields cs v out m
   | Some x \<Rightarrow> (let (y, m1) = c x m in copyFields cs v (putField f y out) m1))"

definition copyInto :: "(string \<times> copier) list \<Rightarrow> copier" where
  "copyInto cs v m = (let (out, m1) = assign v m in copyFields cs v out m1)"

text \<open>
  \<open>DeepCopyObject\<close>: the pointer \<open>DeepCopy\<close> returns as a \<open>runtime.Object\<close>, where a nil pointer
  becomes the nil interface and not an interface that holds a nil pointer.
\<close>

definition copyObject :: "copier \<Rightarrow> gval \<Rightarrow> memory \<Rightarrow> gval option \<times> memory" where
  "copyObject c v m = (let (p, m1) = c v m in if p \<noteq> Pointer None then (Some p, m1) else (None, m1))"

section \<open>Reading is local\<close>

text \<open>Everything said about a value depends only on the cells it refers to.\<close>

lemma wt_TStruct:
  "wt (TStruct fs) m v \<longleftrightarrow>
   (\<exists>xs. v = Struct xs \<and> (\<forall>(f, T) \<in> set fs. \<exists>x. map_of xs f = Some x \<and> wt T m x))"
  by (auto simp: list_all_iff split: gval.splits option.splits)

lemma wt_TSlice:
  "wt (TSlice T) m v \<longleftrightarrow> v = Slice None \<or> (\<exists>a off n xs. v = Slice (Some (a, off, n)) \<and>
     load m a = Some (Array xs) \<and> off + n \<le> length xs \<and>
     (\<forall>x \<in> set (take n (drop off xs)). wt T m x))"
  by (auto simp: list_all_iff split: gval.splits option.splits cell.splits)

lemma wt_TPointer:
  "wt (TPointer T) m v \<longleftrightarrow> v = Pointer None \<or>
   (\<exists>a x. v = Pointer (Some a) \<and> load m a = Some (Var x) \<and> wt T m x)"
  by (auto split: gval.splits option.splits cell.splits)

lemma wt_TMap:
  "wt TMap m v \<longleftrightarrow> v = MapRef None \<or>
   (\<exists>a kvs. v = MapRef (Some a) \<and> load m a = Some (Table kvs) \<and> distinct (map fst kvs))"
  by (auto split: gval.splits option.splits cell.splits)

lemmas wt_cases = wt_TStruct wt_TSlice wt_TPointer wt_TMap

declare wt.simps [simp del]

lemma wt_StructE:
  assumes "wt (TStruct fs) m v"
  obtains xs where "v = Struct xs"
    "\<And>f T. (f, T) \<in> set fs \<Longrightarrow> \<exists>x. map_of xs f = Some x \<and> wt T m x"
  using assms unfolding wt_TStruct by blast

definition same_reading :: "gtype \<Rightarrow> memory \<Rightarrow> memory \<Rightarrow> gval \<Rightarrow> bool" where
  "same_reading T m m' v \<longleftrightarrow>
     wt T m' v \<and> contents T m' v = contents T m v \<and> refs T m' v = refs T m v"

lemma frame_struct:
  assumes "wt (TStruct fs) m v"
    and IH: "\<And>f T x. (f, T) \<in> set fs \<Longrightarrow> wt T m x \<Longrightarrow> set (refs T m x) \<subseteq> set (refs (TStruct fs) m v) \<Longrightarrow>
      same_reading T m m' x"
  shows "same_reading (TStruct fs) m m' v"
proof -
  from assms(1) obtain xs where xs: "v = Struct xs"
    and ok: "\<And>f T. (f, T) \<in> set fs \<Longrightarrow> \<exists>x. map_of xs f = Some x \<and> wt T m x"
    by (rule wt_StructE) blast
  have each: "\<exists>x. map_of xs f = Some x \<and> wt T m' x \<and> contents T m' x = contents T m x \<and>
      refs T m' x = refs T m x" if f: "(f, T) \<in> set fs" for f T
  proof -
    from ok [OF f] obtain x where x: "map_of xs f = Some x" "wt T m x" by blast
    have "set (refs T m x) \<subseteq> set (refs (TStruct fs) m v)" using f x(1) by (force simp: xs)
    from IH [OF f x(2) this] x(1) show ?thesis by (auto simp: same_reading_def)
  qed
  then have "wt (TStruct fs) m' v"
    by (fastforce simp: wt_TStruct xs)
  moreover have "contents (TStruct fs) m' v = contents (TStruct fs) m v"
    using each by (fastforce simp: xs)
  moreover have "refs (TStruct fs) m' v = refs (TStruct fs) m v"
    using each by (fastforce simp: xs intro!: arg_cong [where f = concat] map_cong)
  ultimately show ?thesis by (simp add: same_reading_def)
qed

lemma frame:
  assumes "wt T m v" "\<forall>a \<in> set (refs T m v). load m' a = load m a"
  shows "same_reading T m m' v"
  using assms
proof (induction T arbitrary: v)
  case TScalar
  then show ?case by (auto simp: same_reading_def wt.simps split: gval.splits)
next
  case (TStruct fs)
  show ?case
  proof (rule frame_struct [OF TStruct.prems(1)])
    fix f T x
    assume f: "(f, T) \<in> set fs" and x: "wt T m x" "set (refs T m x) \<subseteq> set (refs (TStruct fs) m v)"
    then have "\<forall>a \<in> set (refs T m x). load m' a = load m a" using TStruct.prems(2) by blast
    with TStruct.IH [OF f _ x(1)] show "same_reading T m m' x" by simp
  qed
next
  case (TPointer T)
  show ?case
  proof (cases "v = Pointer None")
    case False
    with TPointer.prems obtain a x where v: "v = Pointer (Some a)" and a: "load m a = Some (Var x)"
      and x: "wt T m x" by (auto simp: wt_TPointer)
    from TPointer.prems(2) v a have "load m' a = Some (Var x)"
      and "\<forall>a \<in> set (refs T m x). load m' a = load m a" by auto
    with TPointer.IH [OF x] v a show ?thesis by (simp add: same_reading_def wt_TPointer)
  qed (simp add: same_reading_def wt_TPointer)
next
  case (TSlice T)
  show ?case
  proof (cases "v = Slice None")
    case False
    with TSlice.prems obtain a off n xs where v: "v = Slice (Some (a, off, n))"
      and a: "load m a = Some (Array xs)" and n: "off + n \<le> length xs"
      and x: "\<forall>x \<in> set (take n (drop off xs)). wt T m x" by (auto simp: wt_TSlice)
    from TSlice.prems(2) v a have a': "load m' a = Some (Array xs)"
      and r: "\<And>x. x \<in> set (take n (drop off xs)) \<Longrightarrow>
        \<forall>a \<in> set (refs T m x). load m' a = load m a" by auto
    have same: "same_reading T m m' x" if "x \<in> set (take n (drop off xs))" for x
      using TSlice.IH [OF bspec [OF x that] r [OF that]] .
    then have "map (contents T m') (take n (drop off xs)) = map (contents T m) (take n (drop off xs))"
      "map (refs T m') (take n (drop off xs)) = map (refs T m) (take n (drop off xs))"
      "\<forall>x \<in> set (take n (drop off xs)). wt T m' x"
      by (auto simp: same_reading_def)
    with v a a' n show ?thesis
      by (simp add: same_reading_def wt_TSlice) (metis (no_types, lifting) map_cong)
  qed (simp add: same_reading_def wt_TSlice)
next
  case TMap
  then show ?case by (auto simp: wt_TMap same_reading_def)
qed

lemma refs_bounded:
  assumes "wt T m v" "a \<in> set (refs T m v)"
  shows "a < length m"
  using assms
proof (induction T arbitrary: v)
  case (TStruct fs)
  from TStruct.prems(1) obtain xs where xs: "v = Struct xs"
    and ok: "\<And>f T. (f, T) \<in> set fs \<Longrightarrow> \<exists>x. map_of xs f = Some x \<and> wt T m x"
    by (rule wt_StructE) blast
  from TStruct.prems(2) xs obtain f T x where f: "(f, T) \<in> set fs" "map_of xs f = Some x"
    "a \<in> set (refs T m x)" by (auto split: option.splits dest!: sym [of "Some _"])
  have "wt T m x" using ok [OF f(1)] f(2) by auto
  from TStruct.IH [OF f(1) _ this f(3)] show ?case by simp
next
  case (TSlice T)
  then show ?case by (fastforce simp: wt_TSlice load_def split: if_splits)
next
  case (TPointer T)
  then show ?case by (auto simp: wt_TPointer load_def split: if_splits)
next
  case TMap
  then show ?case by (auto simp: wt_TMap load_def split: if_splits)
qed simp

lemma load_prefix: "prefix m m' \<Longrightarrow> a < length m \<Longrightarrow> load m' a = load m a"
  by (auto simp: load_def prefix_def nth_append)

lemma same_reading_prefix: "wt T m v \<Longrightarrow> prefix m m' \<Longrightarrow> same_reading T m m' v"
  by (rule frame) (auto dest: refs_bounded intro: load_prefix)

lemma plain_refs: "plain T \<Longrightarrow> refs T m v = []"
proof (induction T arbitrary: v)
  case (TStruct fs)
  then have "\<And>f T v. (f, T) \<in> set fs \<Longrightarrow> refs T m v = []"
    by (fastforce simp: list_all_iff)
  then show ?case by (auto split: gval.splits option.splits)
qed simp_all

section \<open>The contract of a deep copy\<close>

definition deep_copier :: "gtype \<Rightarrow> copier \<Rightarrow> bool" where
  "deep_copier T c \<longleftrightarrow> (\<forall>m v v' m'. wt T m v \<longrightarrow> c v m = (v', m') \<longrightarrow>
     prefix m m' \<and> wt T m' v' \<and> contents T m' v' = contents T m v \<and>
     (\<forall>a \<in> set (refs T m' v'). length m \<le> a))"

named_theorems deep_intros "rules that follow the structure of the copying code"

lemma deep_copierD:
  assumes "deep_copier T c" "wt T m v" "c v m = (v', m')"
  shows "prefix m m'" "wt T m' v'" "contents T m' v' = contents T m v"
    "a \<in> set (refs T m' v') \<Longrightarrow> length m \<le> a"
  using assms unfolding deep_copier_def by blast+

lemma deep_assign [deep_intros]: "plain T \<Longrightarrow> deep_copier T assign"
  by (auto simp: deep_copier_def assign_def plain_refs)

lemma load_alloc [simp]: "load (m @ [c]) (length m) = Some c"
  by (simp add: load_def)

lemma deep_copyPointer [deep_intros]:
  assumes "deep_copier T c"
  shows "deep_copier (TPointer T) (copyPointer c)"
  unfolding deep_copier_def
proof (intro allI impI)
  fix m v v' m'
  assume wt: "wt (TPointer T) m v" and eq: "copyPointer c v m = (v', m')"
  show "prefix m m' \<and> wt (TPointer T) m' v' \<and> contents (TPointer T) m' v' = contents (TPointer T) m v \<and>
     (\<forall>a \<in> set (refs (TPointer T) m' v'). length m \<le> a)"
  proof (cases "v = Pointer None")
    case True
    with eq show ?thesis by (auto simp: wt_TPointer)
  next
    case False
    with wt obtain a x where v: "v = Pointer (Some a)" and a: "load m a = Some (Var x)"
      and x: "wt T m x" by (auto simp: wt_TPointer)
    obtain x' m1 where c: "c x m = (x', m1)" by (cases "c x m")
    note d = deep_copierD [OF assms x c]
    have s: "same_reading T m1 (m1 @ [Var x']) x'"
      by (rule same_reading_prefix) (simp_all add: d(2))
    from eq v a c have "v' = Pointer (Some (length m1))" "m' = m1 @ [Var x']"
      by (auto simp: alloc_def)
    with v a d s show ?thesis
      by (auto simp: same_reading_def wt_TPointer dest: prefix_length_le intro: prefix_order.trans)
  qed
qed

lemma copyElems_deep:
  assumes "deep_copier T c" "\<forall>x \<in> set xs. wt T m x" "copyElems c xs m = (ys, m')"
  shows "prefix m m' \<and> length ys = length xs \<and> (\<forall>y \<in> set ys. wt T m' y) \<and>
     map (contents T m') ys = map (contents T m) xs \<and>
     (\<forall>y \<in> set ys. \<forall>a \<in> set (refs T m' y). length m \<le> a)"
  using assms(2,3)
proof (induction xs arbitrary: m ys m')
  case (Cons x xs)
  obtain y m1 where c: "c x m = (y, m1)" by (cases "c x m")
  obtain zs m2 where e: "copyElems c xs m1 = (zs, m2)" by (cases "copyElems c xs m1")
  from Cons.prems have x: "wt T m x" and ys: "ys = y # zs" "m' = m2" by (auto simp: c e)
  note d = deep_copierD [OF assms(1) x c]
  have old: "same_reading T m m1 x'" if "x' \<in> set xs" for x'
    using same_reading_prefix Cons.prems(1) that d(1) by simp
  from Cons.IH [OF _ e] old have rest: "prefix m1 m2" "length zs = length xs" "\<forall>y \<in> set zs. wt T m2 y"
    "map (contents T m2) zs = map (contents T m1) xs"
    "\<forall>y \<in> set zs. \<forall>a \<in> set (refs T m2 y). length m1 \<le> a"
    by (auto simp: same_reading_def)
  have same: "same_reading T m1 m2 y" using same_reading_prefix d(2) rest(1) .
  have "map (contents T m1) xs = map (contents T m) xs" using old by (auto simp: same_reading_def)
  moreover have "length m \<le> length m1" using d(1) by (rule prefix_length_le)
  ultimately show ?case using d same rest
    by (auto simp: ys same_reading_def intro: prefix_order.trans order.trans)
qed simp

lemma deep_copySlice [deep_intros]:
  assumes "deep_copier T c"
  shows "deep_copier (TSlice T) (copySlice c)"
  unfolding deep_copier_def
proof (intro allI impI)
  fix m v v' m'
  assume wt: "wt (TSlice T) m v" and eq: "copySlice c v m = (v', m')"
  show "prefix m m' \<and> wt (TSlice T) m' v' \<and> contents (TSlice T) m' v' = contents (TSlice T) m v \<and>
     (\<forall>a \<in> set (refs (TSlice T) m' v'). length m \<le> a)"
  proof (cases "v = Slice None")
    case True
    with eq show ?thesis by (auto simp: wt_TSlice)
  next
    case False
    with wt obtain a off n xs where v: "v = Slice (Some (a, off, n))"
      and a: "load m a = Some (Array xs)" and n: "off + n \<le> length xs"
      and x: "\<forall>x \<in> set (take n (drop off xs)). wt T m x" by (auto simp: wt_TSlice)
    obtain ys m1 where c: "copyElems c (take n (drop off xs)) m = (ys, m1)"
      by (cases "copyElems c (take n (drop off xs)) m")
    note d = copyElems_deep [OF assms x c]
    have s: "same_reading T m1 (m1 @ [Array ys]) y" if "y \<in> set ys" for y
      by (rule same_reading_prefix) (use d that in auto)
    have len: "length ys = n" using d n by simp
    from eq v a c have v': "v' = Slice (Some (length m1, 0, n))" and m': "m' = m1 @ [Array ys]"
      by (auto simp: alloc_def)
    have "wt (TSlice T) m' v'" using s len by (auto simp: v' m' wt_TSlice same_reading_def)
    moreover have "contents (TSlice T) m' v' = contents (TSlice T) m v"
    proof -
      have "map (contents T m') ys = map (contents T m1) ys"
        using s by (auto simp: m' same_reading_def)
      with d show ?thesis by (simp add: v v' m' a len)
    qed
    moreover have "length m \<le> b" if "b \<in> set (refs (TSlice T) m' v')" for b
    proof -
      from that s len have "b = length m1 \<or> (\<exists>y \<in> set ys. b \<in> set (refs T m1 y))"
        by (auto simp: v' m' same_reading_def)
      with d show ?thesis by (auto dest: prefix_length_le)
    qed
    ultimately show ?thesis using d by (auto simp: m' intro: prefix_order.trans)
  qed
qed

lemma map_of_fold_update:
  "distinct (map fst kvs) \<Longrightarrow> set (map fst kvs) \<inter> set (map fst t) = {} \<Longrightarrow> distinct (map fst t) \<Longrightarrow>
   map_of (fold (\<lambda>(k, v) t. AList.update k v t) kvs t) = map_of t ++ map_of kvs \<and>
   distinct (map fst (fold (\<lambda>(k, v) t. AList.update k v t) kvs t))"
proof (induction kvs arbitrary: t)
  case (Cons kv kvs)
  obtain k v where kv: "kv = (k, v)" by (cases kv)
  from Cons.prems have k: "k \<notin> fst ` set kvs" by (simp add: kv)
  have "map_of (fold (\<lambda>(k, v) t. AList.update k v t) kvs (AList.update k v t)) =
      map_of (AList.update k v t) ++ map_of kvs \<and>
    distinct (map fst (fold (\<lambda>(k, v) t. AList.update k v t) kvs (AList.update k v t)))"
    by (rule Cons.IH) (use Cons.prems k in \<open>auto simp: kv dom_update distinct_update\<close>)
  moreover have "(map_of t)(k \<mapsto> v) ++ map_of kvs = map_of t ++ (map_of kvs)(k \<mapsto> v)"
    using k by (auto simp: map_add_def fun_eq_iff weak_map_of_SomeI map_of_eq_None_iff [symmetric]
        split: option.splits)
  ultimately show ?case
    by (auto simp: kv update_conv' fun_eq_iff map_add_def split: option.splits)
qed simp

lemma deep_copyMap [deep_intros]: "deep_copier TMap copyMap"
proof -
  have t: "map_of (fold (\<lambda>(k, v) t. AList.update k v t) kvs []) = map_of kvs \<and>
     distinct (map fst (fold (\<lambda>(k, v) t. AList.update k v t) kvs []))"
    if "distinct (map fst kvs)" for kvs :: "(string \<times> string) list"
    using map_of_fold_update [of kvs "[]"] that by simp
  then show ?thesis
    unfolding deep_copier_def wt_TMap by (auto simp: alloc_def)
qed

text \<open>
  The state of \<open>copyInto\<close> after the fields \<open>D\<close>: every field reads as in the original, and those
  of \<open>D\<close> refer to new cells only.
\<close>

definition copied ::
  "(string \<times> gtype) list \<Rightarrow> (string \<times> gval) list \<Rightarrow> memory \<Rightarrow> string set \<Rightarrow>
   (string \<times> gval) list \<Rightarrow> memory \<Rightarrow> bool" where
  "copied fs xs m0 D out m \<longleftrightarrow> prefix m0 m \<and>
     (\<forall>(f, T) \<in> set fs. \<exists>x y. map_of xs f = Some x \<and> wt T m0 x \<and> map_of out f = Some y \<and>
        wt T m y \<and> contents T m y = contents T m0 x \<and>
        (f \<in> D \<longrightarrow> (\<forall>a \<in> set (refs T m y). length m0 \<le> a)))"

lemma copied_step:
  assumes inv: "copied fs xs m0 D out m" and dist: "distinct (map fst fs)"
    and T: "(f, T) \<in> set fs" and c: "deep_copier T c"
    and x: "map_of xs f = Some x" and eq: "c x m = (y, m1)"
  shows "copied fs xs m0 (insert f D) (AList.update f y out) m1"
proof -
  from inv T x have pre: "prefix m0 m" and x0: "wt T m0 x" by (auto simp: copied_def)
  have sx: "same_reading T m0 m x" using same_reading_prefix x0 pre .
  then have xm: "wt T m x" by (simp add: same_reading_def)
  note d = deep_copierD [OF c xm eq]
  have len: "length m0 \<le> length m" using pre by (rule prefix_length_le)
  have "\<exists>x z. map_of xs g = Some x \<and> wt S m0 x \<and> map_of (AList.update f y out) g = Some z \<and>
      wt S m1 z \<and> contents S m1 z = contents S m0 x \<and>
      (g \<in> insert f D \<longrightarrow> (\<forall>a \<in> set (refs S m1 z). length m0 \<le> a))"
    if g: "(g, S) \<in> set fs" for g S
  proof (cases "g = f")
    case True
    then have "S = T" using g T dist by (metis eq_key_imp_eq_value)
    with True d sx x x0 len show ?thesis by (fastforce simp: update_conv' same_reading_def)
  next
    case False
    from inv g obtain u z where u: "map_of xs g = Some u" "wt S m0 u" "map_of out g = Some z" "wt S m z"
      "contents S m z = contents S m0 u" "g \<in> D \<longrightarrow> (\<forall>a \<in> set (refs S m z). length m0 \<le> a)"
      by (fastforce simp: copied_def)
    moreover have "same_reading S m m1 z" using same_reading_prefix u(4) d(1) .
    ultimately show ?thesis using False by (auto simp: update_conv' same_reading_def)
  qed
  then show ?thesis using pre d(1) by (auto simp: copied_def intro: prefix_order.trans)
qed

lemma copyFields_copied:
  assumes "copied fs xs m0 D out m" "distinct (map fst fs)"
    "\<forall>(f, c) \<in> set cs. \<exists>T. (f, T) \<in> set fs \<and> deep_copier T c"
    "copyFields cs (Struct xs) (Struct out) m = (v', m')"
  shows "\<exists>out'. v' = Struct out' \<and> copied fs xs m0 (D \<union> fst ` set cs) out' m'"
  using assms
proof (induction cs arbitrary: out m D)
  case (Cons fc cs)
  obtain f c where fc: "fc = (f, c)" by (cases fc)
  from Cons.prems(3) obtain T where T: "(f, T) \<in> set fs" "deep_copier T c" by (auto simp: fc)
  with Cons.prems(1) obtain x where x: "map_of xs f = Some x" by (fastforce simp: copied_def)
  obtain y m1 where c: "c x m = (y, m1)" by (cases "c x m")
  have "copied fs xs m0 (insert f D) (AList.update f y out) m1"
    using copied_step Cons.prems(1,2) T x c by metis
  from Cons.IH [OF this] Cons.prems x c show ?case by (simp add: fc)
qed auto

lemma deep_copyInto [deep_intros]:
  assumes "distinct (map fst fs)"
    and "list_all (\<lambda>(f, c). f \<in> set (map fst fs)) cs" "distinct (map fst cs)"
    and "list_all (\<lambda>(f, T). case map_of cs f of None \<Rightarrow> plain T | Some c \<Rightarrow> deep_copier T c) fs"
  shows "deep_copier (TStruct fs) (copyInto cs)"
  unfolding deep_copier_def
proof (intro allI impI)
  fix m v v' m'
  assume wt: "wt (TStruct fs) m v" and eq: "copyInto cs v m = (v', m')"
  from wt obtain xs where v: "v = Struct xs"
    and ok: "\<And>f T. (f, T) \<in> set fs \<Longrightarrow> \<exists>x. map_of xs f = Some x \<and> wt T m x"
    by (rule wt_StructE) blast
  let ?P = "{f. \<exists>T. (f, T) \<in> set fs \<and> plain T}"
  have start: "copied fs xs m ?P xs m"
    using ok assms(1) by (fastforce simp: copied_def plain_refs dest: eq_key_imp_eq_value)
  have deep: "\<forall>(f, c) \<in> set cs. \<exists>T. (f, T) \<in> set fs \<and> deep_copier T c"
    using assms(2-4) by (fastforce simp: list_all_iff split: option.splits)
  from eq have "copyFields cs (Struct xs) (Struct xs) m = (v', m')"
    by (simp add: copyInto_def assign_def v)
  from copyFields_copied [OF start assms(1) deep this] obtain out where
    out: "v' = Struct out" and inv: "copied fs xs m (?P \<union> fst ` set cs) out m'" by blast
  have all: "f \<in> ?P \<union> fst ` set cs" if "(f, T) \<in> set fs" for f T
  proof (cases "map_of cs f")
    case None
    with assms(4) that have "plain T" by (fastforce simp: list_all_iff)
    with that show ?thesis by blast
  next
    case (Some c)
    then show ?thesis by (force dest: map_of_SomeD)
  qed
  have fields: "\<exists>x y. map_of xs f = Some x \<and> map_of out f = Some y \<and> wt T m' y \<and>
      contents T m' y = contents T m x \<and> (\<forall>a \<in> set (refs T m' y). length m \<le> a)"
    if "(f, T) \<in> set fs" for f T
    using inv that all [OF that] unfolding copied_def by blast
  have "wt (TStruct fs) m' v'" using fields by (fastforce simp: wt_TStruct out)
  moreover have "contents (TStruct fs) m' v' = contents (TStruct fs) m v"
    using fields by (fastforce simp: out v)
  moreover have "\<forall>a \<in> set (refs (TStruct fs) m' v'). length m \<le> a"
    using fields by (fastforce simp: out)
  ultimately show "prefix m m' \<and> wt (TStruct fs) m' v' \<and>
     contents (TStruct fs) m' v' = contents (TStruct fs) m v \<and>
     (\<forall>a \<in> set (refs (TStruct fs) m' v'). length m \<le> a)"
    using inv by (simp add: copied_def)
qed

section \<open>Isolation\<close>

text \<open>
  What a deep copy is for: whoever writes only to cells reachable from one of the two and to
  cells allocated later leaves the other one as it was.
\<close>

lemma deep_copy_original_safe:
  assumes "deep_copier T c" "wt T m v" "c v m = (v', m')"
    and "\<forall>a < length m'. a \<notin> set (refs T m' v') \<longrightarrow> load m'' a = load m' a"
  shows "contents T m'' v = contents T m v"
proof -
  note d = deep_copierD [OF assms(1-3)]
  have "load m'' a = load m a" if "a \<in> set (refs T m v)" for a
  proof -
    have a: "a < length m" using refs_bounded assms(2) that .
    moreover have "a < length m'" using a d(1) by (auto dest: prefix_length_le)
    moreover have "a \<notin> set (refs T m' v')" using a d(4) [of a] by auto
    ultimately show ?thesis using assms(4) load_prefix [OF d(1) a] by simp
  qed
  then have "same_reading T m m'' v" by (intro frame [OF assms(2)] ballI)
  then show ?thesis by (simp add: same_reading_def)
qed

lemma deep_copy_copy_safe:
  assumes "deep_copier T c" "wt T m v" "c v m = (v', m')"
    and "\<forall>a < length m'. a \<notin> set (refs T m v) \<longrightarrow> load m'' a = load m' a"
  shows "contents T m'' v' = contents T m v"
proof -
  note d = deep_copierD [OF assms(1-3)]
  have "load m'' a = load m' a" if "a \<in> set (refs T m' v')" for a
  proof -
    have "a \<notin> set (refs T m v)" using d(4) [OF that] refs_bounded [OF assms(2), of a] by auto
    then show ?thesis using assms(4) refs_bounded [OF d(2) that] by simp
  qed
  then have "same_reading T m' m'' v'" by (intro frame [OF d(2)] ballI)
  then show ?thesis using d(3) by (simp add: same_reading_def)
qed

end
