(* ===== verification/Deep_Copy.thy ===== *)
theory Deep_Copy
  imports Go_Memory
begin

text \<open>
  The deep copies of the API types (\<open>api/v1alpha1/zz_generated.deepcopy.go\<close>) and the objects
  registered with the scheme (\<open>groupversion_info.go\<close>).

  controller-runtime hands out objects of a cache that all controllers share; what a reconciler
  gets is made by \<open>DeepCopyObject\<close>, and it writes to it freely.  Theorem
  \<open>registered_objects_isolated\<close> says that it may: for every registered type the copy reads the
  same as the original, and no write through one of them is seen through the other.  The file
  is marked as generated but its bodies are not uniform; a slice, map or pointer field added to
  a type and forgotten here is what would break the theorem.

  Each \<open>XT\<close> is the layout of the Go struct \<open>X\<close>, field by field; each \<open>X_DeepCopyInto\<close> has one
  entry per statement of the method of that name.  Strings, numbers and booleans are scalars.
  The types of the Kubernetes libraries are parameters (\<open>machinery\<close>): their layout, and their
  own \<open>DeepCopyInto\<close> where the code calls it.
\<close>

section \<open>Types of the Kubernetes libraries\<close>

record machinery =
  TypeMetaT :: gtype
  LocalObjectReferenceT :: gtype
  ObjectMetaT :: gtype
  ListMetaT :: gtype
  ConditionT :: gtype
  TolerationT :: gtype
  ResourceRequirementsT :: gtype
  ObjectMeta_DeepCopyInto :: copier
  ListMeta_DeepCopyInto :: copier
  Condition_DeepCopyInto :: copier
  Toleration_DeepCopyInto :: copier
  ResourceRequirements_DeepCopyInto :: copier

text \<open>
  What the code relies on: \<open>TypeMeta\<close> (kind and version) and \<open>LocalObjectReference\<close> (a name)
  hold no references, so that assigning them copies them; the library's own methods copy
  deeply.
\<close>

definition machinery_ok :: "machinery \<Rightarrow> bool" where
  "machinery_ok F \<longleftrightarrow> plain (TypeMetaT F) \<and> plain (LocalObjectReferenceT F) \<and>
     deep_copier (ObjectMetaT F) (ObjectMeta_DeepCopyInto F) \<and>
     deep_copier (ListMetaT F) (ListMeta_DeepCopyInto F) \<and>
     deep_copier (ConditionT F) (Condition_DeepCopyInto F) \<and>
     deep_copier (TolerationT F) (Toleration_DeepCopyInto F) \<and>
     deep_copier (ResourceRequirementsT F) (ResourceRequirements_DeepCopyInto F)"

section \<open>Layouts\<close>

definition BYOPostgresT :: "machinery \<Rightarrow> gtype" where
  "BYOPostgresT F = TStruct
    [(''Host'', TScalar), (''Port'', TScalar), (''Database'', TScalar),
     (''CredentialsSecretRef'', LocalObjectReferenceT F),
     (''SSLMode'', TScalar)]"

definition PostgresBackendSpecT :: "machinery \<Rightarrow> gtype" where
  "PostgresBackendSpecT F = TStruct
    [(''Instances'', TPointer TScalar), (''StorageSize'', TScalar),
     (''StorageClass'', TScalar), (''BYO'', TPointer (BYOPostgresT F))]"

definition BackendSpecT :: "machinery \<Rightarrow> gtype" where
  "BackendSpecT F = TStruct
    [(''Type'', TScalar), (''Postgres'', TPointer (PostgresBackendSpecT F))]"

definition AdditionalLoadBalancerServiceT :: gtype where
  "AdditionalLoadBalancerServiceT = TStruct
    [(''NameSuffix'', TScalar), (''IP'', TScalar), (''Annotations'', TMap),
     (''ExternalTrafficPolicy'', TScalar)]"

definition DNSLoadBalancerSpecT :: gtype where
  "DNSLoadBalancerSpecT = TStruct
    [(''IP'', TScalar), (''Annotations'', TMap),
     (''ExternalTrafficPolicy'', TScalar),
     (''AdditionalServices'', TSlice AdditionalLoadBalancerServiceT)]"

definition GatewayParentRefT :: gtype where
  "GatewayParentRefT = TStruct
    [(''Group'', TScalar), (''Kind'', TScalar), (''Name'', TScalar),
     (''Namespace'', TScalar), (''TCPSectionName'', TScalar),
     (''UDPSectionName'', TScalar)]"

definition DNSGatewaySpecT :: gtype where
  "DNSGatewaySpecT = TStruct
    [(''ParentRefs'', TSlice GatewayParentRefT)]"

definition DNSSpecT :: gtype where
  "DNSSpecT = TStruct
    [(''Exposure'', TScalar),
     (''LoadBalancer'', TPointer DNSLoadBalancerSpecT),
     (''Gateway'', TPointer DNSGatewaySpecT)]"

definition APIGatewayParentRefT :: gtype where
  "APIGatewayParentRefT = TStruct
    [(''Group'', TScalar), (''Kind'', TScalar), (''Name'', TScalar),
     (''Namespace'', TScalar), (''SectionName'', TScalar)]"

definition APIGatewaySpecT :: gtype where
  "APIGatewaySpecT = TStruct
    [(''Hostnames'', TSlice TScalar),
     (''ParentRefs'', TSlice APIGatewayParentRefT)]"

definition APISpecT :: "machinery \<Rightarrow> gtype" where
  "APISpecT F = TStruct
    [(''Port'', TScalar),
     (''APIKeySecretRef'', TPointer (LocalObjectReferenceT F)),
     (''Gateway'', TPointer APIGatewaySpecT)]"

definition SchedulingSpecT :: "machinery \<Rightarrow> gtype" where
  "SchedulingSpecT F = TStruct
    [(''NodeSelector'', TMap), (''Tolerations'', TSlice (TolerationT F)),
     (''PriorityClassName'', TScalar), (''SpreadAcrossZones'', TScalar)]"

definition PodMonitorSpecT :: gtype where
  "PodMonitorSpecT = TStruct
    [(''Enabled'', TScalar), (''Interval'', TScalar), (''Labels'', TMap)]"

definition ObservabilitySpecT :: gtype where
  "ObservabilitySpecT = TStruct
    [(''PodMonitor'', PodMonitorSpecT)]"

definition NetworkPolicySpecT :: gtype where
  "NetworkPolicySpecT = TStruct
    [(''Enabled'', TScalar),
     (''AdditionalAllowedAPINamespaces'', TSlice TScalar)]"

definition ZoneManagementSpecT :: gtype where
  "ZoneManagementSpecT = TStruct
    [(''AllowedNamespaces'', TSlice TScalar)]"

definition PDBSpecT :: gtype where
  "PDBSpecT = TStruct
    [(''MinAvailable'', TPointer TScalar)]"

definition PowerDNSServerSpecT :: "machinery \<Rightarrow> gtype" where
  "PowerDNSServerSpecT F = TStruct
    [(''Replicas'', TPointer TScalar), (''Image'', TScalar),
     (''Resources'', ResourceRequirementsT F), (''Backend'', BackendSpecT F),
     (''DNS'', DNSSpecT), (''API'', APISpecT F),
     (''Scheduling'', SchedulingSpecT F),
     (''Observability'', ObservabilitySpecT),
     (''NetworkPolicy'', NetworkPolicySpecT),
     (''ZoneManagement'', ZoneManagementSpecT),
     (''PodDisruptionBudget'', TPointer PDBSpecT), (''ExtraSettings'', TMap)]"

definition PowerDNSServerStatusT :: "machinery \<Rightarrow> gtype" where
  "PowerDNSServerStatusT F = TStruct
    [(''Phase'', TScalar), (''Ready'', TScalar), (''DNSEndpoint'', TScalar),
     (''APIEndpoint'', TScalar), (''APIKeySecretName'', TScalar),
     (''BackendSecretName'', TScalar), (''SchemaApplied'', TScalar),
     (''DesiredReplicas'', TScalar), (''ReadyReplicas'', TScalar),
     (''ConfigHash'', TScalar), (''Conditions'', TSlice (ConditionT F)),
     (''FailureMessage'', TScalar)]"

definition PowerDNSServerT :: "machinery \<Rightarrow> gtype" where
  "PowerDNSServerT F = TStruct
    [(''TypeMeta'', TypeMetaT F), (''ObjectMeta'', ObjectMetaT F),
     (''Spec'', PowerDNSServerSpecT F), (''Status'', PowerDNSServerStatusT F)]"

definition PowerDNSServerListT :: "machinery \<Rightarrow> gtype" where
  "PowerDNSServerListT F = TStruct
    [(''TypeMeta'', TypeMetaT F), (''ListMeta'', ListMetaT F),
     (''Items'', TSlice (PowerDNSServerT F))]"

definition ObjectRefT :: gtype where
  "ObjectRefT = TStruct
    [(''Name'', TScalar), (''Namespace'', TScalar)]"

definition DNSDistCacheSpecT :: gtype where
  "DNSDistCacheSpecT = TStruct
    [(''Enabled'', TPointer TScalar), (''MaxEntries'', TPointer TScalar)]"

definition DNSDistRateLimitSpecT :: gtype where
  "DNSDistRateLimitSpecT = TStruct
    [(''QPSPerClient'', TScalar)]"

definition DNSDistTLSListenerT :: "machinery \<Rightarrow> gtype" where
  "DNSDistTLSListenerT F = TStruct
    [(''Enabled'', TScalar),
     (''CertificateSecretRef'', LocalObjectReferenceT F)]"

definition DNSDistTLSSpecT :: "machinery \<Rightarrow> gtype" where
  "DNSDistTLSSpecT F = TStruct
    [(''DoT'', DNSDistTLSListenerT F), (''DoH'', DNSDistTLSListenerT F)]"

definition DNSDistSpecT :: "machinery \<Rightarrow> gtype" where
  "DNSDistSpecT F = TStruct
    [(''Replicas'', TPointer TScalar), (''Image'', TScalar),
     (''Resources'', ResourceRequirementsT F),
     (''Scheduling'', SchedulingSpecT F),
     (''BackendRefs'', TSlice ObjectRefT), (''DNS'', DNSSpecT),
     (''Cache'', DNSDistCacheSpecT), (''RateLimit'', DNSDistRateLimitSpecT),
     (''TLS'', DNSDistTLSSpecT F),
     (''PodDisruptionBudget'', TPointer PDBSpecT)]"

definition DNSDistStatusT :: "machinery \<Rightarrow> gtype" where
  "DNSDistStatusT F = TStruct
    [(''Phase'', TScalar), (''DNSEndpoint'', TScalar),
     (''DesiredReplicas'', TScalar), (''ReadyReplicas'', TScalar),
     (''ObservedGeneration'', TScalar),
     (''Conditions'', TSlice (ConditionT F)), (''FailureMessage'', TScalar)]"

definition DNSDistT :: "machinery \<Rightarrow> gtype" where
  "DNSDistT F = TStruct
    [(''TypeMeta'', TypeMetaT F), (''ObjectMeta'', ObjectMetaT F),
     (''Spec'', DNSDistSpecT F), (''Status'', DNSDistStatusT F)]"

definition DNSDistListT :: "machinery \<Rightarrow> gtype" where
  "DNSDistListT F = TStruct
    [(''TypeMeta'', TypeMetaT F), (''ListMeta'', ListMetaT F),
     (''Items'', TSlice (DNSDistT F))]"

definition SOASpecT :: gtype where
  "SOASpecT = TStruct
    [(''Hostmaster'', TScalar), (''TTL'', TPointer TScalar)]"

definition ZoneDNSSECSpecT :: gtype where
  "ZoneDNSSECSpecT = TStruct
    [(''Enabled'', TScalar)]"

definition ZoneSpecT :: gtype where
  "ZoneSpecT = TStruct
    [(''ServerRef'', ObjectRefT), (''ZoneName'', TScalar),
     (''Kind'', TScalar), (''Masters'', TSlice TScalar),
     (''Nameservers'', TSlice TScalar), (''SOA'', TPointer SOASpecT),
     (''DNSSEC'', ZoneDNSSECSpecT), (''DeletionPolicy'', TScalar)]"

definition ZoneStatusT :: "machinery \<Rightarrow> gtype" where
  "ZoneStatusT F = TStruct
    [(''Phase'', TScalar), (''Serial'', TScalar),
     (''DSRecords'', TSlice TScalar), (''ObservedGeneration'', TScalar),
     (''Conditions'', TSlice (ConditionT F)), (''FailureMessage'', TScalar)]"

definition ZoneT :: "machinery \<Rightarrow> gtype" where
  "ZoneT F = TStruct
    [(''TypeMeta'', TypeMetaT F), (''ObjectMeta'', ObjectMetaT F),
     (''Spec'', ZoneSpecT), (''Status'', ZoneStatusT F)]"

definition ZoneListT :: "machinery \<Rightarrow> gtype" where
  "ZoneListT F = TStruct
    [(''TypeMeta'', TypeMetaT F), (''ListMeta'', ListMetaT F),
     (''Items'', TSlice (ZoneT F))]"

definition RRSetSpecT :: gtype where
  "RRSetSpecT = TStruct
    [(''ZoneRef'', ObjectRefT), (''Name'', TScalar), (''Type'', TScalar),
     (''TTL'', TPointer TScalar), (''Records'', TSlice TScalar),
     (''DeletionPolicy'', TScalar)]"

definition RRSetStatusT :: "machinery \<Rightarrow> gtype" where
  "RRSetStatusT F = TStruct
    [(''ObservedGeneration'', TScalar),
     (''Conditions'', TSlice (ConditionT F)), (''FailureMessage'', TScalar)]"

definition RRSetT :: "machinery \<Rightarrow> gtype" where
  "RRSetT F = TStruct
    [(''TypeMeta'', TypeMetaT F), (''ObjectMeta'', ObjectMetaT F),
     (''Spec'', RRSetSpecT), (''Status'', RRSetStatusT F)]"

definition RRSetListT :: "machinery \<Rightarrow> gtype" where
  "RRSetListT F = TStruct
    [(''TypeMeta'', TypeMetaT F), (''ListMeta'', ListMetaT F),
     (''Items'', TSlice (RRSetT F))]"

section \<open>Copies\<close>

definition BYOPostgres_DeepCopyInto :: copier where
  "BYOPostgres_DeepCopyInto = copyInto []"

definition BYOPostgres_DeepCopy :: copier where
  "BYOPostgres_DeepCopy = copyPointer BYOPostgres_DeepCopyInto"

definition PostgresBackendSpec_DeepCopyInto :: copier where
  "PostgresBackendSpec_DeepCopyInto = copyInto
    [(''Instances'', copyPointer assign), (''BYO'', copyPointer assign)]"

definition PostgresBackendSpec_DeepCopy :: copier where
  "PostgresBackendSpec_DeepCopy = copyPointer PostgresBackendSpec_DeepCopyInto"

definition BackendSpec_DeepCopyInto :: copier where
  "BackendSpec_DeepCopyInto = copyInto
    [(''Postgres'', copyPointer PostgresBackendSpec_DeepCopyInto)]"

definition BackendSpec_DeepCopy :: copier where
  "BackendSpec_DeepCopy = copyPointer BackendSpec_DeepCopyInto"

definition AdditionalLoadBalancerService_DeepCopyInto :: copier where
  "AdditionalLoadBalancerService_DeepCopyInto = copyInto
    [(''Annotations'', copyMap)]"

definition AdditionalLoadBalancerService_DeepCopy :: copier where
  "AdditionalLoadBalancerService_DeepCopy = copyPointer AdditionalLoadBalancerService_DeepCopyInto"

definition DNSLoadBalancerSpec_DeepCopyInto :: copier where
  "DNSLoadBalancerSpec_DeepCopyInto = copyInto
    [(''Annotations'', copyMap),
     (''AdditionalServices'', copySlice AdditionalLoadBalancerService_DeepCopyInto)]"

definition DNSLoadBalancerSpec_DeepCopy :: copier where
  "DNSLoadBalancerSpec_DeepCopy = copyPointer DNSLoadBalancerSpec_DeepCopyInto"

definition DNSGatewaySpec_DeepCopyInto :: copier where
  "DNSGatewaySpec_DeepCopyInto = copyInto
    [(''ParentRefs'', copySlice assign)]"

definition DNSGatewaySpec_DeepCopy :: copier where
  "DNSGatewaySpec_DeepCopy = copyPointer DNSGatewaySpec_DeepCopyInto"

definition DNSSpec_DeepCopyInto :: copier where
  "DNSSpec_DeepCopyInto = copyInto
    [(''LoadBalancer'', copyPointer DNSLoadBalancerSpec_DeepCopyInto),
     (''Gateway'', copyPointer DNSGatewaySpec_DeepCopyInto)]"

definition DNSSpec_DeepCopy :: copier where
  "DNSSpec_DeepCopy = copyPointer DNSSpec_DeepCopyInto"

definition APIGatewaySpec_DeepCopyInto :: copier where
  "APIGatewaySpec_DeepCopyInto = copyInto
    [(''Hostnames'', copySlice assign), (''ParentRefs'', copySlice assign)]"

definition APIGatewaySpec_DeepCopy :: copier where
  "APIGatewaySpec_DeepCopy = copyPointer APIGatewaySpec_DeepCopyInto"

definition APISpec_DeepCopyInto :: copier where
  "APISpec_DeepCopyInto = copyInto
    [(''APIKeySecretRef'', copyPointer assign),
     (''Gateway'', copyPointer APIGatewaySpec_DeepCopyInto)]"

definition APISpec_DeepCopy :: copier where
  "APISpec_DeepCopy = copyPointer APISpec_DeepCopyInto"

definition SchedulingSpec_DeepCopyInto :: "machinery \<Rightarrow> copier" where
  "SchedulingSpec_DeepCopyInto F = copyInto
    [(''NodeSelector'', copyMap),
     (''Tolerations'', copySlice (Toleration_DeepCopyInto F))]"

definition SchedulingSpec_DeepCopy :: "machinery \<Rightarrow> copier" where
  "SchedulingSpec_DeepCopy F = copyPointer (SchedulingSpec_DeepCopyInto F)"

definition PodMonitorSpec_DeepCopyInto :: copier where
  "PodMonitorSpec_DeepCopyInto = copyInto
    [(''Labels'', copyMap)]"

definition PodMonitorSpec_DeepCopy :: copier where
  "PodMonitorSpec_DeepCopy = copyPointer PodMonitorSpec_DeepCopyInto"

definition ObservabilitySpec_DeepCopyInto :: copier where
  "ObservabilitySpec_DeepCopyInto = copyInto
    [(''PodMonitor'', PodMonitorSpec_DeepCopyInto)]"

definition ObservabilitySpec_DeepCopy :: copier where
  "ObservabilitySpec_DeepCopy = copyPointer ObservabilitySpec_DeepCopyInto"

definition NetworkPolicySpec_DeepCopyInto :: copier where
  "NetworkPolicySpec_DeepCopyInto = copyInto
    [(''AdditionalAllowedAPINamespaces'', copySlice assign)]"

definition NetworkPolicySpec_DeepCopy :: copier where
  "NetworkPolicySpec_DeepCopy = copyPointer NetworkPolicySpec_DeepCopyInto"

definition ZoneManagementSpec_DeepCopyInto :: copier where
  "ZoneManagementSpec_DeepCopyInto = copyInto
    [(''AllowedNamespaces'', copySlice assign)]"

definition ZoneManagementSpec_DeepCopy :: copier where
  "ZoneManagementSpec_DeepCopy = copyPointer ZoneManagementSpec_DeepCopyInto"

definition PDBSpec_DeepCopyInto :: copier where
  "PDBSpec_DeepCopyInto = copyInto
    [(''MinAvailable'', copyPointer assign)]"

definition PDBSpec_DeepCopy :: copier where
  "PDBSpec_DeepCopy = copyPointer PDBSpec_DeepCopyInto"

definition PowerDNSServerSpec_DeepCopyInto :: "machinery \<Rightarrow> copier" where
  "PowerDNSServerSpec_DeepCopyInto F = copyInto
    [(''Replicas'', copyPointer assign),
     (''Resources'', ResourceRequirements_DeepCopyInto F),
     (''Backend'', BackendSpec_DeepCopyInto),
     (''DNS'', DNSSpec_DeepCopyInto), (''API'', APISpec_DeepCopyInto),
     (''Scheduling'', SchedulingSpec_DeepCopyInto F),
     (''Observability'', ObservabilitySpec_DeepCopyInto),
     (''NetworkPolicy'', NetworkPolicySpec_DeepCopyInto),
     (''ZoneManagement'', ZoneManagementSpec_DeepCopyInto),
     (''PodDisruptionBudget'', copyPointer PDBSpec_DeepCopyInto),
     (''ExtraSettings'', copyMap)]"

definition PowerDNSServerSpec_DeepCopy :: "machinery \<Rightarrow> copier" where
  "PowerDNSServerSpec_DeepCopy F = copyPointer (PowerDNSServerSpec_DeepCopyInto F)"

definition PowerDNSServerStatus_DeepCopyInto :: "machinery \<Rightarrow> copier" where
  "PowerDNSServerStatus_DeepCopyInto F = copyInto
    [(''Conditions'', copySlice (Condition_DeepCopyInto F))]"

definition PowerDNSServerStatus_DeepCopy :: "machinery \<Rightarrow> copier" where
  "PowerDNSServerStatus_DeepCopy F = copyPointer (PowerDNSServerStatus_DeepCopyInto F)"

definition PowerDNSServer_DeepCopyInto :: "machinery \<Rightarrow> copier" where
  "PowerDNSServer_DeepCopyInto F = copyInto
    [(''TypeMeta'', assign), (''ObjectMeta'', ObjectMeta_DeepCopyInto F),
     (''Spec'', PowerDNSServerSpec_DeepCopyInto F),
     (''Status'', PowerDNSServerStatus_DeepCopyInto F)]"

definition PowerDNSServer_DeepCopy :: "machinery \<Rightarrow> copier" where
  "PowerDNSServer_DeepCopy F = copyPointer (PowerDNSServer_DeepCopyInto F)"

definition PowerDNSServer_DeepCopyObject ::
  "machinery \<Rightarrow> gval \<Rightarrow> memory \<Rightarrow> gval option \<times> memory" where
  "PowerDNSServer_DeepCopyObject F = copyObject (PowerDNSServer_DeepCopy F)"

definition PowerDNSServerList_DeepCopyInto :: "machinery \<Rightarrow> copier" where
  "PowerDNSServerList_DeepCopyInto F = copyInto
    [(''TypeMeta'', assign), (''ListMeta'', ListMeta_DeepCopyInto F),
     (''Items'', copySlice (PowerDNSServer_DeepCopyInto F))]"

definition PowerDNSServerList_DeepCopy :: "machinery \<Rightarrow> copier" where
  "PowerDNSServerList_DeepCopy F = copyPointer (PowerDNSServerList_DeepCopyInto F)"

definition PowerDNSServerList_DeepCopyObject ::
  "machinery \<Rightarrow> gval \<Rightarrow> memory \<Rightarrow> gval option \<times> memory" where
  "PowerDNSServerList_DeepCopyObject F = copyObject (PowerDNSServerList_DeepCopy F)"

definition ObjectRef_DeepCopyInto :: copier where
  "ObjectRef_DeepCopyInto = copyInto []"

definition ObjectRef_DeepCopy :: copier where
  "ObjectRef_DeepCopy = copyPointer ObjectRef_DeepCopyInto"

definition DNSDistCacheSpec_DeepCopyInto :: copier where
  "DNSDistCacheSpec_DeepCopyInto = copyInto
    [(''Enabled'', copyPointer assign), (''MaxEntries'', copyPointer assign)]"

definition DNSDistCacheSpec_DeepCopy :: copier where
  "DNSDistCacheSpec_DeepCopy = copyPointer DNSDistCacheSpec_DeepCopyInto"

definition DNSDistRateLimitSpec_DeepCopyInto :: copier where
  "DNSDistRateLimitSpec_DeepCopyInto = copyInto []"

definition DNSDistRateLimitSpec_DeepCopy :: copier where
  "DNSDistRateLimitSpec_DeepCopy = copyPointer DNSDistRateLimitSpec_DeepCopyInto"

definition DNSDistTLSListener_DeepCopyInto :: copier where
  "DNSDistTLSListener_DeepCopyInto = copyInto []"

definition DNSDistTLSListener_DeepCopy :: copier where
  "DNSDistTLSListener_DeepCopy = copyPointer DNSDistTLSListener_DeepCopyInto"

definition DNSDistTLSSpec_DeepCopyInto :: copier where
  "DNSDistTLSSpec_DeepCopyInto = copyInto
    [(''DoT'', DNSDistTLSListener_DeepCopyInto),
     (''DoH'', DNSDistTLSListener_DeepCopyInto)]"

definition DNSDistTLSSpec_DeepCopy :: copier where
  "DNSDistTLSSpec_DeepCopy = copyPointer DNSDistTLSSpec_DeepCopyInto"

definition DNSDistSpec_DeepCopyInto :: "machinery \<Rightarrow> copier" where
  "DNSDistSpec_DeepCopyInto F = copyInto
    [(''Replicas'', copyPointer assign),
     (''Resources'', ResourceRequirements_DeepCopyInto F),
     (''Scheduling'', SchedulingSpec_DeepCopyInto F),
     (''BackendRefs'', copySlice assign), (''DNS'', DNSSpec_DeepCopyInto),
     (''Cache'', DNSDistCacheSpec_DeepCopyInto),
     (''RateLimit'', DNSDistRateLimitSpec_DeepCopyInto),
     (''TLS'', DNSDistTLSSpec_DeepCopyInto),
     (''PodDisruptionBudget'', copyPointer PDBSpec_DeepCopyInto)]"

definition DNSDistSpec_DeepCopy :: "machinery \<Rightarrow> copier" where
  "DNSDistSpec_DeepCopy F = copyPointer (DNSDistSpec_DeepCopyInto F)"

definition DNSDistStatus_DeepCopyInto :: "machinery \<Rightarrow> copier" where
  "DNSDistStatus_DeepCopyInto F = copyInto
    [(''Conditions'', copySlice (Condition_DeepCopyInto F))]"

definition DNSDistStatus_DeepCopy :: "machinery \<Rightarrow> copier" where
  "DNSDistStatus_DeepCopy F = copyPointer (DNSDistStatus_DeepCopyInto F)"

definition DNSDist_DeepCopyInto :: "machinery \<Rightarrow> copier" where
  "DNSDist_DeepCopyInto F = copyInto
    [(''TypeMeta'', assign), (''ObjectMeta'', ObjectMeta_DeepCopyInto F),
     (''Spec'', DNSDistSpec_DeepCopyInto F),
     (''Status'', DNSDistStatus_DeepCopyInto F)]"

definition DNSDist_DeepCopy :: "machinery \<Rightarrow> copier" where
  "DNSDist_DeepCopy F = copyPointer (DNSDist_DeepCopyInto F)"

definition DNSDist_DeepCopyObject ::
  "machinery \<Rightarrow> gval \<Rightarrow> memory \<Rightarrow> gval option \<times> memory" where
  "DNSDist_DeepCopyObject F = copyObject (DNSDist_DeepCopy F)"

definition DNSDistList_DeepCopyInto :: "machinery \<Rightarrow> copier" where
  "DNSDistList_DeepCopyInto F = copyInto
    [(''TypeMeta'', assign), (''ListMeta'', ListMeta_DeepCopyInto F),
     (''Items'', copySlice (DNSDist_DeepCopyInto F))]"

definition DNSDistList_DeepCopy :: "machinery \<Rightarrow> copier" where
  "DNSDistList_DeepCopy F = copyPointer (DNSDistList_DeepCopyInto F)"

definition DNSDistList_DeepCopyObject ::
  "machinery \<Rightarrow> gval \<Rightarrow> memory \<Rightarrow> gval option \<times> memory" where
  "DNSDistList_DeepCopyObject F = copyObject (DNSDistList_DeepCopy F)"

definition SOASpec_DeepCopyInto :: copier where
  "SOASpec_DeepCopyInto = copyInto
    [(''TTL'', copyPointer assign)]"

definition SOASpec_DeepCopy :: copier where
  "SOASpec_DeepCopy = copyPointer SOASpec_DeepCopyInto"

definition ZoneSpec_DeepCopyInto :: copier where
  "ZoneSpec_DeepCopyInto = copyInto
    [(''ServerRef'', assign), (''Masters'', copySlice assign),
     (''Nameservers'', copySlice assign),
     (''SOA'', copyPointer SOASpec_DeepCopyInto), (''DNSSEC'', assign)]"

definition ZoneSpec_DeepCopy :: copier where
  "ZoneSpec_DeepCopy = copyPointer ZoneSpec_DeepCopyInto"

definition ZoneStatus_DeepCopyInto :: "machinery \<Rightarrow> copier" where
  "ZoneStatus_DeepCopyInto F = copyInto
    [(''DSRecords'', copySlice assign),
     (''Conditions'', copySlice (Condition_DeepCopyInto F))]"

definition ZoneStatus_DeepCopy :: "machinery \<Rightarrow> copier" where
  "ZoneStatus_DeepCopy F = copyPointer (ZoneStatus_DeepCopyInto F)"

definition Zone_DeepCopyInto :: "machinery \<Rightarrow> copier" where
  "Zone_DeepCopyInto F = copyInto
    [(''TypeMeta'', assign), (''ObjectMeta'', ObjectMeta_DeepCopyInto F),
     (''Spec'', ZoneSpec_DeepCopyInto),
     (''Status'', ZoneStatus_DeepCopyInto F)]"

definition Zone_DeepCopy :: "machinery \<Rightarrow> copier" where
  "Zone_DeepCopy F = copyPointer (Zone_DeepCopyInto F)"

definition Zone_DeepCopyObject ::
  "machinery \<Rightarrow> gval \<Rightarrow> memory \<Rightarrow> gval option \<times> memory" where
  "Zone_DeepCopyObject F = copyObject (Zone_DeepCopy F)"

definition ZoneList_DeepCopyInto :: "machinery \<Rightarrow> copier" where
  "ZoneList_DeepCopyInto F = copyInto
    [(''TypeMeta'', assign), (''ListMeta'', ListMeta_DeepCopyInto F),
     (''Items'', copySlice (Zone_DeepCopyInto F))]"

definition ZoneList_DeepCopy :: "machinery \<Rightarrow> copier" where
  "ZoneList_DeepCopy F = copyPointer (ZoneList_DeepCopyInto F)"

definition ZoneList_DeepCopyObject ::
  "machinery \<Rightarrow> gval \<Rightarrow> memory \<Rightarrow> gval option \<times> memory" where
  "ZoneList_DeepCopyObject F = copyObject (ZoneList_DeepCopy F)"

definition RRSetSpec_DeepCopyInto :: copier where
  "RRSetSpec_DeepCopyInto = copyInto
    [(''ZoneRef'', assign), (''TTL'', copyPointer assign),
     (''Records'', copySlice assign)]"

definition RRSetSpec_DeepCopy :: copier where
  "RRSetSpec_DeepCopy = copyPointer RRSetSpec_DeepCopyInto"

definition RRSetStatus_DeepCopyInto :: "machinery \<Rightarrow> copier" where
  "RRSetStatus_DeepCopyInto F = copyInto
    [(''Conditions'', copySlice (Condition_DeepCopyInto F))]"

definition RRSetStatus_DeepCopy :: "machinery \<Rightarrow> copier" where
  "RRSetStatus_DeepCopy F = copyPointer (RRSetStatus_DeepCopyInto F)"

definition RRSet_DeepCopyInto :: "machinery \<Rightarrow> copier" where
  "RRSet_DeepCopyInto F = copyInto
    [(''TypeMeta'', assign), (''ObjectMeta'', ObjectMeta_DeepCopyInto F),
     (''Spec'', RRSetSpec_DeepCopyInto),
     (''Status'', RRSetStatus_DeepCopyInto F)]"

definition RRSet_DeepCopy :: "machinery \<Rightarrow> copier" where
  "RRSet_DeepCopy F = copyPointer (RRSet_DeepCopyInto F)"

definition RRSet_DeepCopyObject ::
  "machinery \<Rightarrow> gval \<Rightarrow> memory \<Rightarrow> gval option \<times> memory" where
  "RRSet_DeepCopyObject F = copyObject (RRSet_DeepCopy F)"

definition RRSetList_DeepCopyInto :: "machinery \<Rightarrow> copier" where
  "RRSetList_DeepCopyInto F = copyInto
    [(''TypeMeta'', assign), (''ListMeta'', ListMeta_DeepCopyInto F),
     (''Items'', copySlice (RRSet_DeepCopyInto F))]"

definition RRSetList_DeepCopy :: "machinery \<Rightarrow> copier" where
  "RRSetList_DeepCopy F = copyPointer (RRSetList_DeepCopyInto F)"

definition RRSetList_DeepCopyObject ::
  "machinery \<Rightarrow> gval \<Rightarrow> memory \<Rightarrow> gval option \<times> memory" where
  "RRSetList_DeepCopyObject F = copyObject (RRSetList_DeepCopy F)"

section \<open>Registration\<close>

text \<open>
  \<open>SchemeBuilder.Register\<close>: the objects whose \<open>DeepCopyObject\<close> the API machinery calls.
\<close>

definition registeredObjects ::
  "machinery \<Rightarrow> (string \<times> gtype \<times> (gval \<Rightarrow> memory \<Rightarrow> gval option \<times> memory)) list" where
  "registeredObjects F =
    [(''PowerDNSServer'', PowerDNSServerT F, PowerDNSServer_DeepCopyObject F),
     (''PowerDNSServerList'', PowerDNSServerListT F, PowerDNSServerList_DeepCopyObject F),
     (''Zone'', ZoneT F, Zone_DeepCopyObject F),
     (''ZoneList'', ZoneListT F, ZoneList_DeepCopyObject F),
     (''RRSet'', RRSetT F, RRSet_DeepCopyObject F),
     (''RRSetList'', RRSetListT F, RRSetList_DeepCopyObject F),
     (''DNSDist'', DNSDistT F, DNSDist_DeepCopyObject F),
     (''DNSDistList'', DNSDistListT F, DNSDistList_DeepCopyObject F)]"

section \<open>Every copy is deep\<close>

text \<open>
  One fact per type, from the types without parts of their own up to the lists; each follows
  the statements of its method with the rules of \<open>deep_intros\<close>.
\<close>

lemma deep_parts [deep_intros]:
  assumes "machinery_ok F"
  shows "deep_copier (BYOPostgresT F) BYOPostgres_DeepCopyInto"
    and "deep_copier AdditionalLoadBalancerServiceT AdditionalLoadBalancerService_DeepCopyInto"
    and "deep_copier (SchedulingSpecT F) (SchedulingSpec_DeepCopyInto F)"
    and "deep_copier PodMonitorSpecT PodMonitorSpec_DeepCopyInto"
    and "deep_copier NetworkPolicySpecT NetworkPolicySpec_DeepCopyInto"
    and "deep_copier ZoneManagementSpecT ZoneManagementSpec_DeepCopyInto"
    and "deep_copier PDBSpecT PDBSpec_DeepCopyInto"
    and "deep_copier (PowerDNSServerStatusT F) (PowerDNSServerStatus_DeepCopyInto F)"
    and "deep_copier ObjectRefT ObjectRef_DeepCopyInto"
    and "deep_copier DNSDistCacheSpecT DNSDistCacheSpec_DeepCopyInto"
    and "deep_copier DNSDistRateLimitSpecT DNSDistRateLimitSpec_DeepCopyInto"
    and "deep_copier (DNSDistTLSListenerT F) DNSDistTLSListener_DeepCopyInto"
    and "deep_copier (DNSDistStatusT F) (DNSDistStatus_DeepCopyInto F)"
    and "deep_copier SOASpecT SOASpec_DeepCopyInto"
    and "deep_copier (ZoneStatusT F) (ZoneStatus_DeepCopyInto F)"
    and "deep_copier (RRSetStatusT F) (RRSetStatus_DeepCopyInto F)"
  using assms by (auto simp: machinery_ok_def
    BYOPostgresT_def BYOPostgres_DeepCopyInto_def AdditionalLoadBalancerServiceT_def
    AdditionalLoadBalancerService_DeepCopyInto_def SchedulingSpecT_def
    SchedulingSpec_DeepCopyInto_def PodMonitorSpecT_def PodMonitorSpec_DeepCopyInto_def
    NetworkPolicySpecT_def NetworkPolicySpec_DeepCopyInto_def ZoneManagementSpecT_def
    ZoneManagementSpec_DeepCopyInto_def PDBSpecT_def PDBSpec_DeepCopyInto_def
    PowerDNSServerStatusT_def PowerDNSServerStatus_DeepCopyInto_def ObjectRefT_def
    ObjectRef_DeepCopyInto_def DNSDistCacheSpecT_def DNSDistCacheSpec_DeepCopyInto_def
    DNSDistRateLimitSpecT_def DNSDistRateLimitSpec_DeepCopyInto_def DNSDistTLSListenerT_def
    DNSDistTLSListener_DeepCopyInto_def DNSDistStatusT_def DNSDistStatus_DeepCopyInto_def
    SOASpecT_def SOASpec_DeepCopyInto_def ZoneStatusT_def ZoneStatus_DeepCopyInto_def
    RRSetStatusT_def RRSetStatus_DeepCopyInto_def
    intro!: deep_intros)

lemma deep_specs [deep_intros]:
  assumes "machinery_ok F"
  shows "deep_copier (PostgresBackendSpecT F) PostgresBackendSpec_DeepCopyInto"
    and "deep_copier DNSLoadBalancerSpecT DNSLoadBalancerSpec_DeepCopyInto"
    and "deep_copier DNSGatewaySpecT DNSGatewaySpec_DeepCopyInto"
    and "deep_copier APIGatewaySpecT APIGatewaySpec_DeepCopyInto"
    and "deep_copier ObservabilitySpecT ObservabilitySpec_DeepCopyInto"
    and "deep_copier (DNSDistTLSSpecT F) DNSDistTLSSpec_DeepCopyInto"
    and "deep_copier ZoneSpecT ZoneSpec_DeepCopyInto"
    and "deep_copier RRSetSpecT RRSetSpec_DeepCopyInto"
  using assms by (auto simp: machinery_ok_def
    PostgresBackendSpecT_def PostgresBackendSpec_DeepCopyInto_def DNSLoadBalancerSpecT_def
    DNSLoadBalancerSpec_DeepCopyInto_def DNSGatewaySpecT_def DNSGatewaySpec_DeepCopyInto_def
    APIGatewaySpecT_def APIGatewaySpec_DeepCopyInto_def ObservabilitySpecT_def
    ObservabilitySpec_DeepCopyInto_def DNSDistTLSSpecT_def DNSDistTLSSpec_DeepCopyInto_def
    ZoneSpecT_def ZoneSpec_DeepCopyInto_def RRSetSpecT_def RRSetSpec_DeepCopyInto_def
    GatewayParentRefT_def APIGatewayParentRefT_def ObjectRefT_def ZoneDNSSECSpecT_def
    BYOPostgresT_def
    intro!: deep_intros)

lemma deep_groups [deep_intros]:
  assumes "machinery_ok F"
  shows "deep_copier (BackendSpecT F) BackendSpec_DeepCopyInto"
    and "deep_copier DNSSpecT DNSSpec_DeepCopyInto"
    and "deep_copier (APISpecT F) APISpec_DeepCopyInto"
    and "deep_copier (ZoneT F) (Zone_DeepCopyInto F)"
    and "deep_copier (RRSetT F) (RRSet_DeepCopyInto F)"
  using assms by (auto simp: machinery_ok_def
    BackendSpecT_def BackendSpec_DeepCopyInto_def DNSSpecT_def DNSSpec_DeepCopyInto_def
    APISpecT_def APISpec_DeepCopyInto_def ZoneT_def Zone_DeepCopyInto_def RRSetT_def
    RRSet_DeepCopyInto_def
    intro!: deep_intros)

lemma deep_big_specs [deep_intros]:
  assumes "machinery_ok F"
  shows "deep_copier (PowerDNSServerSpecT F) (PowerDNSServerSpec_DeepCopyInto F)"
    and "deep_copier (DNSDistSpecT F) (DNSDistSpec_DeepCopyInto F)"
    and "deep_copier (ZoneListT F) (ZoneList_DeepCopyInto F)"
    and "deep_copier (RRSetListT F) (RRSetList_DeepCopyInto F)"
  using assms by (auto simp: machinery_ok_def
    PowerDNSServerSpecT_def PowerDNSServerSpec_DeepCopyInto_def DNSDistSpecT_def
    DNSDistSpec_DeepCopyInto_def ZoneListT_def ZoneList_DeepCopyInto_def RRSetListT_def
    RRSetList_DeepCopyInto_def ObjectRefT_def
    intro!: deep_intros)

lemma deep_objects [deep_intros]:
  assumes "machinery_ok F"
  shows "deep_copier (PowerDNSServerT F) (PowerDNSServer_DeepCopyInto F)"
    and "deep_copier (DNSDistT F) (DNSDist_DeepCopyInto F)"
  using assms by (auto simp: machinery_ok_def
    PowerDNSServerT_def PowerDNSServer_DeepCopyInto_def DNSDistT_def DNSDist_DeepCopyInto_def
    intro!: deep_intros)

lemma deep_lists [deep_intros]:
  assumes "machinery_ok F"
  shows "deep_copier (PowerDNSServerListT F) (PowerDNSServerList_DeepCopyInto F)"
    and "deep_copier (DNSDistListT F) (DNSDistList_DeepCopyInto F)"
  using assms by (auto simp: machinery_ok_def
    PowerDNSServerListT_def PowerDNSServerList_DeepCopyInto_def DNSDistListT_def
    DNSDistList_DeepCopyInto_def
    intro!: deep_intros)

text \<open>The \<open>DeepCopy\<close> methods of the types that are only parts of an object.\<close>

lemma parts_DeepCopy:
  assumes "machinery_ok F"
  shows "list_all (\<lambda>(T, c). deep_copier (TPointer T) c)
    [(BYOPostgresT F, BYOPostgres_DeepCopy),
     (PostgresBackendSpecT F, PostgresBackendSpec_DeepCopy),
     (BackendSpecT F, BackendSpec_DeepCopy),
     (AdditionalLoadBalancerServiceT, AdditionalLoadBalancerService_DeepCopy),
     (DNSLoadBalancerSpecT, DNSLoadBalancerSpec_DeepCopy),
     (DNSGatewaySpecT, DNSGatewaySpec_DeepCopy),
     (DNSSpecT, DNSSpec_DeepCopy),
     (APIGatewaySpecT, APIGatewaySpec_DeepCopy),
     (APISpecT F, APISpec_DeepCopy),
     (SchedulingSpecT F, SchedulingSpec_DeepCopy F),
     (PodMonitorSpecT, PodMonitorSpec_DeepCopy),
     (ObservabilitySpecT, ObservabilitySpec_DeepCopy),
     (NetworkPolicySpecT, NetworkPolicySpec_DeepCopy),
     (ZoneManagementSpecT, ZoneManagementSpec_DeepCopy),
     (PDBSpecT, PDBSpec_DeepCopy),
     (PowerDNSServerSpecT F, PowerDNSServerSpec_DeepCopy F),
     (PowerDNSServerStatusT F, PowerDNSServerStatus_DeepCopy F),
     (ObjectRefT, ObjectRef_DeepCopy),
     (DNSDistCacheSpecT, DNSDistCacheSpec_DeepCopy),
     (DNSDistRateLimitSpecT, DNSDistRateLimitSpec_DeepCopy),
     (DNSDistTLSListenerT F, DNSDistTLSListener_DeepCopy),
     (DNSDistTLSSpecT F, DNSDistTLSSpec_DeepCopy),
     (DNSDistSpecT F, DNSDistSpec_DeepCopy F),
     (DNSDistStatusT F, DNSDistStatus_DeepCopy F),
     (SOASpecT, SOASpec_DeepCopy),
     (ZoneSpecT, ZoneSpec_DeepCopy),
     (ZoneStatusT F, ZoneStatus_DeepCopy F),
     (RRSetSpecT, RRSetSpec_DeepCopy),
     (RRSetStatusT F, RRSetStatus_DeepCopy F)]"
  using assms by (auto simp: BYOPostgres_DeepCopy_def PostgresBackendSpec_DeepCopy_def BackendSpec_DeepCopy_def
    AdditionalLoadBalancerService_DeepCopy_def DNSLoadBalancerSpec_DeepCopy_def
    DNSGatewaySpec_DeepCopy_def DNSSpec_DeepCopy_def APIGatewaySpec_DeepCopy_def
    APISpec_DeepCopy_def SchedulingSpec_DeepCopy_def PodMonitorSpec_DeepCopy_def
    ObservabilitySpec_DeepCopy_def NetworkPolicySpec_DeepCopy_def
    ZoneManagementSpec_DeepCopy_def PDBSpec_DeepCopy_def PowerDNSServerSpec_DeepCopy_def
    PowerDNSServerStatus_DeepCopy_def ObjectRef_DeepCopy_def DNSDistCacheSpec_DeepCopy_def
    DNSDistRateLimitSpec_DeepCopy_def DNSDistTLSListener_DeepCopy_def
    DNSDistTLSSpec_DeepCopy_def DNSDistSpec_DeepCopy_def DNSDistStatus_DeepCopy_def
    SOASpec_DeepCopy_def ZoneSpec_DeepCopy_def ZoneStatus_DeepCopy_def RRSetSpec_DeepCopy_def
    RRSetStatus_DeepCopy_def
    intro!: deep_intros)

lemma registered_deep:
  assumes "machinery_ok F" "(n, T, copy) \<in> set (registeredObjects F)"
  obtains c where "copy = copyObject (copyPointer c)" "deep_copier T c"
  using assms(2) that deep_objects [OF assms(1)] deep_lists [OF assms(1)]
    deep_groups [OF assms(1)] deep_big_specs [OF assms(1)]
  by (auto simp: registeredObjects_def
      PowerDNSServer_DeepCopyObject_def PowerDNSServer_DeepCopy_def
      PowerDNSServerList_DeepCopyObject_def PowerDNSServerList_DeepCopy_def
      Zone_DeepCopyObject_def Zone_DeepCopy_def ZoneList_DeepCopyObject_def ZoneList_DeepCopy_def
      RRSet_DeepCopyObject_def RRSet_DeepCopy_def RRSetList_DeepCopyObject_def
      RRSetList_DeepCopy_def DNSDist_DeepCopyObject_def DNSDist_DeepCopy_def
      DNSDistList_DeepCopyObject_def DNSDistList_DeepCopy_def)

text \<open>
  C9: For every type registered with the scheme, \<open>DeepCopyObject\<close> of a nil pointer is the nil
  interface; otherwise it returns a non-nil pointer to an object that reads the same as the
  original, which is itself unchanged.  Afterwards the two share nothing: after any number of
  writes to cells reachable from the copy (and to cells allocated later) the original still
  reads as before, and the other way round.  The library's own copies are assumed to be deep.
\<close>
theorem registered_objects_isolated:
  assumes "machinery_ok F" "(n, T, copy) \<in> set (registeredObjects F)"
    and "wt (TPointer T) m p" "copy p m = (r, m')"
  shows "if p = Pointer None then r = None \<and> m' = m
    else \<exists>p'. r = Some p' \<and> p' \<noteq> Pointer None \<and>
      contents (TPointer T) m' p' = contents (TPointer T) m p \<and>
      contents (TPointer T) m' p = contents (TPointer T) m p \<and>
      (\<forall>m''. (\<forall>a < length m'. a \<notin> set (refs (TPointer T) m' p') \<longrightarrow> load m'' a = load m' a) \<longrightarrow>
         contents (TPointer T) m'' p = contents (TPointer T) m p) \<and>
      (\<forall>m''. (\<forall>a < length m'. a \<notin> set (refs (TPointer T) m p) \<longrightarrow> load m'' a = load m' a) \<longrightarrow>
         contents (TPointer T) m'' p' = contents (TPointer T) m p)"
proof -
  obtain c where copy: "copy = copyObject (copyPointer c)" and c: "deep_copier T c"
    using registered_deep assms(1,2) .
  note deep = deep_copyPointer [OF c]
  obtain q m1 where q: "copyPointer c p m = (q, m1)" by (cases "copyPointer c p m")
  show ?thesis
  proof (cases "p = Pointer None")
    case True
    with assms(4) show ?thesis by (auto simp: copy copyObject_def)
  next
    case False
    with assms(3) q have ne: "q \<noteq> Pointer None"
      by (auto simp: wt_TPointer alloc_def split: prod.splits)
    with assms(4) q have r: "r = Some q" and m1: "m1 = m'" by (auto simp: copy copyObject_def)
    note q = q [unfolded m1]
    have "same_reading (TPointer T) m m' p"
      using same_reading_prefix [OF assms(3)] deep_copierD(1) [OF deep assms(3) q] by blast
    then have "contents (TPointer T) m' p = contents (TPointer T) m p"
      by (simp only: same_reading_def)
    with False ne r deep_copierD(3) [OF deep assms(3) q] deep_copy_original_safe [OF deep assms(3) q]
      deep_copy_copy_safe [OF deep assms(3) q]
    show ?thesis by auto
  qed
qed

subsection \<open>A secondary zone with two masters\<close>

definition demoMachinery :: machinery where
  "demoMachinery = \<lparr>
     TypeMetaT = TStruct [(''Kind'', TScalar), (''APIVersion'', TScalar)],
     LocalObjectReferenceT = TStruct [(''Name'', TScalar)],
     ObjectMetaT = TStruct [(''Name'', TScalar), (''Labels'', TMap)],
     ListMetaT = TStruct [(''ResourceVersion'', TScalar)],
     ConditionT = TStruct [(''Type'', TScalar), (''Status'', TScalar)],
     TolerationT = TStruct [(''Key'', TScalar), (''TolerationSeconds'', TPointer TScalar)],
     ResourceRequirementsT = TStruct [(''Limits'', TMap), (''Requests'', TMap)],
     ObjectMeta_DeepCopyInto = copyInto [(''Labels'', copyMap)],
     ListMeta_DeepCopyInto = copyInto [],
     Condition_DeepCopyInto = copyInto [],
     Toleration_DeepCopyInto = copyInto [(''TolerationSeconds'', copyPointer assign)],
     ResourceRequirements_DeepCopyInto = copyInto [(''Limits'', copyMap), (''Requests'', copyMap)]\<rparr>"

lemma demoMachinery_ok: "machinery_ok demoMachinery"
  by (auto simp: machinery_ok_def demoMachinery_def intro!: deep_intros)

definition demoString :: "string \<Rightarrow> gval" where
  "demoString s = Scalar (StringV s)"

definition demoMemory :: memory where
  "demoMemory =
    [Array [demoString ''192.0.2.1'', demoString ''192.0.2.2''],
     Table [(''team'', ''dns'')],
     Var (Struct
      [(''TypeMeta'', Struct [(''Kind'', demoString ''Zone''), (''APIVersion'', demoString ''v1'')]),
       (''ObjectMeta'', Struct [(''Name'', demoString ''z''), (''Labels'', MapRef (Some 1))]),
       (''Spec'', Struct
         [(''ServerRef'', Struct [(''Name'', demoString ''s''), (''Namespace'', demoString [])]),
          (''ZoneName'', demoString ''a.example.''), (''Kind'', demoString ''Secondary''),
          (''Masters'', Slice (Some (0, 0, 2))), (''Nameservers'', Slice None),
          (''SOA'', Pointer None), (''DNSSEC'', Struct [(''Enabled'', Scalar (BoolV False))]),
          (''DeletionPolicy'', demoString ''Delete'')]),
       (''Status'', Struct
         [(''Phase'', demoString ''Pending''), (''Serial'', Scalar (IntV 0)),
          (''DSRecords'', Slice None), (''ObservedGeneration'', Scalar (IntV 0)),
          (''Conditions'', Slice None), (''FailureMessage'', demoString [])])])]"

theorem registered_objects_isolated_witness:
  "\<exists>p' m'. Zone_DeepCopyObject demoMachinery (Pointer (Some 2)) demoMemory = (Some p', m') \<and>
     contents (TPointer (ZoneT demoMachinery)) m' p' =
       contents (TPointer (ZoneT demoMachinery)) demoMemory (Pointer (Some 2)) \<and>
     contents (TPointer (ZoneT demoMachinery)) (m'[3 := Array []]) (Pointer (Some 2)) =
       contents (TPointer (ZoneT demoMachinery)) demoMemory (Pointer (Some 2))"
proof -
  let ?T = "TPointer (ZoneT demoMachinery)" and ?p = "Pointer (Some 2)"
  have mem: "(''Zone'', ZoneT demoMachinery, Zone_DeepCopyObject demoMachinery)
      \<in> set (registeredObjects demoMachinery)" by (simp add: registeredObjects_def)
  have wt: "wt ?T demoMemory ?p" by code_simp
  obtain r m' where r: "Zone_DeepCopyObject demoMachinery ?p demoMemory = (r, m')"
    by (cases "Zone_DeepCopyObject demoMachinery ?p demoMemory")
  have new: "list_ex (\<lambda>a. a = 3) (refs ?T (snd (Zone_DeepCopyObject demoMachinery ?p demoMemory))
    (the (fst (Zone_DeepCopyObject demoMachinery ?p demoMemory))))" by code_simp
  from registered_objects_isolated [OF demoMachinery_ok mem wt r] obtain p' where
    p': "r = Some p'" "contents ?T m' p' = contents ?T demoMemory ?p"
    and safe: "\<And>m''. (\<forall>a < length m'. a \<notin> set (refs ?T m' p') \<longrightarrow> load m'' a = load m' a) \<Longrightarrow>
       contents ?T m'' ?p = contents ?T demoMemory ?p"
    by (auto split: if_splits)
  from new r p'(1) have "3 \<in> set (refs ?T m' p')" by (simp add: list_ex_iff)
  then have "load (m'[3 := Array []]) a = load m' a" if "a \<notin> set (refs ?T m' p')" for a
    using that by (cases "a = 3") (simp_all add: load_def)
  then have "contents ?T (m'[3 := Array []]) ?p = contents ?T demoMemory ?p"
    by (intro safe) blast
  with r p' show ?thesis by blast
qed

end
