(* ===== verification/Api_Usage.thy ===== *)
theory Api_Usage
  imports Zone_Correct RRSet_Correct Server_Requests
begin

text \<open>
  Which kinds of objects each reconciler reads, lists, creates, updates and deletes.

  A \<open>usage\<close> is such a table; \<open>within u q\<close> says that the request \<open>q\<close> stays inside it.  The four
  tables are exact enough to check the configuration of the operator against: its watches, its
  indexes and its permissions (theories \<open>Operator\<close> and \<open>Permissions\<close>).
\<close>

section \<open>Tables\<close>

record usage =
  reads :: "kind list"
  lists :: "kind list"
  indexes :: "(kind \<times> string) list"
  creates :: "kind list"
  updates :: "kind list"
  deletes :: "kind list"
  statuses :: "kind list"

fun within :: "usage \<Rightarrow> req \<Rightarrow> bool" where
  "within u (KGet k n) \<longleftrightarrow> k \<in> set (reads u)"
| "within u (KCreate x) \<longleftrightarrow> kind_of x \<in> set (creates u)"
| "within u (KUpdate x) \<longleftrightarrow> kind_of x \<in> set (updates u)"
| "within u (KStatusUpdate x) \<longleftrightarrow> kind_of x \<in> set (statuses u)"
| "within u (KDelete k n) \<longleftrightarrow> k \<in> set (deletes u)"
| "within u (KListByIndex k i v) \<longleftrightarrow> (k, i) \<in> set (indexes u)"
| "within u (KListByLabels k n ls) \<longleftrightarrow> k \<in> set (lists u)"
| "within u (KCreateOrUpdate x) \<longleftrightarrow>
     kind_of x \<in> set (reads u) \<and> kind_of x \<in> set (creates u) \<and> kind_of x \<in> set (updates u)"
| "within u (KEvent k n typ reason msg) \<longleftrightarrow> True"
| "within u (HttpDo h) \<longleftrightarrow> True"
| "within u (RandRead n) \<longleftrightarrow> True"

definition zoneUsage :: usage where
  "zoneUsage = \<lparr>reads = [KZone, KServer, KSecret], lists = [], indexes = [], creates = [],
     updates = [KZone], deletes = [], statuses = [KZone]\<rparr>"

definition rrsetUsage :: usage where
  "rrsetUsage = \<lparr>reads = [KRRSet, KZone, KServer, KSecret], lists = [],
     indexes = [(KRRSet, rrsetZoneIndex)], creates = [], updates = [KRRSet], deletes = [],
     statuses = [KRRSet]\<rparr>"

definition dnsdistUsage :: usage where
  "dnsdistUsage = \<lparr>
     reads = [KDNSDist, KServer, KService, KSecret, KConfigMap, KDeployment, KPDB, KTCPRoute, KUDPRoute],
     lists = [KService], indexes = [],
     creates = [KConfigMap, KDeployment, KService, KPDB, KTCPRoute, KUDPRoute],
     updates = [KConfigMap, KDeployment, KService, KPDB, KTCPRoute, KUDPRoute],
     deletes = [KService, KPDB, KTCPRoute, KUDPRoute], statuses = [KDNSDist]\<rparr>"

definition serverUsage :: usage where
  "serverUsage = \<lparr>
     reads = [KServer, KSecret, KConfigMap, KService, KDeployment, KJob, KPDB, KNetworkPolicy,
       KTCPRoute, KUDPRoute, KHTTPRoute, KUnstructured ClusterGVK, KUnstructured PodMonitorGVK],
     lists = [KService], indexes = [],
     creates = [KSecret, KConfigMap, KService, KDeployment, KJob, KPDB, KNetworkPolicy,
       KTCPRoute, KUDPRoute, KHTTPRoute, KUnstructured ClusterGVK, KUnstructured PodMonitorGVK],
     updates = [KServer, KSecret, KConfigMap, KService, KDeployment, KNetworkPolicy,
       KTCPRoute, KUDPRoute, KHTTPRoute],
     deletes = [KService, KJob, KPDB, KNetworkPolicy, KTCPRoute, KUDPRoute, KHTTPRoute,
       KUnstructured PodMonitorGVK],
     statuses = [KServer]\<rparr>"

lemma usage_sel [simp]:
  "reads zoneUsage = [KZone, KServer, KSecret]" "updates zoneUsage = [KZone]"
  "statuses zoneUsage = [KZone]"
  "reads rrsetUsage = [KRRSet, KZone, KServer, KSecret]" "updates rrsetUsage = [KRRSet]"
  "statuses rrsetUsage = [KRRSet]" "indexes rrsetUsage = [(KRRSet, rrsetZoneIndex)]"
  by (simp_all add: zoneUsage_def rrsetUsage_def)

section \<open>Zones and record sets\<close>

declare calls_zone_markNotReady [calls_intros del] calls_zone_finish [calls_intros del]
  calls_markNotReady [calls_intros del]

lemma usage_http [calls_intros]:
  "calls_only (within u) (GetZone c n)" "calls_only (within u) (CreateZone c z)"
  "calls_only (within u) (UpdateZone c n zu)" "calls_only (within u) (DeleteZone c n)"
  "calls_only (within u) (PatchRRSets c n rs)" "calls_only (within u) (ListCryptokeys c n)"
  "calls_only (within u) (CreateCryptokey c n k)" "calls_only (within u) (UpdateCryptokey c n k)"
  "calls_only (within u) (RectifyZone c n)"
  by (rule http_op_calls; simp)+

lemma usage_zone_mark [calls_intros]:
  "calls_only (within zoneUsage) (zone_markNotReady X z reason msg after)"
  "calls_only (within zoneUsage) (zone_markFailed X z msg)"
  "calls_only (within zoneUsage) (zone_finish X z pz ds)"
  "calls_only (within zoneUsage) (zone_event X z typ reason msg)"
  unfolding zone_markNotReady_def zone_markFailed_def zone_finish_def zone_event_def Let_def
  by (intro calls_intros; simp)+

lemma usage_ensureDNSSEC: "calls_only (within zoneUsage) (ensureDNSSEC z c)"
  unfolding ensureDNSSEC_def activateKey_def Let_def
  by (intro calls_intros | simp split: list.splits add: calls_intros)+

lemma usage_zone_lookup: "calls_only (within zoneUsage) (zone_lookup X z c)"
  unfolding zone_lookup_def createZone_def seedSOA_def Let_def
  by (intro calls_intros | simp)+

lemma usage_reconcileZone: "calls_only (within zoneUsage) (reconcileZone X z c)"
  unfolding reconcileZone_def zone_registered_def zone_dnssec_def
  by (intro calls_intros usage_ensureDNSSEC usage_zone_lookup)

lemma usage_zone: "calls_only (within zoneUsage) (zone_Reconcile X key)"
  unfolding zone_Reconcile_def zone_body_def zone_withServer_def zone_reconcileDelete_def
    zone_removeData_def zone_protect_def
  by (intro calls_intros usage_reconcileZone; simp)

lemma usage_rrset_mark [calls_intros]:
  "calls_only (within rrsetUsage) (rrset_markReady X rr)"
  "calls_only (within rrsetUsage) (rrset_markNotReady X rr reason msg after)"
  "calls_only (within rrsetUsage) (rrset_event X rr typ reason msg)"
  "calls_only (within rrsetUsage) (findConflict rr)"
  unfolding rrset_markReady_def rrset_markNotReady_def rrset_event_def findConflict_def Let_def
  by (intro calls_intros; simp)+

lemma usage_rrset: "calls_only (within rrsetUsage) (rrset_Reconcile X key)"
  unfolding rrset_Reconcile_def rrset_body_def rrset_withZone_def rrset_withServer_def rrset_apply_def
    rrset_sync_def rrset_patch_def rrset_reconcileDelete_def deleteFromPowerDNS_def deleteFromZone_def
    deleteFromServer_def rrset_protect_def
  by (intro calls_intros; simp)

section \<open>DNSDist\<close>

lemma dnsdistUsage_sel [simp]:
  "reads dnsdistUsage = [KDNSDist, KServer, KService, KSecret, KConfigMap, KDeployment, KPDB, KTCPRoute, KUDPRoute]"
  "lists dnsdistUsage = [KService]"
  "creates dnsdistUsage = [KConfigMap, KDeployment, KService, KPDB, KTCPRoute, KUDPRoute]"
  "updates dnsdistUsage = [KConfigMap, KDeployment, KService, KPDB, KTCPRoute, KUDPRoute]"
  "deletes dnsdistUsage = [KService, KPDB, KTCPRoute, KUDPRoute]" "statuses dnsdistUsage = [KDNSDist]"
  by (simp_all add: dnsdistUsage_def)

lemma usage_updateService:
  assumes "retry_laws X" "KService \<in> set (reads u)" "KService \<in> set (creates u)" "KService \<in> set (updates u)"
  shows "calls_only (within u) (updateService X svc)"
  by (rule calls_only_updateService) (use assms in simp_all)

lemma usage_collect [calls_intros]:
  "KService \<in> set (deletes u) \<Longrightarrow> calls_only (within u) (collectServices names svcs)"
  by (rule calls_only_collectServices) simp

lemma usage_upsert [calls_intros]:
  "kind_of x \<in> set (reads u) \<Longrightarrow> kind_of x \<in> set (creates u) \<Longrightarrow> kind_of x \<in> set (updates u) \<Longrightarrow>
   calls_only (within u) (upsertOwned ow x)"
  by (simp add: upsertOwned_def calls_intros)

lemma usage_applyAdditional:
  "retry_laws X \<Longrightarrow> calls_only (within dnsdistUsage) (applyAdditional X d st refs)"
  by (induction X d st refs rule: applyAdditional.induct)
    (auto simp: Let_def intro!: calls_intros usage_updateService split: sum.split)

lemma usage_tlsSecrets: "calls_only (within dnsdistUsage) (tlsSecrets ns acc ls)"
  by (induction ns acc ls rule: tlsSecrets.induct) (auto simp: Let_def intro!: calls_intros split: sum.split)

lemma usage_backends: "calls_only (within dnsdistUsage) (backendsFrom ns addrs refs)"
  by (induction ns addrs refs rule: backendsFrom.induct)
    (auto simp: backendAddr_def Let_def intro!: calls_intros split: sum.split)

lemma usage_converge:
  assumes "retry_laws X"
  shows "calls_only (within dnsdistUsage) (dnsdist_converge X d addrs)"
proof -
  have "calls_only (within dnsdistUsage) (dnsdist_service X d)"
    using assms by (auto simp: dnsdist_service_def intro!: calls_intros usage_updateService split: sum.split)
  moreover have "calls_only (within dnsdistUsage) (reconcileDNSDistAdditionalServices X d)"
    using assms by (auto simp: reconcileDNSDistAdditionalServices_def Let_def
        intro!: calls_intros usage_applyAdditional split: prod.split)
  moreover have "calls_only (within dnsdistUsage) (dnsdistBudget d)"
    unfolding dnsdistBudget_def by (intro calls_intros) simp_all
  moreover have "calls_only (within dnsdistUsage) (reconcileDNSDistRoutes X d)"
    unfolding reconcileDNSDistRoutes_def Let_def by (intro calls_intros) simp_all
  ultimately show ?thesis
    unfolding dnsdist_converge_def dnsdist_workload_def Let_def
    by (intro calls_intros usage_tlsSecrets) simp_all
qed

lemma usage_dnsdist:
  assumes "retry_laws X"
  shows "calls_only (within dnsdistUsage) (dnsdist_Reconcile X key)"
proof -
  have mark: "calls_only (within dnsdistUsage) (markDNSDistFailed X d msg)"
    "calls_only (within dnsdistUsage) (markDNSDistNotReady X d reason msg after)"
    "calls_only (within dnsdistUsage) (refreshDNSDistStatus X d)" for d reason msg after
    unfolding markDNSDistFailed_def markDNSDistNotReady_def refreshDNSDistStatus_def dnsdist_endpoint_def Let_def
    by (intro calls_intros; simp)+
  then have "calls_only (within dnsdistUsage) (dnsdist_body X d)" for d
    unfolding dnsdist_body_def backendsReady_def Let_def
    by (auto intro!: calls_intros usage_backends usage_converge [OF assms] split: sum.split)
  then show ?thesis
    unfolding dnsdist_Reconcile_def by (intro calls_intros) simp_all
qed

section \<open>PowerDNSServer\<close>

text \<open>
  The children a server creates if they are missing, and those it converges: the kinds for which
  the table has the needed columns.
\<close>

lemma serverUsage_sel [simp]:
  "reads serverUsage = [KServer, KSecret, KConfigMap, KService, KDeployment, KJob, KPDB, KNetworkPolicy,
     KTCPRoute, KUDPRoute, KHTTPRoute, KUnstructured ClusterGVK, KUnstructured PodMonitorGVK]"
  "lists serverUsage = [KService]"
  "creates serverUsage = [KSecret, KConfigMap, KService, KDeployment, KJob, KPDB, KNetworkPolicy,
     KTCPRoute, KUDPRoute, KHTTPRoute, KUnstructured ClusterGVK, KUnstructured PodMonitorGVK]"
  "updates serverUsage = [KServer, KSecret, KConfigMap, KService, KDeployment, KNetworkPolicy,
     KTCPRoute, KUDPRoute, KHTTPRoute]"
  "deletes serverUsage = [KService, KJob, KPDB, KNetworkPolicy, KTCPRoute, KUDPRoute, KHTTPRoute,
     KUnstructured PodMonitorGVK]"
  "statuses serverUsage = [KServer]"
  by (simp_all add: serverUsage_def)

lemma usage_createIfMissing [calls_intros]:
  "kind_of x \<in> set (reads u) \<Longrightarrow> kind_of x \<in> set (creates u) \<Longrightarrow> calls_only (within u) (createIfMissing x)"
  by (rule calls_createIfMissing) simp_all

lemma setOwner_kind: "setOwner X ow ns x = Inr x' \<Longrightarrow> kind_of x' = kind_of x"
  by (auto simp: setOwner_def split: sum.splits)

lemma usage_ensureOwned [calls_intros]:
  "kind_of x \<in> set (reads u) \<Longrightarrow> kind_of x \<in> set (creates u) \<Longrightarrow> calls_only (within u) (ensureOwned X s x)"
  by (auto simp: ensureOwned_def dest: setOwner_kind intro!: calls_intros split: sum.split)

lemma usage_ensureUnstructured [calls_intros]:
  "KUnstructured (un_GVK o') \<in> set (reads u) \<Longrightarrow> KUnstructured (un_GVK o') \<in> set (creates u) \<Longrightarrow>
   calls_only (within u) (ensureUnstructured X s o')"
  by (auto simp: ensureUnstructured_def dest: setOwner_kind intro!: calls_intros split: sum.split)

lemma usage_server_updateService:
  assumes "retry_laws X"
  shows "calls_only (within serverUsage) (server_updateService X s svc)"
  using assms by (auto simp: server_updateService_def intro!: usage_updateService calls_intros split: sum.split)

lemma usage_server_updateConfigMap:
  assumes "retry_laws X"
  shows "calls_only (within serverUsage) (server_updateConfigMap X s cm)"
  using assms by (auto simp: server_updateConfigMap_def updateConfigMap_def storeConfigMap_def
      intro!: calls_only_retry calls_intros split: sum.split)

lemma usage_secrets [calls_intros]:
  "calls_only (within serverUsage) (ensureAPIKey X s)"
  "calls_only (within serverUsage) (writeBackendSecret X s host port user password database)"
  by (auto simp: ensureAPIKey_def createAPIKey_def randomHex_def writeBackendSecret_def storeSecret_def Let_def
      dest: setOwner_kind intro!: calls_intros split: sum.split)

lemma usage_materialise [calls_intros]:
  "calls_only (within serverUsage) (materialiseCNPGBackendSecret X s cluster)"
  "calls_only (within serverUsage) (materialiseBYOBackendSecret X s byo)"
  unfolding materialiseCNPGBackendSecret_def materialiseBYOBackendSecret_def Let_def
  by (intro calls_intros; simp)+

lemma usage_additional:
  assumes "retry_laws X"
  shows "calls_only (within serverUsage) (reconcileAdditionalDNSServices X s)"
  unfolding reconcileAdditionalDNSServices_def Let_def
  by (intro calls_intros usage_server_updateService assms) simp_all

lemma usage_optional [calls_intros]:
  "calls_only (within serverUsage) (reconcileObservability X s)"
  "calls_only (within serverUsage) (reconcileNetworkPolicy X s)"
  "calls_only (within serverUsage) (ensureBudget X s)"
  unfolding reconcileObservability_def reconcileNetworkPolicy_def ensureBudget_def Let_def
  by (intro calls_intros; simp add: PodMonitor_def Let_def)+

lemma usage_routes [calls_intros]: "calls_only (within serverUsage) (reconcileRoutes X s)"
  unfolding reconcileRoutes_def reconcileDNSRoutes_def ensureTCPRoute_def ensureHTTPRoute_def Let_def
  by (intro calls_intros; simp)

lemma usage_computeConfigHash [calls_intros]: "calls_only (within serverUsage) (computeConfigHash s cm)"
  unfolding computeConfigHash_def hashedSecrets_def Let_def by (intro calls_intros; simp)

lemma usage_workload:
  assumes "retry_laws X"
  shows "calls_only (within serverUsage) (ensureWorkload X s)"
    and "calls_only (within serverUsage) (reconcileDrift X s)"
  unfolding ensureWorkload_def reconcileDrift_def createWorkload_def convergeWorkload_def updateDeployment_def Let_def
  by (intro calls_intros usage_server_updateConfigMap usage_server_updateService usage_additional assms; simp)+

lemma usage_status [calls_intros]:
  "calls_only (within serverUsage) (setPhase s p)" "calls_only (within serverUsage) (setFailed X s msg)"
  "calls_only (within serverUsage) (storeEndpoint s ep)"
  unfolding setPhase_def setFailed_def storeEndpoint_def by (intro calls_intros; simp)+

lemma usage_schema: "calls_only (within serverUsage) (phaseInitializingSchema X s)"
  by (auto simp: phaseInitializingSchema_def createSchemaJob_def replaceSchemaJob_def dest: setOwner_kind
      intro!: calls_intros split: sum.split option.split)

lemma usage_server:
  assumes "retry_laws X"
  shows "calls_only (within serverUsage) (server_Reconcile X key)"
proof -
  have "calls_only (within serverUsage) (phasePending X s)" for s
    unfolding phasePending_def Let_def by (intro calls_intros) simp_all
  moreover have "calls_only (within serverUsage) (phaseProvisioningBackend X s)" for s
    unfolding phaseProvisioningBackend_def provisionBYO_def provisionCNPG_def cnpgClusterReady_def Let_def
    by (intro calls_intros; simp add: Cluster_def Let_def)
  moreover have "calls_only (within serverUsage) (phaseDeployingServer X s)" for s
    unfolding phaseDeployingServer_def by (intro calls_intros usage_workload assms) simp_all
  moreover have "calls_only (within serverUsage) (phaseExposingDNS X s)" for s
    unfolding phaseExposingDNS_def exposeDNS_def getDNSService_def Let_def by (intro calls_intros; simp)
  moreover have "calls_only (within serverUsage) (phaseReady X s)" for s
    unfolding phaseReady_def warnExtraSettings_def refreshDNSEndpoint_def refreshLoadBalancer_def getDNSService_def
      refreshReplicaStatus_def announceReady_def Let_def
    by (intro calls_intros usage_workload assms; simp)
  ultimately have "calls_only (within serverUsage) (server_body X s)" for s
    unfolding server_body_def Let_def by (intro calls_intros usage_schema)
  then show ?thesis
    unfolding server_Reconcile_def server_reconcileDelete_def server_protect_def by (intro calls_intros) simp_all
qed

section \<open>Confined reconcilers\<close>

text \<open>
  The interface between a reconciler and the configuration of the operator: a program that stays
  inside its table.  What its clients need follows once for all four reconcilers.
\<close>

fun kindsIn :: "req \<Rightarrow> kind list" where
  "kindsIn (KGet k n) = [k]"
| "kindsIn (KCreate x) = [kind_of x]"
| "kindsIn (KUpdate x) = [kind_of x]"
| "kindsIn (KStatusUpdate x) = [kind_of x]"
| "kindsIn (KDelete k n) = [k]"
| "kindsIn (KListByIndex k i v) = [k]"
| "kindsIn (KListByLabels k n ls) = [k]"
| "kindsIn (KCreateOrUpdate x) = [kind_of x]"
| "kindsIn q = []"

definition kindsWritten :: "usage \<Rightarrow> kind list" where
  "kindsWritten u = creates u @ updates u @ deletes u @ statuses u"

locale confined =
  fixes program :: "ext \<Rightarrow> NamespacedName \<Rightarrow> reconcile" and u :: usage
  assumes inside: "retry_laws X \<Longrightarrow> calls_only (within u) (program X key)"
begin

lemma requests_within:
  "retry_laws X \<Longrightarrow> exec (program X key) tr res \<Longrightarrow> (q, r) \<in> set tr \<Longrightarrow> within u q"
  by (rule calls_only_exec [OF _ inside])

lemma writes_listed:
  assumes "retry_laws X" "exec (program X key) tr res" "(q, r) \<in> set tr"
    and "is_kube_write q" "k \<in> set (kindsIn q)"
  shows "k \<in> set (kindsWritten u)"
  using requests_within [OF assms(1-3)] assms(4,5) by (cases q) (simp_all add: kindsWritten_def)

lemma lists_indexed:
  assumes "retry_laws X" "exec (program X key) tr res" "(KListByIndex k i v, r) \<in> set tr"
  shows "(k, i) \<in> set (indexes u)"
  using requests_within [OF assms] by simp

end

interpretation server_use: confined server_Reconcile serverUsage
  by unfold_locales (rule usage_server)

interpretation zone_use: confined zone_Reconcile zoneUsage
  by unfold_locales (rule usage_zone)

interpretation rrset_use: confined rrset_Reconcile rrsetUsage
  by unfold_locales (rule usage_rrset)

interpretation dnsdist_use: confined dnsdist_Reconcile dnsdistUsage
  by unfold_locales (rule usage_dnsdist)

end
