(* ===== verification/Operator.thy ===== *)
theory Operator
  imports Api_Usage
begin

text \<open>
  The operator process: \<open>cmd/operator/main.go\<close>, the \<open>SetupWithManager\<close> methods of the four
  reconcilers and their watches.

  \<open>operator\<close> is a program over the calls the process makes to controller-runtime while it
  starts.  A registration holds what the builder chain of a \<open>SetupWithManager\<close> passes on: the
  kind it reconciles (\<open>For\<close>), the kinds whose changes are mapped to their owner (\<open>Owns\<close>), the
  kinds with a mapping function of their own (\<open>Watches\<close>) and the \<open>Reconcile\<close> method itself.
\<close>

section \<open>Calls to the manager\<close>

datatype package = ClientGoScheme | DNSv1alpha1 | GatewayV1alpha2 | GatewayV1

text \<open>\<open>ctrl.Options\<close>: the fields \<open>main\<close> sets, and the metrics address it leaves unset.\<close>

record Options =
  opt_Scheme :: "package list"
  opt_HealthProbeBindAddress :: string
  opt_MetricsBindAddress :: string

record Registration =
  reg_For :: kind
  reg_Owns :: "kind list"
  reg_Watches :: "(kind \<times> (kobj \<Rightarrow> NamespacedName list kio)) list"
  reg_Reconcile :: "NamespacedName \<Rightarrow> reconcile"

datatype mcall =
    AddToScheme package
  | GetConfig
  | NewManager Options
  | IndexField kind string "kobj \<Rightarrow> string list"
  | NewController Registration
  | AddHealthzCheck string
  | AddReadyzCheck string
  | StartManager

datatype mresp = MOk | MErr error

type_synonym 'a mio = "(mcall, mresp, 'a) io"

definition mdo :: "mcall \<Rightarrow> (error + unit) mio" where
  "mdo c = andThen (call c) (\<lambda>r. Return (case r of MOk \<Rightarrow> Inr () | MErr e \<Rightarrow> Inl e))"

section \<open>Controllers\<close>

definition serverRegistration :: "ext \<Rightarrow> Registration" where
  "serverRegistration X = \<lparr>reg_For = KServer,
     reg_Owns = [KDeployment, KService, KSecret, KConfigMap, KJob, KPDB, KNetworkPolicy],
     reg_Watches = [], reg_Reconcile = server_Reconcile X\<rparr>"

definition server_SetupWithManager :: "ext \<Rightarrow> (error + unit) mio" where
  "server_SetupWithManager X = mdo (NewController (serverRegistration X))"

text \<open>
  The index functions assert the type of their argument; the indexer calls them with objects of
  the indexed kind only.
\<close>

fun zoneIndexFunc :: "kobj \<Rightarrow> string list" where
  "zoneIndexFunc (ObjZone z) = zoneIndexKeys z"
| "zoneIndexFunc x = []"

fun rrsetIndexFunc :: "kobj \<Rightarrow> string list" where
  "rrsetIndexFunc (ObjRRSet rr) = rrsetIndexKeys rr"
| "rrsetIndexFunc x = []"

fun dnsdistIndexFunc :: "kobj \<Rightarrow> string list" where
  "dnsdistIndexFunc (ObjDNSDist d) = dnsdistIndexKeys d"
| "dnsdistIndexFunc x = []"

text \<open>\<open>dnsdistsForServer\<close> reads nothing of its argument but the name and the namespace.\<close>

fun dnsdistsFor :: "kobj \<Rightarrow> NamespacedName list kio" where
  "dnsdistsFor (ObjServer s) = dnsdistsForServer s"
| "dnsdistsFor x = Return []"

definition zoneRegistration :: "ext \<Rightarrow> Registration" where
  "zoneRegistration X = \<lparr>reg_For = KZone, reg_Owns = [],
     reg_Watches = [(KServer, \<lambda>x. zonesForServer (obj_meta x))], reg_Reconcile = zone_Reconcile X\<rparr>"

definition zone_SetupWithManager :: "ext \<Rightarrow> (error + unit) mio" where
  "zone_SetupWithManager X =
     tryIO (mdo (IndexField KZone zoneServerIndex zoneIndexFunc))
       (\<lambda>_. mdo (NewController (zoneRegistration X)))"

definition rrsetRegistration :: "ext \<Rightarrow> Registration" where
  "rrsetRegistration X = \<lparr>reg_For = KRRSet, reg_Owns = [],
     reg_Watches = [(KZone, \<lambda>x. rrsetsForZone (obj_meta x))], reg_Reconcile = rrset_Reconcile X\<rparr>"

definition rrset_SetupWithManager :: "ext \<Rightarrow> (error + unit) mio" where
  "rrset_SetupWithManager X =
     tryIO (mdo (IndexField KRRSet rrsetZoneIndex rrsetIndexFunc))
       (\<lambda>_. mdo (NewController (rrsetRegistration X)))"

definition dnsdistRegistration :: "ext \<Rightarrow> Registration" where
  "dnsdistRegistration X = \<lparr>reg_For = KDNSDist,
     reg_Owns = [KDeployment, KService, KConfigMap, KPDB],
     reg_Watches = [(KServer, dnsdistsFor)], reg_Reconcile = dnsdist_Reconcile X\<rparr>"

definition dnsdist_SetupWithManager :: "ext \<Rightarrow> (error + unit) mio" where
  "dnsdist_SetupWithManager X =
     tryIO (mdo (IndexField KDNSDist dnsdistBackendIndex dnsdistIndexFunc))
       (\<lambda>_. mdo (NewController (dnsdistRegistration X)))"

section \<open>The process\<close>

datatype exitStatus = Exited nat | Panicked

text \<open>\<open>utilruntime.Must\<close> panics on an error, \<open>main\<close> logs it and exits with status 1.\<close>

definition must :: "(error + unit) mio \<Rightarrow> exitStatus mio \<Rightarrow> exitStatus mio" where
  "must p k = andThen p (\<lambda>r. case r of Inl e \<Rightarrow> Return Panicked | Inr _ \<Rightarrow> k)"

definition orExit :: "(error + unit) mio \<Rightarrow> exitStatus mio \<Rightarrow> exitStatus mio" where
  "orExit p k = andThen p (\<lambda>r. case r of Inl e \<Rightarrow> Return (Exited 1) | Inr _ \<Rightarrow> k)"

text \<open>Command line flags as name and value, in order; the last occurrence counts.\<close>

definition flagValue :: "(string \<times> string) list \<Rightarrow> string \<Rightarrow> string \<Rightarrow> string" where
  "flagValue args name def = (case map_of (rev args) name of None \<Rightarrow> def | Some v \<Rightarrow> v)"

definition scheme :: "package list" where
  "scheme = [ClientGoScheme, DNSv1alpha1, GatewayV1alpha2, GatewayV1]"

definition operator_init :: "exitStatus mio \<Rightarrow> exitStatus mio" where
  "operator_init k = foldr (\<lambda>p. must (mdo (AddToScheme p))) scheme k"

text \<open>The reconcilers get the manager's client and an event recorder.\<close>

definition withRecorder :: "ext \<Rightarrow> ext" where
  "withRecorder X = X\<lparr>Recorder := True\<rparr>"

definition main_options :: "(string \<times> string) list \<Rightarrow> Options" where
  "main_options args =
     (let metricsAddr = flagValue args ''metrics-bind-address'' '':8080'';
          probeAddr = flagValue args ''health-probe-bind-address'' '':8081'' in
      \<lparr>opt_Scheme = scheme, opt_HealthProbeBindAddress = probeAddr, opt_MetricsBindAddress = []\<rparr>)"

definition operator_main :: "ext \<Rightarrow> (string \<times> string) list \<Rightarrow> exitStatus mio" where
  "operator_main X args =
     (let r = withRecorder X in
      orExit (mdo GetConfig)
      (orExit (mdo (NewManager (main_options args)))
      (orExit (server_SetupWithManager r)
      (orExit (zone_SetupWithManager r)
      (orExit (rrset_SetupWithManager r)
      (orExit (dnsdist_SetupWithManager r)
      (orExit (mdo (AddHealthzCheck ''healthz''))
      (orExit (mdo (AddReadyzCheck ''readyz''))
      (orExit (mdo StartManager)
      (Return (Exited 0)))))))))))"

definition operator :: "ext \<Rightarrow> (string \<times> string) list \<Rightarrow> exitStatus mio" where
  "operator X args = operator_init (operator_main X args)"

section \<open>Starting up\<close>

fun controllersOf :: "mcall list \<Rightarrow> Registration list" where
  "controllersOf [] = []"
| "controllersOf (NewController c # qs) = c # controllersOf qs"
| "controllersOf (q # qs) = controllersOf qs"

fun indexesOf :: "mcall list \<Rightarrow> (kind \<times> string) list" where
  "indexesOf [] = []"
| "indexesOf (IndexField k i f # qs) = (k, i) # indexesOf qs"
| "indexesOf (q # qs) = indexesOf qs"

fun packagesOf :: "mcall list \<Rightarrow> package list" where
  "packagesOf [] = []"
| "packagesOf (AddToScheme p # qs) = p # packagesOf qs"
| "packagesOf (q # qs) = packagesOf qs"

definition registrations :: "ext \<Rightarrow> Registration list" where
  "registrations X = map (\<lambda>f. f (withRecorder X))
     [serverRegistration, zoneRegistration, rrsetRegistration, dnsdistRegistration]"

text \<open>
  The process as one sequence of calls, each with the way it ends if that call fails.
\<close>

fun steps :: "(exitStatus \<times> mcall) list \<Rightarrow> exitStatus mio" where
  "steps [] = Return (Exited 0)"
| "steps ((stop, c) # cs) = Call c (\<lambda>r. case r of MOk \<Rightarrow> steps cs | MErr e \<Rightarrow> Return stop)"

definition startup :: "ext \<Rightarrow> (string \<times> string) list \<Rightarrow> (exitStatus \<times> mcall) list" where
  "startup X args = map (\<lambda>p. (Panicked, AddToScheme p)) scheme @
     map (Pair (Exited 1))
      [GetConfig, NewManager (main_options args),
       NewController (serverRegistration (withRecorder X)),
       IndexField KZone zoneServerIndex zoneIndexFunc, NewController (zoneRegistration (withRecorder X)),
       IndexField KRRSet rrsetZoneIndex rrsetIndexFunc, NewController (rrsetRegistration (withRecorder X)),
       IndexField KDNSDist dnsdistBackendIndex dnsdistIndexFunc,
       NewController (dnsdistRegistration (withRecorder X)),
       AddHealthzCheck ''healthz'', AddReadyzCheck ''readyz'', StartManager]"

lemma must_mdo: "must (mdo c) k = Call c (\<lambda>r. case r of MOk \<Rightarrow> k | MErr e \<Rightarrow> Return Panicked)"
  by (auto simp: must_def mdo_def fun_eq_iff split: mresp.splits)

lemma orExit_mdo: "orExit (mdo c) k = Call c (\<lambda>r. case r of MOk \<Rightarrow> k | MErr e \<Rightarrow> Return (Exited 1))"
  by (auto simp: orExit_def mdo_def fun_eq_iff split: mresp.splits)

lemma orExit_tryIO: "orExit (tryIO p (\<lambda>_. q)) k = orExit p (orExit q k)"
  unfolding orExit_def tryIO_def andThen_assoc
  by (rule arg_cong [where f = "andThen p"]) (auto simp: fun_eq_iff split: sum.splits)

lemma operator_steps: "operator X args = steps (startup X args)"
  unfolding operator_def operator_init_def operator_main_def startup_def scheme_def Let_def
    server_SetupWithManager_def zone_SetupWithManager_def rrset_SetupWithManager_def
    dnsdist_SetupWithManager_def orExit_tryIO
  by (simp add: must_mdo orExit_mdo del: One_nat_def)

lemma exec_steps:
  assumes "exec (steps cs) tr out"
  shows "tr = map (\<lambda>c. (snd c, MOk)) cs \<and> out = Exited 0 \<or>
    (\<exists>before stop c after e. cs = before @ (stop, c) # after \<and>
      tr = map (\<lambda>c. (snd c, MOk)) before @ [(c, MErr e)] \<and> out = stop)"
  using assms
proof (induction cs arbitrary: tr rule: steps.induct)
  case 1
  then show ?case by simp
next
  case (2 stop c cs)
  from "2.prems" obtain r t where tr: "tr = (c, r) # t"
    and t: "exec (case r of MOk \<Rightarrow> steps cs | MErr e \<Rightarrow> Return stop) t out"
    by (auto simp: exec_Call_iff)
  show ?case
  proof (cases r)
    case MOk
    with t have "exec (steps cs) t out" by simp
    then consider "t = map (\<lambda>c. (snd c, MOk)) cs" "out = Exited 0"
      | before stop' c' after e where "cs = before @ (stop', c') # after"
        "t = map (\<lambda>c. (snd c, MOk)) before @ [(c', MErr e)]" "out = stop'"
      using "2.IH" by blast
    then show ?thesis
    proof cases
      case 1
      with tr MOk show ?thesis by simp
    next
      case 2
      with tr MOk have "(stop, c) # cs = ((stop, c) # before) @ (stop', c') # after \<and>
        tr = map (\<lambda>c. (snd c, MOk)) ((stop, c) # before) @ [(c', MErr e)] \<and> out = stop'" by simp
      then show ?thesis by blast
    qed
  next
    case (MErr e)
    with t tr have "(stop, c) # cs = [] @ (stop, c) # cs \<and>
      tr = map (\<lambda>c. (snd c, MOk)) [] @ [(c, MErr e)] \<and> out = stop" by simp
    then show ?thesis by blast
  qed
qed

text \<open>Everything before the start.\<close>

definition preparation :: "ext \<Rightarrow> (string \<times> string) list \<Rightarrow> (exitStatus \<times> mcall) list" where
  "preparation X args = butlast (startup X args)"

lemma startup_split: "startup X args = preparation X args @ [(Exited 1, StartManager)]"
  by (simp add: startup_def preparation_def scheme_def)

text \<open>What has to be in place when the manager starts.\<close>

definition prepared :: "ext \<Rightarrow> mcall list \<Rightarrow> bool" where
  "prepared X qs \<longleftrightarrow>
     packagesOf qs = [ClientGoScheme, DNSv1alpha1, GatewayV1alpha2, GatewayV1] \<and>
     controllersOf qs = registrations X \<and>
     indexesOf qs = [(KZone, zoneServerIndex), (KRRSet, rrsetZoneIndex), (KDNSDist, dnsdistBackendIndex)] \<and>
     AddHealthzCheck ''healthz'' \<in> set qs \<and> AddReadyzCheck ''readyz'' \<in> set qs"

lemma preparation_calls:
  "StartManager \<notin> snd ` set (preparation X args)"
  "prepared X (map snd (preparation X args))"
  by (simp_all add: startup_def scheme_def registrations_def preparation_def prepared_def)

lemma preparation_stops: "(stop, c) \<in> set (preparation X args) \<Longrightarrow> stop \<noteq> Exited 0"
  by (auto simp: startup_def scheme_def preparation_def)

lemma operator_runs:
  assumes "exec (operator X args) tr out"
  obtains (started) r where "tr = map (\<lambda>c. (snd c, MOk)) (preparation X args) @ [(StartManager, r)]"
      "out = (case r of MOk \<Rightarrow> Exited 0 | MErr e \<Rightarrow> Exited 1)"
  | (stopped) before stop c after e where "preparation X args = before @ (stop, c) # after"
      "tr = map (\<lambda>c. (snd c, MOk)) before @ [(c, MErr e)]" "out = stop" "stop \<noteq> Exited 0"
proof -
  from exec_steps [OF assms [unfolded operator_steps startup_split]] consider
    "tr = map (\<lambda>c. (snd c, MOk)) (preparation X args @ [(Exited 1, StartManager)])" "out = Exited 0"
    | before stop c after e where
      "preparation X args @ [(Exited 1, StartManager)] = before @ (stop, c) # after"
      "tr = map (\<lambda>c. (snd c, MOk)) before @ [(c, MErr e)]" "out = stop"
    by blast
  then show thesis
  proof cases
    case 1
    then show thesis by (intro started [of MOk]) simp_all
  next
    case 2
    show thesis
    proof (cases after rule: rev_cases)
      case Nil
      with 2 show thesis by (intro started [of "MErr e"]) simp_all
    next
      case (snoc after' x)
      with 2(1) have prep: "preparation X args = before @ (stop, c) # after'" by simp
      then have "stop \<noteq> Exited 0" using preparation_stops [of stop c X args] by simp
      with prep 2 show thesis by (intro stopped)
    qed
  qed
qed

text \<open>
  C?: The operator starts completely or not at all.  The first call that fails is the last one
  and the process does not exit with status 0; the manager is started only after every other
  call succeeded, and then all four API packages are in the scheme, the four controllers are
  registered in order and so are the three indexes and both health checks.
\<close>
theorem operator_starts_complete:
  assumes "exec (operator X args) tr out"
  shows "(\<forall>q e. (q, MErr e) \<in> set tr \<longrightarrow> out \<noteq> Exited 0 \<and>
      (\<exists>t. tr = t @ [(q, MErr e)] \<and> (\<forall>(q', r') \<in> set t. r' = MOk))) \<and>
    (\<forall>r. (StartManager, r) \<in> set tr \<longrightarrow>
      (\<exists>t. tr = t @ [(StartManager, r)] \<and> (\<forall>(q', r') \<in> set t. r' = MOk) \<and> prepared X (map fst t)) \<and>
      (out = Exited 0 \<longleftrightarrow> r = MOk))"
  using assms
proof (cases rule: operator_runs)
  case (started r)
  define t where "t = map (\<lambda>c. (snd c, MOk)) (preparation X args)"
  have "map fst t = map snd (preparation X args)" by (simp add: t_def)
  then have prep: "prepared X (map fst t)" by (simp add: preparation_calls)
  have ok: "r' = MOk \<and> q \<noteq> StartManager" if "(q, r') \<in> set t" for q r'
    using that preparation_calls(1) [of X args] by (force simp: t_def)
  have tr: "tr = t @ [(StartManager, r)]" by (simp add: started t_def)
  have err: "tr = t @ [(q, MErr e)] \<and> r = MErr e" if "(q, MErr e) \<in> set tr" for q e
    using that ok by (auto simp: tr)
  have start: "r' = r" if "(StartManager, r') \<in> set tr" for r' using that ok by (auto simp: tr)
  have all: "\<forall>(q', r') \<in> set t. r' = MOk" using ok by auto
  show ?thesis
  proof (intro conjI allI impI)
    fix q e
    assume "(q, MErr e) \<in> set tr"
    from err [OF this] show "out \<noteq> Exited 0" by (simp add: started)
    from err [OF \<open>(q, MErr e) \<in> set tr\<close>] all
    show "\<exists>t. tr = t @ [(q, MErr e)] \<and> (\<forall>(q', r') \<in> set t. r' = MOk)" by blast
  next
    fix r'
    assume "(StartManager, r') \<in> set tr"
    from start [OF this] have r': "r' = r" .
    from tr all prep show "\<exists>t. tr = t @ [(StartManager, r')] \<and> (\<forall>(q', r') \<in> set t. r' = MOk) \<and>
      prepared X (map fst t)" unfolding r' by blast
    show "out = Exited 0 \<longleftrightarrow> r' = MOk" unfolding r' started(2) by (simp split: mresp.splits)
  qed
next
  case (stopped before stop c after e)
  then have "StartManager \<notin> snd ` set before" "c \<noteq> StartManager"
    using preparation_calls(1) [of X args] by auto
  with stopped show ?thesis by force
qed

lemma exec_steps_all: "exec (steps cs) (map (\<lambda>c. (snd c, MOk)) cs) (Exited 0)"
  by (induction cs rule: steps.induct) (auto intro!: exec.intros)

theorem operator_starts_complete_witness:
  "\<exists>tr t. exec (operator refExt [(''health-probe-bind-address'', '':9'')]) tr (Exited 0) \<and>
     tr = t @ [(StartManager, MOk)] \<and> prepared refExt (map fst t)"
proof -
  define args where "args = [(''health-probe-bind-address'', '':9'')]"
  define tr where "tr = map (\<lambda>c. (snd c, MOk)) (startup refExt args)"
  have run: "exec (operator refExt args) tr (Exited 0)"
    unfolding operator_steps tr_def by (rule exec_steps_all)
  have "(StartManager, MOk) \<in> set tr" by (simp add: tr_def startup_split)
  with operator_starts_complete [OF run] obtain t where "tr = t @ [(StartManager, MOk)]" "prepared refExt (map fst t)"
    by blast
  with run show ?thesis unfolding args_def by blast
qed

text \<open>
  The flag \<open>--metrics-bind-address\<close> is parsed and then dropped: the process behaves the same
  whatever it says.
\<close>

lemma metrics_address_ignored:
  "operator X (args @ [(''metrics-bind-address'', v)]) = operator X args"
  by (simp add: operator_def operator_main_def main_options_def flagValue_def)

section \<open>What a running operator asks for is there\<close>

text \<open>The API package that has the Go type of a kind; unstructured objects need none.\<close>

fun packageOf :: "kind \<Rightarrow> package option" where
  "packageOf KServer = Some DNSv1alpha1"
| "packageOf KZone = Some DNSv1alpha1"
| "packageOf KRRSet = Some DNSv1alpha1"
| "packageOf KDNSDist = Some DNSv1alpha1"
| "packageOf KTCPRoute = Some GatewayV1alpha2"
| "packageOf KUDPRoute = Some GatewayV1alpha2"
| "packageOf KHTTPRoute = Some GatewayV1"
| "packageOf (KUnstructured g) = None"
| "packageOf k = Some ClientGoScheme"

definition served :: "package list \<Rightarrow> (kind \<times> string) list \<Rightarrow> req \<Rightarrow> bool" where
  "served ps ixs q \<longleftrightarrow>
     (\<forall>k \<in> set (kindsIn q). \<forall>p. packageOf k = Some p \<longrightarrow> p \<in> set ps) \<and>
     (\<forall>k i v. q = KListByIndex k i v \<longrightarrow> (k, i) \<in> set ixs)"

lemma packageOf_scheme: "packageOf k = Some p \<Longrightarrow> p \<in> set scheme"
  by (cases p) (simp_all add: scheme_def)

text \<open>The table of a registered controller, found by the kind it reconciles.\<close>

fun usageOf :: "kind \<Rightarrow> usage" where
  "usageOf KServer = serverUsage"
| "usageOf KZone = zoneUsage"
| "usageOf KRRSet = rrsetUsage"
| "usageOf k = dnsdistUsage"

lemma registered_confined:
  assumes "retry_laws X" "c \<in> set (registrations X)"
  shows "confined (\<lambda>_. reg_Reconcile c) (usageOf (reg_For c))"
proof -
  have X: "retry_laws (withRecorder X)" using assms(1) by (simp add: retry_laws_def withRecorder_def)
  from assms(2) show ?thesis
    by (auto simp: registrations_def serverRegistration_def zoneRegistration_def rrsetRegistration_def
        dnsdistRegistration_def confined_def server_use.inside [OF X] zone_use.inside [OF X]
        rrset_use.inside [OF X] dnsdist_use.inside [OF X])
qed

lemmas registered_within = confined.requests_within [OF registered_confined]
  and registered_writes = confined.writes_listed [OF registered_confined]
  and registered_lists = confined.lists_indexed [OF registered_confined]

lemma registered_cases:
  assumes "c \<in> set (registrations X)"
  obtains "c = serverRegistration (withRecorder X)" "usageOf (reg_For c) = serverUsage"
  | "c = zoneRegistration (withRecorder X)" "usageOf (reg_For c) = zoneUsage"
  | "c = rrsetRegistration (withRecorder X)" "usageOf (reg_For c) = rrsetUsage"
  | "c = dnsdistRegistration (withRecorder X)" "usageOf (reg_For c) = dnsdistUsage"
  using assms that
  by (auto simp: registrations_def serverRegistration_def zoneRegistration_def rrsetRegistration_def
      dnsdistRegistration_def)

definition watch_indexes :: "(kind \<times> string) list" where
  "watch_indexes = [(KZone, zoneServerIndex), (KRRSet, rrsetZoneIndex), (KDNSDist, dnsdistBackendIndex)]"

lemma served_iff:
  "served scheme watch_indexes q \<longleftrightarrow> (\<forall>k i v. q = KListByIndex k i v \<longrightarrow> (k, i) \<in> set watch_indexes)"
  using packageOf_scheme by (auto simp: served_def)

lemma usage_indexes:
  assumes "c \<in> set (registrations X)"
  shows "set (indexes (usageOf (reg_For c))) \<subseteq> set watch_indexes"
  using assms by (cases rule: registered_cases)
    (simp_all add: watch_indexes_def serverUsage_def zoneUsage_def dnsdistUsage_def)

text \<open>The watch functions only list by their index.\<close>

lemma watches_indexed:
  assumes "c \<in> set (registrations X)" "(k, f) \<in> set (reg_Watches c)"
  shows "calls_only (\<lambda>q. \<exists>k i v. q = KListByIndex k i v \<and> (k, i) \<in> set watch_indexes) (f x)"
proof -
  have "calls_only (\<lambda>q. \<exists>k i v. q = KListByIndex k i v \<and> (k, i) \<in> set watch_indexes) (dnsdistsFor x)"
    by (cases x) (simp_all add: dnsdistsForServer_def watch_indexes_def calls_intros)
  then show ?thesis
    using assms
    by (auto simp: registrations_def serverRegistration_def zoneRegistration_def rrsetRegistration_def
        dnsdistRegistration_def zonesForServer_def rrsetsForZone_def watch_indexes_def intro!: calls_intros)
qed

lemma calls_append [simp]:
  "packagesOf (qs @ qs') = packagesOf qs @ packagesOf qs'"
  "controllersOf (qs @ qs') = controllersOf qs @ controllersOf qs'"
  "indexesOf (qs @ qs') = indexesOf qs @ indexesOf qs'"
  by (induction qs rule: packagesOf.induct) (simp_all)

lemma running_operator:
  assumes "exec (operator X args) tr out" "(StartManager, r) \<in> set tr"
  shows "controllersOf (map fst tr) = registrations X \<and> packagesOf (map fst tr) = scheme \<and>
    indexesOf (map fst tr) = watch_indexes"
  using assms(1)
proof (cases rule: operator_runs)
  case (started r')
  have "map fst tr = map snd (preparation X args) @ [StartManager]" by (simp add: started)
  then show ?thesis
    using preparation_calls(2) [of X args] by (simp add: prepared_def scheme_def watch_indexes_def)
next
  case (stopped before stop c after e)
  then have "StartManager \<notin> snd ` set before" "c \<noteq> StartManager"
    using preparation_calls(1) [of X args] by auto
  with stopped(2) assms(2) show ?thesis by force
qed


lemma refExt_retry: "retry_laws refExt"
  using refExt_laws by (simp add: ext_laws_def)


section \<open>Watches\<close>

text \<open>
  A change of the object \<open>(k, key)\<close> concerns the objects whose reference resolves to it, the way
  their reconcilers resolve it.
\<close>

fun refersTo :: "kobj \<Rightarrow> kind \<Rightarrow> NamespacedName \<Rightarrow> bool" where
  "refersTo (ObjZone z) k key \<longleftrightarrow> k = KServer \<and> serverKeyFor z = key"
| "refersTo (ObjRRSet rr) k key \<longleftrightarrow> k = KZone \<and> zoneKeyFor rr = key"
| "refersTo (ObjDNSDist d) k key \<longleftrightarrow> k = KServer \<and>
     (\<exists>ref \<in> set (ds_BackendRefs (dd_Spec d)).
        (if ref_Namespace ref = [] then om_Namespace (dd_Meta d) else ref_Namespace ref, ref_Name ref) = key)"
| "refersTo x k key \<longleftrightarrow> False"

text \<open>The namespaces an object mentions have no slash, as Kubernetes requires of every name.\<close>

definition noSlash :: "string \<Rightarrow> bool" where
  "noSlash s \<longleftrightarrow> CHR ''/'' \<notin> set s"

fun slashFree :: "kobj \<Rightarrow> bool" where
  "slashFree (ObjZone z) \<longleftrightarrow> noSlash (fst (serverKeyFor z))"
| "slashFree (ObjRRSet rr) \<longleftrightarrow> noSlash (fst (zoneKeyFor rr))"
| "slashFree (ObjDNSDist d) \<longleftrightarrow> noSlash (om_Namespace (dd_Meta d)) \<and>
     (\<forall>ref \<in> set (ds_BackendRefs (dd_Spec d)). noSlash (ref_Namespace ref))"
| "slashFree x \<longleftrightarrow> True"

text \<open>
  How a list by index is answered from the objects in the cache: those of the kind for which the
  registered index function yields the value.
\<close>

definition indexFunc :: "kobj \<Rightarrow> string list" where
  "indexFunc x = zoneIndexFunc x @ rrsetIndexFunc x @ dnsdistIndexFunc x"

fun cache_answer :: "kobj list \<Rightarrow> req \<Rightarrow> resp \<Rightarrow> bool" where
  "cache_answer cache (KListByIndex k i v) r \<longleftrightarrow>
     r = RList (filter (\<lambda>x. kind_of x = k \<and> v \<in> set (indexFunc x)) cache)"
| "cache_answer cache q r \<longleftrightarrow> True"

lemma showKey_inj:
  assumes "noSlash (fst k)" "noSlash (fst k')"
  shows "showKey k = showKey k' \<longleftrightarrow> k = k'"
proof
  assume "showKey k = showKey k'"
  then have "fst k @ CHR ''/'' # snd k = fst k' @ CHR ''/'' # snd k'" by (simp add: showKey_def)
  moreover from this have "takeWhile (\<lambda>c. c \<noteq> CHR ''/'') (fst k @ CHR ''/'' # snd k) =
      takeWhile (\<lambda>c. c \<noteq> CHR ''/'') (fst k' @ CHR ''/'' # snd k')" by simp
  then have "fst k = fst k'"
    using assms by (subst (asm) (1 2) takeWhile_append2) (auto simp: noSlash_def)
  ultimately show "k = k'" by (simp add: prod_eq_iff)
qed simp

lemma refKey_showKey:
  "refKey ref ns = showKey (if ref_Namespace ref = [] then ns else ref_Namespace ref, ref_Name ref)"
  by (simp add: refKey_def showKey_def Let_def)

lemma index_refersTo:
  assumes "slashFree x" "noSlash (fst key)"
  shows "kind_of x = KZone \<Longrightarrow> showKey key \<in> set (indexFunc x) \<longleftrightarrow> refersTo x KServer key"
    and "kind_of x = KRRSet \<Longrightarrow> showKey key \<in> set (indexFunc x) \<longleftrightarrow> refersTo x KZone key"
    and "kind_of x = KDNSDist \<Longrightarrow> showKey key \<in> set (indexFunc x) \<longleftrightarrow> refersTo x KServer key"
proof -
  have inj: "showKey key = showKey k \<longleftrightarrow> k = key" if "noSlash (fst k)" for k
    using showKey_inj [OF assms(2) that] by auto
  show "kind_of x = KZone \<Longrightarrow> showKey key \<in> set (indexFunc x) \<longleftrightarrow> refersTo x KServer key"
    using assms(1) inj by (cases x) (simp_all add: indexFunc_def zoneIndexKeys_def refKey_serverKeyFor)
  show "kind_of x = KRRSet \<Longrightarrow> showKey key \<in> set (indexFunc x) \<longleftrightarrow> refersTo x KZone key"
    using assms(1) inj by (cases x) (simp_all add: indexFunc_def rrsetIndexKeys_def refKey_zoneKeyFor)
  assume "kind_of x = KDNSDist"
  then obtain d where d: "x = ObjDNSDist d" by (cases x) simp_all
  let ?k = "\<lambda>ref. (if ref_Namespace ref = [] then om_Namespace (dd_Meta d) else ref_Namespace ref, ref_Name ref)"
  have "showKey key = showKey (?k ref) \<longleftrightarrow> ?k ref = key" if "ref \<in> set (ds_BackendRefs (dd_Spec d))" for ref
    using assms(1) that by (intro inj) (simp add: d)
  then show "showKey key \<in> set (indexFunc x) \<longleftrightarrow> refersTo x KServer key"
    by (simp add: d indexFunc_def dnsdistIndexKeys_def refKey_showKey image_iff)
qed

lemma mem_items [simp]:
  "z \<in> set (itemZone x) \<longleftrightarrow> x = ObjZone z" "rr \<in> set (itemRRSet x) \<longleftrightarrow> x = ObjRRSet rr"
  "d \<in> set (itemDNSDist x) \<longleftrightarrow> x = ObjDNSDist d"
  by (cases x; auto)+

lemma kind_of_api:
  "kind_of x = KZone \<longleftrightarrow> (\<exists>z. x = ObjZone z)" "kind_of x = KRRSet \<longleftrightarrow> (\<exists>rr. x = ObjRRSet rr)"
  "kind_of x = KDNSDist \<longleftrightarrow> (\<exists>d. x = ObjDNSDist d)" "kind_of x = KServer \<longleftrightarrow> (\<exists>s. x = ObjServer s)"
  by (cases x; simp)+

lemma listed_keys:
  "set (map (\<lambda>z. (om_Namespace (zone_Meta z), om_Name (zone_Meta z))) (concat (map itemZone xs))) =
     obj_key ` {x \<in> set xs. kind_of x = KZone}"
  "set (map (\<lambda>z. (om_Namespace (rr_Meta z), om_Name (rr_Meta z))) (concat (map itemRRSet xs))) =
     obj_key ` {x \<in> set xs. kind_of x = KRRSet}"
  "set (map (\<lambda>z. (om_Namespace (dd_Meta z), om_Name (dd_Meta z))) (concat (map itemDNSDist xs))) =
     obj_key ` {x \<in> set xs. kind_of x = KDNSDist}"
  by (force simp: kind_of_api obj_key_def image_iff)+

text \<open>The objects of a kind whose index has the key of \<open>x\<close>, and those that refer to \<open>x\<close>, are the same.\<close>

abbreviation indexed :: "kobj list \<Rightarrow> kind \<Rightarrow> kobj \<Rightarrow> kobj list" where
  "indexed cache k x \<equiv> filter (\<lambda>y. kind_of y = k \<and> showKey (obj_key x) \<in> set (indexFunc y)) cache"

lemma indexed_refersTo:
  assumes "\<forall>y \<in> set cache. slashFree y" "noSlash (om_Namespace (obj_meta x))"
    and "(k', k) \<in> {(KServer, KZone), (KZone, KRRSet), (KServer, KDNSDist)}"
  shows "obj_key ` {y \<in> set (indexed cache k x). kind_of y = k} =
    obj_key ` {y \<in> set cache. kind_of y = k \<and> refersTo y k' (obj_key x)}"
proof -
  have key: "noSlash (fst (obj_key x))" using assms(2) by (simp add: obj_key_def)
  show ?thesis
    using index_refersTo [OF _ key] assms(1,3) by (intro arg_cong [where f = "image obj_key"]) auto
qed

lemma watch_functions_enqueue:
  assumes "\<forall>(q, r) \<in> set tr. cache_answer cache q r"
  shows "exec (zonesForServer (obj_meta x)) tr keys \<Longrightarrow>
      set keys = obj_key ` {y \<in> set (indexed cache KZone x). kind_of y = KZone}"
    and "exec (rrsetsForZone (obj_meta x)) tr keys \<Longrightarrow>
      set keys = obj_key ` {y \<in> set (indexed cache KRRSet x). kind_of y = KRRSet}"
    and "exec (dnsdistsForServer s) tr keys \<Longrightarrow> x = ObjServer s \<Longrightarrow>
      set keys = obj_key ` {y \<in> set (indexed cache KDNSDist x). kind_of y = KDNSDist}"
proof -
  have v: "om_Namespace (obj_meta x) @ ''/'' @ om_Name (obj_meta x) = showKey (obj_key x)"
    by (simp add: showKey_def obj_key_def)
  show "exec (zonesForServer (obj_meta x)) tr keys \<Longrightarrow>
      set keys = obj_key ` {y \<in> set (indexed cache KZone x). kind_of y = KZone}"
    using assms unfolding listed_keys(1) [symmetric] zonesForServer_def v
    by (auto simp: items_def simp del: set_map set_concat)
  show "exec (rrsetsForZone (obj_meta x)) tr keys \<Longrightarrow>
      set keys = obj_key ` {y \<in> set (indexed cache KRRSet x). kind_of y = KRRSet}"
    using assms unfolding listed_keys(2) [symmetric] rrsetsForZone_def v
    by (auto simp: items_def simp del: set_map set_concat)
  show "exec (dnsdistsForServer s) tr keys \<Longrightarrow> x = ObjServer s \<Longrightarrow>
      set keys = obj_key ` {y \<in> set (indexed cache KDNSDist x). kind_of y = KDNSDist}"
    using assms unfolding listed_keys(3) [symmetric] dnsdistsForServer_def
    by (auto simp: srv_key_def obj_key_def items_def exec_Call_iff simp del: set_map set_concat)
qed



section \<open>Children\<close>

text \<open>
  The kinds that are written but not watched: the Gateway API routes, whose types may be missing
  from the cluster, and the unstructured objects.
\<close>

definition unwatched :: "kind list" where
  "unwatched = [KTCPRoute, KUDPRoute, KHTTPRoute, KUnstructured ClusterGVK, KUnstructured PodMonitorGVK]"

lemma usage_watched:
  assumes "c \<in> set (registrations X)"
  shows "set (kindsWritten (usageOf (reg_For c))) \<subseteq> insert (reg_For c) (set (reg_Owns c)) \<union>
    (if reg_For c \<in> {KServer, KDNSDist} then set unwatched else {})"
  using assms by (cases rule: registered_cases)
    (simp_all add: kindsWritten_def unwatched_def serverRegistration_def zoneRegistration_def rrsetRegistration_def
      dnsdistRegistration_def zoneUsage_def rrsetUsage_def)


text \<open>A server that is about to get its schema Job.\<close>

definition demoSchemaServer :: PowerDNSServer where
  "demoSchemaServer = demoServer\<lparr>srv_Meta := (demoMeta ''pdns'')\<lparr>om_Finalizers := [finalizer]\<rparr>,
     srv_Status := (srv_Status demoServer)\<lparr>pst_Phase := PhaseInitializingSchema\<rparr>\<rparr>"

definition demoJobPass :: "event list" where
  "demoJobPass = trace_of ROk (server_Reconcile (withRecorder refExt) (''dns'', ''pdns''))
     [RObj (ObjServer demoSchemaServer), RErr (mkErr KubeNotFound [])]"

lemma demoJobPass_exec:
  "\<exists>res. exec (reg_Reconcile (serverRegistration (withRecorder refExt)) (''dns'', ''pdns'')) demoJobPass res"
  unfolding demoJobPass_def serverRegistration_def using exec_trace_of by force

lemma demoJobPass_creates:
  "\<exists>q r. (q, r) \<in> set demoJobPass \<and> is_kube_write q \<and> KJob \<in> set (kindsIn q)"
proof -
  have "list_ex (\<lambda>(q, r). is_kube_write q \<and> list_ex (\<lambda>k. k = KJob) (kindsIn q)) demoJobPass" by code_simp
  then show ?thesis by (force simp: list_ex_iff)
qed

lemma demoRegistered: "serverRegistration (withRecorder refExt) \<in> set (registrations refExt)"
  by (simp add: registrations_def)


end
