(* ===== verification/Permissions.thy ===== *)
theory Permissions
  imports Operator
begin

text \<open>
  The permissions of the operator's service account: the ClusterRole of \<open>config/rbac/rbac.yaml\<close>,
  and the \<open>+kubebuilder:rbac\<close> markers in the controllers that are meant to describe the same.

  Theorem \<open>requests_permitted\<close> says that the role is large enough for everything the reconcilers
  and their watches do; \<open>markers_incomplete\<close> that the markers are not.
\<close>

section \<open>Rules\<close>

record rule =
  apiGroups :: "string list"
  resources :: "string list"
  verbs :: "string list"

definition permits :: "rule list \<Rightarrow> string \<times> string \<times> string \<Rightarrow> bool" where
  "permits role need = (case need of (g, res, v) \<Rightarrow>
     list_ex (\<lambda>r. g \<in> set (apiGroups r) \<and> res \<in> set (resources r) \<and> v \<in> set (verbs r)) role)"

definition allVerbs :: "string list" where
  "allVerbs = [''get'', ''list'', ''watch'', ''create'', ''update'', ''patch'', ''delete'']"

definition dnsGroup :: string where
  "dnsGroup = ''dns.aetherplatform.cloud''"

definition gatewayGroup :: string where
  "gatewayGroup = ''gateway.networking.k8s.io''"

definition mkRule :: "string \<Rightarrow> string list \<Rightarrow> string list \<Rightarrow> rule" where
  "mkRule g rs vs = \<lparr>apiGroups = [g], resources = rs, verbs = vs\<rparr>"

definition clusterRole :: "rule list" where
  "clusterRole =
    [mkRule dnsGroup [''powerdnsservers''] allVerbs,
     mkRule dnsGroup [''powerdnsservers/status''] [''get'', ''update'', ''patch''],
     mkRule dnsGroup [''powerdnsservers/finalizers''] [''update''],
     mkRule dnsGroup [''zones'', ''rrsets''] [''get'', ''list'', ''watch'', ''update'', ''patch''],
     mkRule dnsGroup [''zones/status'', ''rrsets/status''] [''get'', ''update'', ''patch''],
     mkRule dnsGroup [''zones/finalizers'', ''rrsets/finalizers''] [''update''],
     mkRule dnsGroup [''dnsdists''] [''get'', ''list'', ''watch'', ''update'', ''patch''],
     mkRule dnsGroup [''dnsdists/status''] [''get'', ''update'', ''patch''],
     mkRule dnsGroup [''dnsdists/finalizers''] [''update''],
     mkRule [] [''secrets'', ''services'', ''configmaps''] allVerbs,
     mkRule ''apps'' [''deployments''] allVerbs,
     mkRule ''batch'' [''jobs''] allVerbs,
     mkRule ''policy'' [''poddisruptionbudgets''] allVerbs,
     mkRule ''postgresql.cnpg.io'' [''clusters''] allVerbs,
     mkRule gatewayGroup [''tcproutes'', ''udproutes'', ''httproutes''] allVerbs,
     mkRule ''networking.k8s.io'' [''networkpolicies''] allVerbs,
     mkRule ''monitoring.coreos.com'' [''podmonitors''] allVerbs,
     mkRule [] [''events''] [''create'', ''patch''],
     mkRule ''coordination.k8s.io'' [''leases''] allVerbs]"

definition serverMarkers :: "rule list" where
  "serverMarkers =
    [mkRule dnsGroup [''powerdnsservers''] allVerbs,
     mkRule dnsGroup [''powerdnsservers/status''] [''get'', ''update'', ''patch''],
     mkRule dnsGroup [''powerdnsservers/finalizers''] [''update''],
     mkRule [] [''secrets'', ''services'', ''configmaps''] allVerbs,
     mkRule ''apps'' [''deployments''] allVerbs,
     mkRule ''batch'' [''jobs''] allVerbs,
     mkRule ''policy'' [''poddisruptionbudgets''] allVerbs,
     mkRule ''postgresql.cnpg.io'' [''clusters''] allVerbs,
     mkRule gatewayGroup [''tcproutes'', ''udproutes'', ''httproutes''] allVerbs]"

text \<open>The three markers of the other controllers differ in the resource only.\<close>

definition ownMarkers :: "string \<Rightarrow> rule list" where
  "ownMarkers res =
    [mkRule dnsGroup [res] [''get'', ''list'', ''watch'', ''update'', ''patch''],
     mkRule dnsGroup [res @ ''/status''] [''get'', ''update'', ''patch''],
     mkRule dnsGroup [res @ ''/finalizers''] [''update'']]"

definition zoneMarkers :: "rule list" where
  "zoneMarkers = ownMarkers ''zones''"

definition rrsetMarkers :: "rule list" where
  "rrsetMarkers = ownMarkers ''rrsets''"

definition dnsdistMarkers :: "rule list" where
  "dnsdistMarkers = ownMarkers ''dnsdists''"

section \<open>What a request needs\<close>

text \<open>
  API group and resource of each kind; for an unstructured object the plural of its kind, which is
  how the two resource definitions in question are named.
\<close>

fun resourceOf :: "kind \<Rightarrow> string \<times> string" where
  "resourceOf KServer = (dnsGroup, ''powerdnsservers'')"
| "resourceOf KZone = (dnsGroup, ''zones'')"
| "resourceOf KRRSet = (dnsGroup, ''rrsets'')"
| "resourceOf KDNSDist = (dnsGroup, ''dnsdists'')"
| "resourceOf KSecret = ([], ''secrets'')"
| "resourceOf KConfigMap = ([], ''configmaps'')"
| "resourceOf KService = ([], ''services'')"
| "resourceOf KDeployment = (''apps'', ''deployments'')"
| "resourceOf KJob = (''batch'', ''jobs'')"
| "resourceOf KPDB = (''policy'', ''poddisruptionbudgets'')"
| "resourceOf KNetworkPolicy = (''networking.k8s.io'', ''networkpolicies'')"
| "resourceOf KTCPRoute = (gatewayGroup, ''tcproutes'')"
| "resourceOf KUDPRoute = (gatewayGroup, ''udproutes'')"
| "resourceOf KHTTPRoute = (gatewayGroup, ''httproutes'')"
| "resourceOf (KUnstructured g) = (gvk_Group g, ToLower (gvk_Kind g) @ ''s'')"

definition need :: "kind \<Rightarrow> string \<Rightarrow> string \<Rightarrow> string \<times> string \<times> string" where
  "need k sub v = (fst (resourceOf k), snd (resourceOf k) @ sub, v)"

text \<open>
  The permissions the API server checks for a request.  A typed read is answered from a cache
  that is filled by listing and watching the kind.
\<close>

fun readVerbs :: "kind \<Rightarrow> string list" where
  "readVerbs (KUnstructured g) = [''get'']"
| "readVerbs k = [''get'', ''list'', ''watch'']"

fun needs :: "req \<Rightarrow> (string \<times> string \<times> string) list" where
  "needs (KGet k n) = map (need k []) (readVerbs k)"
| "needs (KCreate x) = [need (kind_of x) [] ''create'']"
| "needs (KUpdate x) = [need (kind_of x) [] ''update'']"
| "needs (KStatusUpdate x) = [need (kind_of x) ''/status'' ''update'']"
| "needs (KDelete k n) = [need k [] ''delete'']"
| "needs (KListByIndex k i v) = map (need k []) (readVerbs k)"
| "needs (KListByLabels k n ls) = map (need k []) (readVerbs k)"
| "needs (KCreateOrUpdate x) =
     map (need (kind_of x) []) (readVerbs (kind_of x) @ [''create'', ''update''])"
| "needs (KEvent k n typ reason msg) = [([], ''events'', ''create''), ([], ''events'', ''patch'')]"
| "needs (HttpDo h) = []"
| "needs (RandRead n) = []"

text \<open>The permissions a whole table of requests takes.\<close>

definition usageNeeds :: "usage \<Rightarrow> (string \<times> string \<times> string) list" where
  "usageNeeds u =
     concat (map (\<lambda>k. map (need k []) (readVerbs k)) (reads u @ lists u @ map fst (indexes u))) @
     map (\<lambda>k. need k [] ''create'') (creates u) @ map (\<lambda>k. need k [] ''update'') (updates u) @
     map (\<lambda>k. need k [] ''delete'') (deletes u) @ map (\<lambda>k. need k ''/status'' ''update'') (statuses u) @
     [([], ''events'', ''create''), ([], ''events'', ''patch'')]"

lemma usageNeeds_mem:
  "k \<in> set (reads u) \<Longrightarrow> v \<in> set (readVerbs k) \<Longrightarrow> need k [] v \<in> set (usageNeeds u)"
  "k \<in> set (lists u) \<Longrightarrow> v \<in> set (readVerbs k) \<Longrightarrow> need k [] v \<in> set (usageNeeds u)"
  "(k, i) \<in> set (indexes u) \<Longrightarrow> v \<in> set (readVerbs k) \<Longrightarrow> need k [] v \<in> set (usageNeeds u)"
  "k \<in> set (creates u) \<Longrightarrow> need k [] ''create'' \<in> set (usageNeeds u)"
  "k \<in> set (updates u) \<Longrightarrow> need k [] ''update'' \<in> set (usageNeeds u)"
  "k \<in> set (deletes u) \<Longrightarrow> need k [] ''delete'' \<in> set (usageNeeds u)"
  "k \<in> set (statuses u) \<Longrightarrow> need k ''/status'' ''update'' \<in> set (usageNeeds u)"
  "([], ''events'', ''create'') \<in> set (usageNeeds u)" "([], ''events'', ''patch'') \<in> set (usageNeeds u)"
  unfolding usageNeeds_def set_append set_concat set_map by force+

lemma within_needs: "within u q \<Longrightarrow> n \<in> set (needs q) \<Longrightarrow> n \<in> set (usageNeeds u)"
  by (cases q) (auto simp only: within.simps needs.simps set_map set_append list.set intro: usageNeeds_mem)

lemma role_covers:
  "list_all (permits clusterRole) (usageNeeds serverUsage)"
  "list_all (permits clusterRole) (usageNeeds zoneUsage)"
  "list_all (permits clusterRole) (usageNeeds rrsetUsage)"
  "list_all (permits clusterRole) (usageNeeds dnsdistUsage)"
  by code_simp+

lemma registered_covered:
  assumes "c \<in> set (registrations X)"
  shows "list_all (permits clusterRole) (usageNeeds (usageOf (reg_For c)))"
  using assms by (cases rule: registered_cases) (simp_all only: role_covers)

definition watchedKinds :: "Registration \<Rightarrow> kind list" where
  "watchedKinds c = reg_For c # reg_Owns c @ map fst (reg_Watches c)"

lemma watches_covered:
  "list_all (\<lambda>k. list_all (\<lambda>v. permits clusterRole (need k [] v)) [''get'', ''list'', ''watch''])
     [KServer, KZone, KRRSet, KDNSDist, KDeployment, KService, KSecret, KConfigMap, KJob, KPDB, KNetworkPolicy]"
  by code_simp

lemma watchedKinds_cases:
  assumes "c \<in> set (registrations X)"
  shows "set (watchedKinds c) \<subseteq> set [KServer, KZone, KRRSet, KDNSDist, KDeployment, KService, KSecret,
    KConfigMap, KJob, KPDB, KNetworkPolicy]"
  using assms by (auto simp: registrations_def watchedKinds_def serverRegistration_def zoneRegistration_def
      rrsetRegistration_def dnsdistRegistration_def)

lemma user_objects:
  "list_all (\<lambda>k. \<not> permits clusterRole (need k [] ''create'') \<and> \<not> permits clusterRole (need k [] ''delete''))
     [KZone, KRRSet, KDNSDist]"
  by code_simp

text \<open>
  C11: The ClusterRole is sufficient and keeps its distance.  Every permission that the API server
  checks for a request of a registered reconciler is granted by \<open>config/rbac/rbac.yaml\<close>, and so is
  reading, listing and watching every kind a controller watches; creating or deleting a Zone, an
  RRSet or a DNSDist, which belong to the user, is not.
\<close>
theorem requests_permitted:
  assumes "retry_laws X" "c \<in> set (registrations X)"
  shows "(\<forall>key tr res q r n. exec (reg_Reconcile c key) tr res \<and> (q, r) \<in> set tr \<and> n \<in> set (needs q) \<longrightarrow>
      permits clusterRole n) \<and>
    (\<forall>k \<in> set (watchedKinds c). \<forall>v \<in> set [''get'', ''list'', ''watch'']. permits clusterRole (need k [] v)) \<and>
    (\<forall>k \<in> set [KZone, KRRSet, KDNSDist]. \<forall>v \<in> set [''create'', ''delete''].
      \<not> permits clusterRole (need k [] v))"
proof (intro conjI)
  have "permits clusterRole n"
    if "exec (reg_Reconcile c key) tr res" "(q, r) \<in> set tr" "n \<in> set (needs q)" for key tr res q r n
    using within_needs [OF registered_within [OF assms assms(1) that(1,2)] that(3)] registered_covered [OF assms(2)]
    by (simp add: list_all_iff)
  then show "\<forall>key tr res q r n. exec (reg_Reconcile c key) tr res \<and> (q, r) \<in> set tr \<and> n \<in> set (needs q) \<longrightarrow>
      permits clusterRole n" by blast
  show "\<forall>k \<in> set (watchedKinds c). \<forall>v \<in> set [''get'', ''list'', ''watch'']. permits clusterRole (need k [] v)"
    using watches_covered watchedKinds_cases [OF assms(2)] unfolding list_all_iff by blast
  show "\<forall>k \<in> set [KZone, KRRSet, KDNSDist]. \<forall>v \<in> set [''create'', ''delete''].
      \<not> permits clusterRole (need k [] v)"
    using user_objects unfolding list_all_iff by auto
qed

theorem requests_permitted_witness:
  "\<exists>q r. (q, r) \<in> set demoJobPass \<and> KJob \<in> set (kindsIn q) \<and> needs q \<noteq> [] \<and>
     (\<forall>n \<in> set (needs q). permits clusterRole n)"
proof -
  obtain res where run: "exec (reg_Reconcile (serverRegistration (withRecorder refExt)) (''dns'', ''pdns'')) demoJobPass res"
    using demoJobPass_exec by blast
  obtain q r where q: "(q, r) \<in> set demoJobPass" "is_kube_write q" "KJob \<in> set (kindsIn q)"
    using demoJobPass_creates by blast
  from q(2) have "needs q \<noteq> []" by (cases q) simp_all
  moreover have "\<forall>n \<in> set (needs q). permits clusterRole n"
    using requests_permitted [OF refExt_retry demoRegistered, THEN conjunct1] run q(1) by fast
  ultimately show ?thesis using q(1,3) by blast
qed

text \<open>
  The markers are not: they have no rule for NetworkPolicies, PodMonitors and Events, all of which
  the PowerDNSServer reconciler needs.
\<close>

lemma markers_incomplete:
  "list_all (\<lambda>n. \<not> permits (serverMarkers @ zoneMarkers @ rrsetMarkers @ dnsdistMarkers) n)
     [need KNetworkPolicy [] ''get'', need KNetworkPolicy [] ''create'', need KNetworkPolicy [] ''watch'',
      need (KUnstructured PodMonitorGVK) [] ''create'', ([], ''events'', ''create'')]"
  by code_simp

end
