(* ===== verification/Data_Liveness.thy ===== *)
theory Data_Liveness
  imports Operator Server_Correct
begin

text \<open>
  From a declared record to a served one.  \<open>Server_Liveness\<close> takes a server to Ready; here the
  Zone and the RRSet reconciler follow, run against a cluster whose cache holds a given list of
  objects and against a PowerDNS that accepts what it is sent.

  \<open>silent G p Q\<close> says that \<open>p\<close>, given answers from \<open>G\<close>, stores no status and ends in \<open>Q\<close>;
  \<open>settles G p Q\<close> that it stores exactly one, related to its result by \<open>Q\<close>.
\<close>

section \<open>Passes that store one status\<close>

fun stored :: "event list \<Rightarrow> kobj list" where
  "stored [] = []"
| "stored ((KStatusUpdate y, r) # tr) = y # stored tr"
| "stored (e # tr) = stored tr"

lemma stored_append [simp]: "stored (t1 @ t2) = stored t1 @ stored t2"
  by (induction t1 rule: stored.induct) simp_all

lemma stored_other: "(\<And>y. q \<noteq> KStatusUpdate y) \<Longrightarrow> stored ((q, r) # tr) = stored tr"
  by (cases q) auto

definition silent :: "(req \<Rightarrow> resp \<Rightarrow> bool) \<Rightarrow> 'a kio \<Rightarrow> ('a \<Rightarrow> bool) \<Rightarrow> bool" where
  "silent G p Q \<longleftrightarrow> (\<forall>tr x. exec p tr x \<longrightarrow> answered G tr \<longrightarrow> stored tr = [] \<and> Q x)"

definition settles :: "(req \<Rightarrow> resp \<Rightarrow> bool) \<Rightarrow> 'a kio \<Rightarrow> ('a \<Rightarrow> kobj \<Rightarrow> bool) \<Rightarrow> bool" where
  "settles G p Q \<longleftrightarrow> (\<forall>tr x. exec p tr x \<longrightarrow> answered G tr \<longrightarrow> (\<exists>y. stored tr = [y] \<and> Q x y))"

lemma settlesD:
  assumes "settles G p Q" "exec p tr x" "answered G tr"
  obtains y where "stored tr = [y]" "Q x y"
  using assms by (auto simp: settles_def)

lemma silent_Return: "Q x \<Longrightarrow> silent G (Return x) Q"
  by (simp add: silent_def)

lemma silent_Call:
  assumes "\<And>y. q \<noteq> KStatusUpdate y" "\<And>r. G q r \<Longrightarrow> silent G (k r) Q"
  shows "silent G (Call q k) Q"
  unfolding silent_def using assms by (fastforce simp: exec_Call_iff stored_other silent_def)

lemma silent_ask:
  assumes "\<And>y. q \<noteq> KStatusUpdate y" "\<And>r. G q r \<Longrightarrow> Q (f r)"
  shows "silent G (ask q f) Q"
  using assms by (auto simp: silent_def stored_other)

lemma silent_andThen:
  assumes "silent G p P" "\<And>x. P x \<Longrightarrow> silent G (f x) Q"
  shows "silent G (andThen p f) Q"
  using assms by (fastforce simp: silent_def exec_andThen_iff)

lemma silent_tryIO:
  assumes "silent G p (\<lambda>x. \<exists>y. x = Inr y \<and> P y)" "\<And>y. P y \<Longrightarrow> silent G (f y) Q"
  shows "silent G (tryIO p f) Q"
  unfolding tryIO_def using assms by (auto intro: silent_andThen)

lemma silent_emit: "silent G (emit X k m typ reason msg) (\<lambda>_. True)"
  by (simp add: emit_def silent_ask silent_Return)

lemma settles_Call:
  assumes "\<And>y. q \<noteq> KStatusUpdate y" "\<And>r. G q r \<Longrightarrow> settles G (k r) Q"
  shows "settles G (Call q k) Q"
  unfolding settles_def using assms by (fastforce simp: exec_Call_iff stored_other settles_def)

lemma settles_andThen:
  assumes "silent G p P" "\<And>x. P x \<Longrightarrow> settles G (f x) Q"
  shows "settles G (andThen p f) Q"
  using assms by (fastforce simp: silent_def settles_def exec_andThen_iff)

lemma settles_tryIO:
  assumes "silent G p (\<lambda>x. \<exists>y. x = Inr y \<and> P y)" "\<And>y. P y \<Longrightarrow> settles G (f y) Q"
  shows "settles G (tryIO p f) Q"
  unfolding tryIO_def using assms by (auto intro: settles_andThen)

lemma settles_store:
  assumes "\<And>r. G (KStatusUpdate y) r \<Longrightarrow> respUnit r = Inr ()" "Q (Inr res) y"
  shows "settles G (tryIO (ask (KStatusUpdate y) respUnit) (\<lambda>_. Return (Inr res))) Q"
  unfolding settles_def tryIO_def andThen_ask exec_Call_iff
  using assms by fastforce

section \<open>A PowerDNS that does its part\<close>

text \<open>
  A reply that carries what \<open>decode\<close> reads; the API of a server that accepts every request of the
  client \<open>c\<close> about the zone \<open>zn\<close>.  The zone may be missing unless it is \<open>known\<close>.
\<close>

definition yields :: "(json \<Rightarrow> error + 'a) \<Rightarrow> HttpReply \<Rightarrow> bool" where
  "yields decode h \<longleftrightarrow> reply_2xx h \<and> (\<exists>x. into decode (reply_JSON h) = Inr x)"

definition api :: "Client \<Rightarrow> string \<Rightarrow> bool \<Rightarrow> HttpRequest \<Rightarrow> HttpReply \<Rightarrow> bool" where
  "api c zn known h r \<longleftrightarrow>
     (if h = mkRequest c ''GET'' (zonePath zn) None then yields decode_Zone r \<or> \<not> known \<and> reply_404 r
      else if h = mkRequest c ''GET'' (zonePath zn @ ''/cryptokeys'') None
      then yields (decode_list decode_Cryptokey) r
      else if hq_Method h = ''POST'' then
        (if hq_URL h = cl_baseURL c @ ''/api/v1'' @ zonesPath then yields decode_Zone r
         else yields decode_Cryptokey r)
      else reply_2xx r)"

lemma outcome_yields: "yields decode h \<Longrightarrow> \<exists>x. outcome m p (into decode) h = Inr x"
  by (cases h) (auto simp: yields_def outcome_def reply_2xx_def)

lemma mkRequest_sel [simp]:
  "hq_Method (mkRequest c m p b) = m" "hq_URL (mkRequest c m p b) = cl_baseURL c @ ''/api/v1'' @ p"
  by (simp_all add: mkRequest_def)

lemma mkRequest_eq_iff: "mkRequest c m p b = mkRequest c m' p' b' \<longleftrightarrow> m = m' \<and> p = p' \<and> b = b'"
  by (auto simp: mkRequest_def)

lemma keysPath_not_zones: "zonePath zn @ ''/cryptokeys'' \<noteq> zonesPath"
  by (simp add: zonePath_def zonesPath_def)

definition okReply :: "json option \<Rightarrow> HttpReply" where
  "okReply js = HttpReply 200 ''200 OK'' [] js"

lemma okReply_yields:
  "yields decode_Zone (okReply (Some (marshal_Zone demoPdnsZone)))"
  "yields (decode_list decode_Cryptokey) (okReply (Some (JArr [])))"
  "yields decode_Cryptokey (okReply (Some (marshal_Cryptokey zeroCryptokey)))"
  "reply_2xx (okReply js)"
proof -
  have "decode_Zone (marshal_Zone demoPdnsZone) = Inr (demoPdnsZone\<lparr>pz_Masters := None\<rparr>)"
    "decode_list decode_Cryptokey (JArr []) = Inr []"
    "decode_Cryptokey (marshal_Cryptokey zeroCryptokey) = Inr zeroCryptokey" by code_simp+
  then show "yields decode_Zone (okReply (Some (marshal_Zone demoPdnsZone)))"
    "yields (decode_list decode_Cryptokey) (okReply (Some (JArr [])))"
    "yields decode_Cryptokey (okReply (Some (marshal_Cryptokey zeroCryptokey)))" "reply_2xx (okReply js)"
    by (simp_all add: yields_def okReply_def reply_2xx_def into_def)
qed

lemma api_total: "\<exists>r. api c zn known h r"
  unfolding api_def by (cases "hq_Method h = ''POST''") (auto intro: okReply_yields)

section \<open>A cluster\<close>

text \<open>
  Reads and lists are answered from the objects in the cache; writes are accepted.
\<close>

definition cached :: "kobj list \<Rightarrow> kind \<Rightarrow> NamespacedName \<Rightarrow> kobj option" where
  "cached objs k n = find (\<lambda>x. kind_of x = k \<and> obj_key x = n) objs"

fun world :: "kobj list \<Rightarrow> Client \<Rightarrow> string \<Rightarrow> bool \<Rightarrow> req \<Rightarrow> resp \<Rightarrow> bool" where
  "world objs c zn known (KGet k n) r \<longleftrightarrow>
     r = (case cached objs k n of None \<Rightarrow> RErr (mkErr KubeNotFound []) | Some x \<Rightarrow> RObj x)"
| "world objs c zn known (KListByIndex k i v) r \<longleftrightarrow> cache_answer objs (KListByIndex k i v) r"
| "world objs c zn known (KListByLabels k n ls) r \<longleftrightarrow> (\<exists>xs. r = RList xs)"
| "world objs c zn known (HttpDo h) r \<longleftrightarrow> (\<exists>a. r = RHttp a \<and> api c zn known h a)"
| "world objs c zn known q r \<longleftrightarrow> respUnit r = Inr ()"

lemma world_total: "\<exists>r. world objs c zn known q r"
proof (cases q)
  case (HttpDo h)
  then show ?thesis using api_total by fastforce
qed (auto intro: exI [of _ ROk])

text \<open>The server \<open>s\<close> is Ready and published, and its API key Secret holds the key of \<open>c\<close>.\<close>

definition published :: "kobj list \<Rightarrow> PowerDNSServer \<Rightarrow> Client \<Rightarrow> bool" where
  "published objs s c \<longleftrightarrow> pst_Phase (srv_Status s) = PhaseReady \<and>
     pst_APIEndpoint (srv_Status s) \<noteq> [] \<and> pst_APIKeySecretName (srv_Status s) \<noteq> [] \<and>
     (\<exists>sec. cached objs KSecret (om_Namespace (srv_Meta s), pst_APIKeySecretName (srv_Status s)) = Some (ObjSecret sec) \<and>
       client_of s sec c)"

lemma pickKey_api: "map_of data k = Some v \<Longrightarrow> v \<noteq> [] \<Longrightarrow> pickKey data [k] = v"
  by simp

lemma silent_client:
  assumes "published objs s c"
  shows "silent (world objs c zn known) (pdnsClientFor s) (\<lambda>x. x = Inr c)"
proof -
  from assms obtain sec where sec: "cached objs KSecret (om_Namespace (srv_Meta s), pst_APIKeySecretName (srv_Status s)) =
      Some (ObjSecret sec)" and c: "client_of s sec c" by (auto simp: published_def)
  from c have "pickKey (sec_Data sec) [''api-key''] = cl_apiKey c" "cl_apiKey c \<noteq> []"
    by (simp_all add: client_of_def)
  moreover from c have "c = New (pst_APIEndpoint (srv_Status s)) (cl_apiKey c)" by (simp add: client_of_def)
  ultimately show ?thesis
    using assms sec unfolding pdnsClientFor_def published_def Let_def andThen_ask
    by (auto simp del: pickKey.simps intro!: silent_Call silent_Return)
qed

section \<open>Zones\<close>

lemma silent_zone_ops:
  fixes zn :: string
  defines "G objs c known \<equiv> world objs c zn known"
  shows "silent (G objs c known) (PatchRRSets c zn rs) (\<lambda>x. x = Inr ())"
    and "silent (G objs c known) (UpdateZone c zn u) (\<lambda>x. x = Inr ())"
    and "silent (G objs c known) (UpdateCryptokey c zn k) (\<lambda>x. x = Inr ())"
    and "silent (G objs c known) (RectifyZone c zn) (\<lambda>x. x = Inr ())"
    and "silent (G objs c known) (CreateZone c z) (\<lambda>x. \<exists>pz. x = Inr pz \<and> True)"
    and "silent (G objs c known) (CreateCryptokey c zn k) (\<lambda>x. \<exists>k'. x = Inr k' \<and> True)"
    and "silent (G objs c known) (ListCryptokeys c zn) (\<lambda>x. \<exists>ks. x = Inr ks \<and> True)"
    and "silent (G objs c known) (GetZone c zn) (\<lambda>x. (\<exists>pz. x = Inr pz) \<or> \<not> known \<and> is_err PdnsNotFound x)"
  unfolding operation_defs doReq_def Let_def G_def
  by (rule silent_ask;
      auto simp: api_def mkRequest_eq_iff keysPath_not_zones outcome_noOut_ok outcome_zone(1) outcome_yields)+

lemma silent_deactivate:
  "silent (world objs c zn known) (deactivateKeys c zn ks) (\<lambda>x. x = Inr ())"
  by (induction c zn ks rule: deactivateKeys.induct)
    (auto intro!: silent_Return silent_tryIO [where P = "\<lambda>_. True"] silent_zone_ops(3))

lemma silent_ensureDNSSEC:
  assumes "zn = zs_ZoneName (zone_Spec z)"
  shows "silent (world objs c zn known) (ensureDNSSEC z c) (\<lambda>x. \<exists>ds. x = Inr ds)"
proof -
  note ops = silent_zone_ops [of objs c zn known]
  have act: "silent (world objs c zn known) (activateKey c zn ks) (\<lambda>x. x = Inr ())" for ks
    unfolding activateKey_def
    by (rule silent_tryIO [where P = "\<lambda>_. True"], cases ks)
      (auto intro!: silent_Return ops silent_tryIO [OF ops(6)])
  have off: "silent (world objs c zn known) (tryIO (deactivateKeys c zn ks) (\<lambda>_. Return (Inr [])))
      (\<lambda>x. \<exists>ds. x = Inr ds)" for ks
    by (rule silent_tryIO [where P = "\<lambda>_. True"]) (auto intro!: silent_Return silent_deactivate)
  have on: "silent (world objs c zn known) (tryIO (activateKey c zn ks) (\<lambda>_.
      tryIO (ListCryptokeys c zn) (\<lambda>keys'. Return (Inr (activeDS keys'))))) (\<lambda>x. \<exists>ds. x = Inr ds)" for ks
    by (rule silent_tryIO [where P = "\<lambda>_. True"]) (auto intro!: silent_Return act silent_tryIO [OF ops(7)])
  show ?thesis
    unfolding ensureDNSSEC_def Let_def assms [symmetric]
    by (rule silent_tryIO [OF ops(7)]) (auto intro!: off on silent_Return)
qed

lemma is_err_Inr [simp]: "\<not> is_err k (Inr x)"
  by (simp add: is_err_def)

lemma silent_lookup:
  assumes "zn = zs_ZoneName (zone_Spec z)"
  shows "silent (world objs c zn known) (zone_lookup X z c) (\<lambda>x. \<exists>pz. x = Inr pz)"
proof -
  note ops = silent_zone_ops [of objs c zn known]
  have seed: "silent (world objs c zn known) (seedSOA X z c) (\<lambda>x. x = Inr ())"
    unfolding seedSOA_def assms [symmetric]
    by (rule silent_andThen [OF ops(1)]) (auto intro!: silent_Return)
  have "silent (world objs c zn known) (createZone X z c) (\<lambda>x. \<exists>pz. x = Inr pz)"
    unfolding createZone_def zone_event_def
    by (rule silent_tryIO [OF ops(5)], rule silent_tryIO [where P = "\<lambda>_. True"])
      (auto intro!: seed silent_Return silent_andThen [OF silent_emit])
  then have create: "silent (world objs c zn known) (andThen (createZone X z c) (\<lambda>rc.
      if is_err PdnsAlreadyExists rc then GetZone c zn else Return rc)) (\<lambda>x. \<exists>pz. x = Inr pz)"
    by (rule silent_andThen) (auto intro!: silent_Return)
  show ?thesis
    unfolding zone_lookup_def Let_def assms [symmetric]
    by (rule silent_andThen [OF ops(8)]) (auto intro!: create silent_Return)
qed

text \<open>The status of a zone that is served.\<close>

definition zone_up :: "Zone \<Rightarrow> Zone \<Rightarrow> bool" where
  "zone_up z z' \<longleftrightarrow> zone_Meta z' = zone_Meta z \<and> zone_Spec z' = zone_Spec z \<and>
     zst_Phase (zone_Status z') = ZonePhaseReady \<and>
     zst_ObservedGeneration (zone_Status z') = om_Generation (zone_Meta z) \<and>
     zst_FailureMessage (zone_Status z') = [] \<and> isReady (zst_Conditions (zone_Status z'))"

definition zone_settled :: "Zone \<Rightarrow> error + Result \<Rightarrow> kobj \<Rightarrow> bool" where
  "zone_settled z res y \<longleftrightarrow> res = Inr (RequeueAfter resyncInterval) \<and> (\<exists>z'. y = ObjZone z' \<and> zone_up z z')"

lemma settles_finish:
  assumes "condition_laws X" "zone_Meta z1 = zone_Meta z" "zone_Spec z1 = zone_Spec z"
  shows "settles (world objs c zn known) (zone_finish X z1 pz ds) (zone_settled z)"
  unfolding zone_finish_def Let_def
  by (rule settles_store)
    (auto simp: zone_settled_def zone_up_def zone_setCond_def assms isReady_def setCondOn_Ready)

lemma settles_reconcileZone:
  assumes "condition_laws X" "zn = zs_ZoneName (zone_Spec z)"
  shows "settles (world objs c zn known) (reconcileZone X z c) (zone_settled z)"
proof -
  let ?z = "zone_setCond X z ConditionRegistered ''True'' ''ZoneExists'' ''zone registered in PowerDNS''"
  have z: "zone_Meta ?z = zone_Meta z" "zone_Spec ?z = zone_Spec z" by (simp_all add: zone_setCond_def)
  then have zn: "zn = zs_ZoneName (zone_Spec ?z)" by (simp add: assms)
  have "settles (world objs c zn known) (zone_dnssec X ?z c pz) (zone_settled z)" for pz
    unfolding zone_dnssec_def
    by (rule settles_andThen [OF silent_ensureDNSSEC [OF zn]]) (auto intro!: settles_finish assms z)
  then have "settles (world objs c zn known) (zone_registered X ?z c pz) (zone_settled z)" for pz
    unfolding zone_registered_def zn [symmetric]
    by (intro settles_andThen [where P = "\<lambda>x. x = Inr ()"])
      (auto intro!: silent_zone_ops(2) silent_Return)
  then show ?thesis
    unfolding reconcileZone_def
    by (intro settles_andThen [OF silent_lookup [OF assms(2)]]) auto
qed

text \<open>A protected Zone with a valid spec whose server admits its namespace.\<close>

definition zone_fit :: "ext \<Rightarrow> PowerDNSServer \<Rightarrow> Zone \<Rightarrow> bool" where
  "zone_fit X s z \<longleftrightarrow> \<not> om_Deleting (zone_Meta z) \<and>
     ContainsFinalizer X (om_Finalizers (zone_Meta z)) zoneFinalizer \<and>
     \<not> (zs_Kind (zone_Spec z) = ZoneKindSecondary \<and> zs_DNSSEC_Enabled (zone_Spec z)) \<and>
     serverKeyFor z = srv_key s \<and> namespaceAllowed s (om_Namespace (zone_Meta z))"

lemma settles_zone:
  assumes "condition_laws X" "zone_fit X s z" "published objs s c"
    and "cached objs KZone key = Some (ObjZone z)" "cached objs KServer (srv_key s) = Some (ObjServer s)"
  shows "settles (world objs c (zs_ZoneName (zone_Spec z)) known) (zone_Reconcile X key) (zone_settled z)"
proof -
  let ?G = "world objs c (zs_ZoneName (zone_Spec z)) known"
  have "settles ?G (zone_withServer X z s) (zone_settled z)"
    using assms(2,3) unfolding zone_withServer_def
    by (auto simp: zone_fit_def published_def
        intro!: settles_andThen [OF silent_client [OF assms(3)]] settles_reconcileZone assms(1))
  then have "settles ?G (zone_body X z) (zone_settled z)"
    using assms(2,5) unfolding zone_body_def andThen_ask
    by (auto simp: zone_fit_def intro!: settles_Call)
  then show ?thesis
    using assms(2,4) unfolding zone_Reconcile_def andThen_ask
    by (auto simp: zone_fit_def intro!: settles_Call)
qed

section \<open>Record sets\<close>

definition rrset_up :: "RRSet \<Rightarrow> RRSet \<Rightarrow> bool" where
  "rrset_up rr rr' \<longleftrightarrow> rr_Meta rr' = rr_Meta rr \<and> rr_Spec rr' = rr_Spec rr \<and>
     rst_ObservedGeneration (rr_Status rr') = om_Generation (rr_Meta rr) \<and>
     rst_FailureMessage (rr_Status rr') = [] \<and> isReady (rst_Conditions (rr_Status rr'))"

definition rrset_settled :: "RRSet \<Rightarrow> error + Result \<Rightarrow> kobj \<Rightarrow> bool" where
  "rrset_settled rr res y \<longleftrightarrow> res = Inr (RequeueAfter resyncInterval) \<and> (\<exists>rr'. y = ObjRRSet rr' \<and> rrset_up rr rr')"

lemma settles_markReady:
  assumes "condition_laws X"
  shows "settles (world objs c zn known) (rrset_markReady X rr) (rrset_settled rr)"
  unfolding rrset_markReady_def Let_def
  by (rule settles_store)
    (auto simp: rrset_settled_def rrset_up_def assms isReady_def setCondOn_Ready)

lemma settles_sync:
  assumes "condition_laws X" "zn = zs_ZoneName (zone_Spec z)"
  shows "settles (world objs c zn True) (rrset_sync X rr z c) (rrset_settled rr)"
proof -
  note ops = silent_zone_ops [of objs c zn True]
  have "settles (world objs c zn True) (rrset_patch X rr z c) (rrset_settled rr)"
    unfolding rrset_patch_def rrset_event_def assms(2) [symmetric]
    by (rule settles_andThen [OF ops(1)])
      (auto intro!: settles_andThen [OF silent_emit] settles_markReady assms(1))
  then show ?thesis
    unfolding rrset_sync_def assms(2) [symmetric]
    by (intro settles_andThen [OF ops(8)]) (auto intro!: settles_markReady assms(1))
qed

text \<open>A protected RRSet inside the Zone \<open>z\<close>, without a rival among the cached objects.\<close>

definition no_rival :: "kobj list \<Rightarrow> RRSet \<Rightarrow> bool" where
  "no_rival objs rr \<longleftrightarrow>
     (\<forall>x. ObjRRSet x \<in> set objs \<longrightarrow> rrsetIndexKeys x = rrsetIndexKeys rr \<longrightarrow> \<not> rival rr x)"

definition rrset_fit :: "ext \<Rightarrow> PowerDNSServer \<Rightarrow> Zone \<Rightarrow> RRSet \<Rightarrow> bool" where
  "rrset_fit X s z rr \<longleftrightarrow> \<not> om_Deleting (rr_Meta rr) \<and>
     ContainsFinalizer X (om_Finalizers (rr_Meta rr)) rrsetFinalizer \<and>
     zoneKeyFor rr = obj_key (ObjZone z) \<and> zs_Kind (zone_Spec z) \<noteq> ZoneKindSecondary \<and>
     nameInZone (rs_Name (rr_Spec rr)) (zs_ZoneName (zone_Spec z)) \<and>
     namespaceAllowed s (om_Namespace (rr_Meta rr))"

lemma silent_findConflict:
  assumes "no_rival objs rr"
  shows "silent (world objs c zn known) (findConflict rr) (\<lambda>x. \<exists>y. x = Inr y \<and> y = [])"
proof -
  let ?v = "refKey (rs_ZoneRef (rr_Spec rr)) (om_Namespace (rr_Meta rr))"
  let ?xs = "filter (\<lambda>x. kind_of x = KRRSet \<and> ?v \<in> set (indexFunc x)) objs"
  have "conflictIn rr (concat (map itemRRSet ?xs)) = []"
    using assms by (auto simp: conflictIn_empty_iff no_rival_def indexFunc_def rrsetIndexKeys_def)
  then show ?thesis
    unfolding findConflict_def by (intro silent_ask) (auto simp: items_def)
qed

lemma settles_rrset:
  assumes "condition_laws X" "rrset_fit X s z rr" "zone_fit X s z" "published objs s c" "no_rival objs rr"
    and "zst_Phase (zone_Status z) = ZonePhaseReady"
    and "cached objs KRRSet key = Some (ObjRRSet rr)" "cached objs KZone (obj_key (ObjZone z)) = Some (ObjZone z)"
    and "cached objs KServer (srv_key s) = Some (ObjServer s)"
  shows "settles (world objs c (zs_ZoneName (zone_Spec z)) True) (rrset_Reconcile X key) (rrset_settled rr)"
proof -
  let ?G = "world objs c (zs_ZoneName (zone_Spec z)) True"
  have "settles ?G (rrset_apply X rr z s) (rrset_settled rr)"
    unfolding rrset_apply_def
    by (rule settles_andThen [OF silent_client [OF assms(4)]]) (auto intro!: settles_sync assms(1))
  then have "settles ?G (rrset_withServer X rr z s) (rrset_settled rr)"
    using assms(2,4,6) unfolding rrset_withServer_def
    by (auto simp: rrset_fit_def published_def intro!: settles_tryIO [OF silent_findConflict [OF assms(5)]])
  then have "settles ?G (rrset_withZone X rr z) (rrset_settled rr)"
    using assms(2,3,9) unfolding rrset_withZone_def andThen_ask
    by (auto simp: rrset_fit_def zone_fit_def intro!: settles_Call)
  then have "settles ?G (rrset_body X rr) (rrset_settled rr)"
    using assms(2,8) unfolding rrset_body_def andThen_ask
    by (auto simp: rrset_fit_def intro!: settles_Call)
  then show ?thesis
    using assms(2,7) unfolding rrset_Reconcile_def andThen_ask
    by (auto simp: rrset_fit_def intro!: settles_Call)
qed

section \<open>A server that went through its phases\<close>

lemma helped_same:
  assumes "helped X key n s s'" "ext_laws X" "admitted X s"
  shows "srv_Meta s' = srv_Meta s \<and> srv_Spec s' = srv_Spec s"
  using assms
proof (induction rule: helped.induct)
  case (one_more n s s1 t res s2 r)
  from helped_phase [OF one_more.hyps(1) one_more.prems] have "admitted X s1" by blast
  with one_more.hyps(2) have "exec (server_body X s1) t res" by (simp add: admitted_pass)
  from server_body_step [OF ext_lawsD(1-3) [OF one_more.prems(1)] this one_more.hyps(4)] have "stored_step s1 t s2"
    by simp
  with one_more.IH [OF one_more.prems] show ?case by (simp add: stored_step_def)
qed simp

lemma helped_serving:
  assumes "helped X key 5 s s'" "ext_laws X" "admitted X s" "srv_Status s = zeroStatus"
  shows "pst_Phase (srv_Status s') = PhaseReady \<and> pst_APIEndpoint (srv_Status s') \<noteq> [] \<and>
    pst_APIKeySecretName (srv_Status s') \<noteq> []"
proof -
  from helped_phase [OF assms(1-3)] assms(4) have ready: "pst_Phase (srv_Status s') = PhaseReady"
    by (simp add: zeroStatus_def numeral_eq_Suc phase_of_iff)
  from helped_evolves [OF assms(1)] assms(4) have "reachable X key s'" by (auto simp: reachable_def)
  from reachable_promise_ok [OF assms(2) this] ready show ?thesis
    by (auto simp: promise_ok_def promised_def Let_def)
qed

section \<open>Tiers\<close>

lemma silent_works:
  assumes "works G p" "calls_only (\<lambda>q. \<forall>y. q \<noteq> KStatusUpdate y) p"
  shows "silent G p (\<lambda>x. \<exists>y. x = Inr y \<and> True)"
proof -
  have "stored tr = []" if "\<And>q r. (q, r) \<in> set tr \<Longrightarrow> \<forall>y. q \<noteq> KStatusUpdate y" for tr
    using that by (induction tr rule: stored.induct) auto
  then have "stored tr = []" if "exec p tr x" for tr x
    using calls_only_exec [OF that assms(2)] by blast
  with assms(1) show ?thesis unfolding silent_def works_def ends_def by simp
qed

lemma world_writes [ends_intros]:
  "works (world objs c zn known) (ask (KCreate x) respUnit)"
  "works (world objs c zn known) (ask (KUpdate x) respUnit)"
  "works (world objs c zn known) (ask (KCreateOrUpdate x) respUnit)"
  "works (world objs c zn known) (ask (KDelete k n) (\<lambda>r. ignoreMissing (respUnit r)))"
  by (auto intro!: works_ask simp: ignoreMissing_def)

lemma world_deleteIfExists [ends_intros]: "works (world objs c zn known) (deleteIfExists k n)"
  unfolding deleteIfExists_def
  by (rule works_ask_then)
    (auto simp: ignoreMissing_def [of "Inl e" for e] intro!: ends_intros split: option.split)

lemma world_upsertOwned [ends_intros]: "works (world objs c zn known) (upsertOwned ow x)"
  by (simp add: upsertOwned_def ends_intros)

lemma cached_kind: "cached objs k n = Some x \<Longrightarrow> kind_of x = k \<and> obj_key x = n"
  by (auto simp: cached_def find_Some_iff)

lemma kind_of_service: "kind_of x = KService \<longleftrightarrow> (\<exists>svc. x = ObjService svc)"
  by (cases x) simp_all

lemma world_updateService:
  assumes "retry_laws X"
  shows "works (world objs c zn known) (updateService X svc)"
proof -
  have "works (world objs c zn known) (updateService_attempt X svc)"
    unfolding updateService_attempt_def
    by (rule works_ask_then)
      (auto simp: Let_def kind_of_service dest!: cached_kind intro!: ends_intros split: option.split)
  with works_retry [OF assms] show ?thesis by (simp add: updateService_def)
qed

lemma owned_total:
  assumes "owner_total X" "om_Owner (svc_Meta svc) = None" "om_Namespace (svc_Meta svc) = ns"
  obtains svc' where "ownedService X ow ns svc = Inr svc'"
proof -
  from assms obtain m where "SetControllerReference X ow ns (svc_Meta svc) = Inr m"
    unfolding owner_total_def by metis
  then show thesis by (intro that) (simp add: ownedService_def)
qed

lemma world_applyAdditional:
  assumes "retry_laws X" "owner_total X"
    and "\<And>r. r \<in> set refs \<Longrightarrow> om_Owner (svc_Meta (sref_Rest r)) = None \<and>
      om_Namespace (svc_Meta (sref_Rest r)) = om_Namespace (dd_Meta d)"
  shows "works (world objs c zn known) (applyAdditional X d st refs)"
  using assms(3)
proof (induction refs arbitrary: st)
  case (Cons r rs)
  let ?st = "setLabel r roleLabel additionalRole st"
  have "om_Owner (svc_Meta (deref ?st r)) = None" "om_Namespace (svc_Meta (deref ?st r)) = om_Namespace (dd_Meta d)"
    using Cons.prems [of r] by (simp_all add: deref_def)
  with assms(2) obtain svc where "ownedService X (dnsdistRef d) (om_Namespace (dd_Meta d)) (deref ?st r) = Inr svc"
    by (rule owned_total)
  with Cons show ?case by (auto simp: Let_def intro!: ends_intros world_updateService assms(1))
qed (simp add: ends_intros)

lemma world_tlsSecrets: "works (world objs c zn known) (tlsSecrets ns acc ls)"
proof (induction ns acc ls rule: tlsSecrets.induct)
  case (2 ns acc l ls)
  have "kind_of x = KSecret \<Longrightarrow> \<exists>sec. x = ObjSecret sec" for x by (cases x) simp_all
  then have "cached objs KSecret n = Some x \<Longrightarrow> \<exists>sec. x = ObjSecret sec" for n x
    using cached_kind by blast
  then have read: "(\<exists>sec. respSecret r = Inr sec) \<or> (\<exists>e. respSecret r = Inl e \<and> err_kind e = KubeNotFound)"
    if "world objs c zn known (KGet KSecret n) r" for n r
    using that by (fastforce split: option.splits)
  have "works (world objs c zn known) (case respSecret r of
      Inl e \<Rightarrow> if err_kind e = KubeNotFound
        then tlsSecrets ns (acc @ [[(''__name__'', tls_CertificateSecretRef l)]]) ls
        else Return (Inl (wrapErr (''get tls secret '' @ tls_CertificateSecretRef l) e))
    | Inr sec \<Rightarrow> tlsSecrets ns (acc @ [sec_Data sec]) ls)"
    if "tls_Enabled l" "world objs c zn known (KGet KSecret (ns, tls_CertificateSecretRef l)) r" for r
    using read [OF that(2)] 2 that(1) by auto
  with 2(1) show ?case unfolding tlsSecrets.simps Let_def by (intro works_if works_ask_then) simp_all
qed (simp add: ends_intros)

lemma world_converge:
  assumes "retry_laws X" "owner_total X"
  shows "works (world objs c zn known) (dnsdist_converge X d addrs)"
proof -
  have "om_Owner (svc_Meta (DNSDistDNSService d)) = None"
    by (simp add: DNSDistDNSService_def applyLBPrimary_def setLB_def setType_def Let_def newMeta_def
        split: option.split)
  with assms(2) obtain svc where
    "ownedService X (dnsdistRef d) (om_Namespace (dd_Meta d)) (DNSDistDNSService d) = Inr svc"
    by (rule owned_total) simp
  then have svc: "works (world objs c zn known) (dnsdist_service X d)"
    by (simp add: dnsdist_service_def ends_intros world_updateService assms(1))
  obtain st refs where refs: "DNSDistAdditionalDNSServices d = (st, refs)" by fastforce
  have "om_Owner (svc_Meta (sref_Rest r)) = None" if "r \<in> set refs" for r
    using refs that by (auto simp: DNSDistAdditionalDNSServices_def Let_def newMeta_def split: if_splits option.splits)
  then have "works (world objs c zn known) (applyAdditional X d st refs)"
    using additional_refs(1) [OF refs] by (intro world_applyAdditional assms) simp
  then have add: "works (world objs c zn known) (reconcileDNSDistAdditionalServices X d)"
    unfolding reconcileDNSDistAdditionalServices_def refs Let_def collectServices_def
    by (auto simp: items_def intro!: ends_intros works_ask)
  show ?thesis
    unfolding dnsdist_converge_def dnsdist_workload_def dnsdistBudget_def reconcileDNSDistRoutes_def Let_def
    by (intro ends_intros svc add world_tlsSecrets)
qed

text \<open>Every backend of the tier is a Ready server whose DNS Service has an address.\<close>

definition backend_up :: "kobj list \<Rightarrow> string \<Rightarrow> string \<Rightarrow> bool" where
  "backend_up objs ns n \<longleftrightarrow> (\<exists>s svc. cached objs KServer (ns, n) = Some (ObjServer s) \<and>
     pst_Phase (srv_Status s) = PhaseReady \<and>
     cached objs KService (ns, nm_DNSService (NameSet s)) = Some (ObjService svc) \<and>
     ss_ClusterIP (svc_Spec svc) \<notin> {[], ''None''})"

definition tier_fit :: "kobj list \<Rightarrow> DNSDist \<Rightarrow> bool" where
  "tier_fit objs d \<longleftrightarrow> \<not> om_Deleting (dd_Meta d) \<and> validateDNSDist d = [] \<and>
     (\<forall>ref \<in> set (ds_BackendRefs (dd_Spec d)). backend_up objs (om_Namespace (dd_Meta d)) (ref_Name ref)) \<and>
     (\<exists>dep. cached objs KDeployment (om_Namespace (dd_Meta d), dn_Deployment (DNSDistNameSet d)) =
        Some (ObjDeployment dep) \<and> available dep)"

lemma silent_backends:
  assumes "\<And>ref. ref \<in> set refs \<Longrightarrow> backend_up objs ns (ref_Name ref)"
  shows "silent (world objs c zn known) (backendsFrom ns addrs refs) (\<lambda>x. \<exists>y. x = Inr y \<and> (\<exists>a. y = Inr a))"
  using assms
proof (induction refs arbitrary: addrs)
  case (Cons ref refs)
  from Cons.prems [of ref] have "silent (world objs c zn known) (backendAddr ns (ref_Name ref))
      (\<lambda>x. \<exists>y. x = Inr y \<and> (\<exists>ip. y = Inr ip))"
    unfolding backendAddr_def andThen_ask
    by (auto simp: backend_up_def serviceAddr_def Let_def intro!: silent_Call silent_ask)
  then show ?case
    unfolding backendsFrom.simps by (rule silent_tryIO) (auto intro!: Cons)
qed (simp add: silent_Return)

definition tier_up :: "DNSDist \<Rightarrow> DNSDist \<Rightarrow> bool" where
  "tier_up d d' \<longleftrightarrow> dd_Meta d' = dd_Meta d \<and> dd_Spec d' = dd_Spec d \<and>
     dst_Phase (dd_Status d') = ZonePhaseReady \<and> dst_FailureMessage (dd_Status d') = [] \<and>
     dst_ObservedGeneration (dd_Status d') = om_Generation (dd_Meta d) \<and> isReady (dst_Conditions (dd_Status d'))"

definition tier_settled :: "DNSDist \<Rightarrow> error + Result \<Rightarrow> kobj \<Rightarrow> bool" where
  "tier_settled d res y \<longleftrightarrow> res = Inr (RequeueAfter requeueLong) \<and> (\<exists>d'. y = ObjDNSDist d' \<and> tier_up d d')"

lemma final_kept:
  "dd_Meta (dnsdist_final X d dep e) = dd_Meta d" "dd_Spec (dnsdist_final X d dep e) = dd_Spec d"
  "dst_Phase (dd_Status (dnsdist_final X d dep e)) = ZonePhaseReady"
  "dst_FailureMessage (dd_Status (dnsdist_final X d dep e)) = []"
  by (simp_all add: dnsdist_final_def Let_def dnsdist_setCond_def)

lemma settles_refresh:
  assumes "condition_laws X" "dd_Meta d1 = dd_Meta d" "dd_Spec d1 = dd_Spec d" "tier_fit objs d"
  shows "settles (world objs c zn known) (refreshDNSDistStatus X d1) (tier_settled d)"
proof -
  have names: "DNSDistNameSet d1 = DNSDistNameSet d" using assms(2) by (simp add: DNSDistNameSet_def Let_def)
  from assms(4) obtain dep where dep: "cached objs KDeployment (om_Namespace (dd_Meta d), dn_Deployment (DNSDistNameSet d)) =
      Some (ObjDeployment dep)" "available dep" by (auto simp: tier_fit_def)
  have ep: "silent (world objs c zn known) (dnsdist_endpoint d1) (\<lambda>_. True)"
    unfolding dnsdist_endpoint_def Let_def andThen_ask by (auto intro!: silent_Call silent_Return)
  have "settles (world objs c zn known)
      (tryIO (ask (KStatusUpdate (ObjDNSDist (dnsdist_final X d1 dep e))) respUnit)
        (\<lambda>_. Return (Inr (RequeueAfter requeueLong)))) (tier_settled d)" for e
    by (rule settles_store) (auto simp: tier_settled_def tier_up_def final_ready final_kept assms dep(2))
  then have "settles (world objs c zn known) (andThen (dnsdist_endpoint d1) (\<lambda>e.
      tryIO (ask (KStatusUpdate (ObjDNSDist (dnsdist_final X d1 dep e))) respUnit)
        (\<lambda>_. Return (Inr (RequeueAfter requeueLong))))) (tier_settled d)"
    by (intro settles_andThen [OF ep])
  then show ?thesis
    unfolding refreshDNSDistStatus_def assms(2) names
    by (intro settles_tryIO [where P = "\<lambda>x. x = dep"] silent_ask) (simp_all add: dep(1))
qed

lemma settles_tier:
  assumes "ext_laws X" "owner_total X" "tier_fit objs d" "cached objs KDNSDist key = Some (ObjDNSDist d)"
  shows "settles (world objs c zn known) (dnsdist_Reconcile X key) (tier_settled d)"
proof -
  let ?G = "world objs c zn known"
  let ?d = "dnsdist_setCond X ConditionBackendsReady ''True'' ''BackendsReady'' ''all backends Ready'' d"
  note laws = assms(1) [unfolded ext_laws_def]
  have "calls_only (\<lambda>q. \<forall>y. q \<noteq> KStatusUpdate y) (dnsdist_converge X ?d addrs)" for addrs
    by (rule calls_only_mono [OF calls_converge]) (use laws in auto)
  then have "silent ?G (dnsdist_converge X ?d addrs) (\<lambda>x. \<exists>y. x = Inr y \<and> True)" for addrs
    by (intro silent_works world_converge assms(2)) (use laws in auto)
  then have "settles ?G (tryIO (dnsdist_converge X ?d addrs) (\<lambda>_. refreshDNSDistStatus X ?d)) (tier_settled d)" for addrs
    by (rule settles_tryIO) (intro settles_refresh assms(3), use laws in auto)
  then have "settles ?G (dnsdist_body X d) (tier_settled d)"
    using assms(3) unfolding dnsdist_body_def backendsReady_def Let_def
    by (auto simp: tier_fit_def intro!: settles_tryIO [OF silent_backends])
  then show ?thesis
    using assms(3,4) unfolding dnsdist_Reconcile_def andThen_ask
    by (auto simp: tier_fit_def intro!: settles_Call)
qed

section \<open>From a declaration to an answer\<close>

text \<open>The cluster in which a server, its API key Secret, a Zone and an RRSet of it are cached.\<close>

definition cluster :: "PowerDNSServer \<Rightarrow> Secret \<Rightarrow> Zone \<Rightarrow> RRSet \<Rightarrow> kobj list \<Rightarrow> kobj list" where
  "cluster s sec z rr others = ObjServer s # ObjSecret sec # ObjZone z # ObjRRSet rr # others"

lemma cached_cluster:
  "cached (cluster s sec z rr others) KServer (srv_key s) = Some (ObjServer s)"
  "cached (cluster s sec z rr others) KSecret (obj_key (ObjSecret sec)) = Some (ObjSecret sec)"
  "cached (cluster s sec z rr others) KZone (obj_key (ObjZone z)) = Some (ObjZone z)"
  "cached (cluster s sec z rr others) KRRSet (obj_key (ObjRRSet rr)) = Some (ObjRRSet rr)"
  by (simp_all add: cached_def cluster_def srv_key_def obj_key_def)

lemma cluster_no_rival: "no_rival others rr \<Longrightarrow> no_rival (cluster s sec z rr others) rr"
  by (auto simp: no_rival_def cluster_def rival_def)

definition keyed :: "PowerDNSServer \<Rightarrow> Secret \<Rightarrow> Client \<Rightarrow> bool" where
  "keyed s sec c \<longleftrightarrow>
     obj_key (ObjSecret sec) = (om_Namespace (srv_Meta s), pst_APIKeySecretName (srv_Status s)) \<and> client_of s sec c"

lemma helped_published:
  assumes "helped X key 5 s s'" "ext_laws X" "admitted X s" "srv_Status s = zeroStatus" "keyed s' sec c"
  shows "published (cluster s' sec z rr others) s' c"
  using helped_serving [OF assms(1-4)] assms(5) cached_cluster(2) [of s' sec z rr others]
  by (auto simp: published_def keyed_def)

text \<open>
  A pass over the Zone \<open>z\<close> that stores \<open>z'\<close>, whether or not PowerDNS knows the zone already; a pass
  over the RRSet \<open>rr\<close> of the zone \<open>zn\<close> that stores \<open>rr'\<close>, the zone being known.
\<close>

definition zone_pass :: "ext \<Rightarrow> kobj list \<Rightarrow> Client \<Rightarrow> Zone \<Rightarrow> Zone \<Rightarrow> bool" where
  "zone_pass X objs c z z' \<longleftrightarrow> (\<exists>tr res. exec (zone_Reconcile X (obj_key (ObjZone z))) tr res \<and>
     answered (world objs c (zs_ZoneName (zone_Spec z)) False) tr \<and> ObjZone z' \<in> set (stored tr))"

definition rrset_pass :: "ext \<Rightarrow> kobj list \<Rightarrow> Client \<Rightarrow> string \<Rightarrow> RRSet \<Rightarrow> RRSet \<Rightarrow> bool" where
  "rrset_pass X objs c zn rr rr' \<longleftrightarrow> (\<exists>tr res. exec (rrset_Reconcile X (obj_key (ObjRRSet rr))) tr res \<and>
     answered (world objs c zn True) tr \<and> ObjRRSet rr' \<in> set (stored tr))"

lemma settles_run:
  assumes "settles (world objs c zn known) p Q"
  obtains tr x y where "exec p tr x" "answered (world objs c zn known) tr" "stored tr = [y]" "Q x y"
proof -
  have "\<exists>r. world objs c zn known q r" for q by (rule world_total)
  from answered_exists [of "world objs c zn known" p, OF this] obtain tr x
    where run: "exec p tr x" "answered (world objs c zn known) tr" by blast
  from settlesD [OF assms run] obtain y where "stored tr = [y]" "Q x y" .
  with run show thesis by (rule that)
qed

lemma zone_passes:
  assumes "settles (world objs c (zs_ZoneName (zone_Spec z)) False) (zone_Reconcile X (obj_key (ObjZone z))) (zone_settled z)"
  shows "(\<exists>z'. zone_pass X objs c z z') \<and> (\<forall>z'. zone_pass X objs c z z' \<longrightarrow> zone_up z z')"
proof
  show "\<exists>z'. zone_pass X objs c z z'"
    using assms by (rule settles_run) (fastforce simp: zone_pass_def zone_settled_def)
  show "\<forall>z'. zone_pass X objs c z z' \<longrightarrow> zone_up z z'"
    unfolding zone_pass_def by (auto simp: zone_settled_def elim: settlesD [OF assms])
qed

lemma rrset_passes:
  assumes "settles (world objs c zn True) (rrset_Reconcile X (obj_key (ObjRRSet rr))) (rrset_settled rr)"
  shows "(\<exists>rr'. rrset_pass X objs c zn rr rr') \<and> (\<forall>rr'. rrset_pass X objs c zn rr rr' \<longrightarrow> rrset_up rr rr')"
proof
  show "\<exists>rr'. rrset_pass X objs c zn rr rr'"
    using assms by (rule settles_run) (fastforce simp: rrset_pass_def rrset_settled_def)
  show "\<forall>rr'. rrset_pass X objs c zn rr rr' \<longrightarrow> rrset_up rr rr'"
    unfolding rrset_pass_def by (auto simp: rrset_settled_def elim: settlesD [OF assms])
qed

lemma fit_cong:
  assumes "srv_Meta s' = srv_Meta s" "srv_Spec s' = srv_Spec s"
    and "zone_Meta z' = zone_Meta z" "zone_Spec z' = zone_Spec z"
  shows "zone_fit X s' z' = zone_fit X s z" "rrset_fit X s' z' rr = rrset_fit X s z rr"
  unfolding zone_fit_def rrset_fit_def srv_key_def namespaceAllowed_def serverKeyFor_def obj_key_def obj_meta.simps assms
  by (rule refl)+



text \<open>
  C39: A valid tier gets Ready.  If every backend of a DNSDist is a Ready server whose DNS Service
  has an address, and the tier's Deployment has all its replicas available, then a pass over the
  DNSDist against such a cluster stores exactly one status, Ready for the current generation, and
  asks to be run again after the long interval; and such a pass exists.
\<close>
theorem tier_gets_ready:
  assumes "ext_laws X" "owner_total X" "tier_fit objs d" "cached objs KDNSDist key = Some (ObjDNSDist d)"
  shows "(\<exists>tr res. exec (dnsdist_Reconcile X key) tr res \<and> answered (world objs c zn known) tr) \<and>
    (\<forall>tr res. exec (dnsdist_Reconcile X key) tr res \<and> answered (world objs c zn known) tr \<longrightarrow>
      res = Inr (RequeueAfter requeueLong) \<and> (\<exists>d'. stored tr = [ObjDNSDist d'] \<and> tier_up d d'))"
proof (intro conjI allI impI)
  show "\<exists>tr res. exec (dnsdist_Reconcile X key) tr res \<and> answered (world objs c zn known) tr"
    by (rule answered_exists [OF world_total])
  fix tr res
  assume run: "exec (dnsdist_Reconcile X key) tr res \<and> answered (world objs c zn known) tr"
  with settles_tier [OF assms] obtain y where y: "stored tr = [y]" "tier_settled d res y" by (blast elim: settlesD)
  then show "res = Inr (RequeueAfter requeueLong)" by (simp add: tier_settled_def)
  from y show "\<exists>d'. stored tr = [ObjDNSDist d'] \<and> tier_up d d'" by (auto simp: tier_settled_def)
qed

definition demoTierObjects :: "kobj list" where
  "demoTierObjects = [ObjDNSDist demoTier, ObjServer demoServer, ObjService demoBackendService,
     ObjDeployment demoDeployment]"

lemma demoTier_fit: "tier_fit demoTierObjects demoTier"
proof -
  have "cached demoTierObjects KServer (''dns'', ''pdns'') = Some (ObjServer demoServer)"
    "cached demoTierObjects KService (''dns'', nm_DNSService (NameSet demoServer)) = Some (ObjService demoBackendService)"
    "cached demoTierObjects KDeployment (''dns'', dn_Deployment (DNSDistNameSet demoTier)) = Some (ObjDeployment demoDeployment)"
    by code_simp+
  moreover have "available demoDeployment" "validateDNSDist demoTier = []" "\<not> om_Deleting (dd_Meta demoTier)"
    "om_Namespace (dd_Meta demoTier) = ''dns''" "map ref_Name (ds_BackendRefs (dd_Spec demoTier)) = [''pdns'']"
    "pst_Phase (srv_Status demoServer) = PhaseReady" "ss_ClusterIP (svc_Spec demoBackendService) = ''10.0.0.9''"
    by code_simp+
  ultimately show ?thesis by (auto simp: tier_fit_def backend_up_def)
qed

theorem tier_gets_ready_witness:
  "\<exists>tr d'. exec (dnsdist_Reconcile refExt (''dns'', ''edge'')) tr (Inr (RequeueAfter requeueLong)) \<and>
     stored tr = [ObjDNSDist d'] \<and> tier_up demoTier d'"
proof -
  have "cached demoTierObjects KDNSDist (''dns'', ''edge'') = Some (ObjDNSDist demoTier)" by code_simp
  from tier_gets_ready [OF refExt_laws refExt_helpful(1) demoTier_fit this] show ?thesis by blast
qed

end
