(* ===== verification/Spec2Isabelle.thy ===== *)
theory Spec2Isabelle
  imports RRSet_Correct Zone_Correct Manifests_Correct Converge_Correct DNSDist_Correct Server_Writes
    Deep_Copy Permissions Data_Liveness
begin

text \<open>
  A verification of the aether-powerdns operator (the Go sources under \<open>src/\<close>).

  \<^bold>\<open>The program.\<close>  The operator runs authoritative PowerDNS servers on Kubernetes.  Four
  reconcilers work on four custom resources: \<open>PowerDNSServer\<close> (a server with its database),
  \<open>DNSDist\<close> (a front-end tier for Ready servers), \<open>Zone\<close> and \<open>RRSet\<close> (DNS data, written through the HTTP
  API of a Ready server).  The API server calls a reconciler with a name; the reconciler reads the
  object, compares, issues requests and stores a status.  The reconcilers share no memory: they
  interact only through the objects they read and write, so every property is stated over one pass
  with arbitrary answers, or over a sequence of such passes.  \<open>cmd/operator/main.go\<close> builds the
  scheme, registers the four controllers with their indexes and watches, and starts the manager;
  objects handed out by its cache are copied with the generated \<open>DeepCopy\<close> methods.

  \<^bold>\<open>How code becomes definitions.\<close>  \<open>Interaction\<close> defines programs that issue requests and continue with
  responses (\<open>io\<close>), their executions (\<open>exec\<close>), runs against a script of answers, and the set of
  requests a program can issue (\<open>calls_only\<close>).  \<open>Kube_Client\<close> fixes the requests: the calls of
  controller-runtime's client, the event recorder, the HTTP transport and \<open>crypto/rand\<close>.  These are
  not code of the repository, so their answers are arbitrary in every theorem.  The third-party
  functions on values (finalizer lists, status conditions, owner references, semantic equality,
  the conflict retry, \<open>NestedInt64\<close>) are the fields of the record \<open>ext\<close>, an argument of the
  definitions; \<open>finalizer_laws\<close>, \<open>condition_laws\<close>, \<open>equality_laws\<close>, \<open>owner_laws\<close>, \<open>retry_laws\<close> (together
  \<open>ext_laws\<close>), \<open>owner_total\<close> and \<open>nested_laws\<close> state their documented behaviour and \<open>refExt\<close> satisfies all
  of them.  A Go method becomes a definition of the same name, prefixed by the resource where two
  controllers use the same name; \<open>if err != nil { return err }\<close> is \<open>tryIO\<close>, an error is a value of
  \<open>error + 'a\<close>; a loop is a \<open>fun\<close> over the slice, or \<open>forIO\<close>.  A method that changes an object in
  memory returns the changed record.  Every program is a finite tree of requests, so every pass
  ends; no fuel is needed.

  \<^bold>\<open>Theories.\<close>
  \<^item> \<open>Go_Prelude\<close>: Go strings, maps, slices and errors, with the library functions the sources use.
  \<^item> \<open>Pdns_Types\<close>, \<open>Pdns_Client\<close>: \<open>internal/pdnsclient/client.go\<close>, its JSON and its nine operations.
  \<^item> \<open>Api_Types\<close>: \<open>api/v1alpha1\<close>.  \<open>Kube_Objects\<close>: the Kubernetes objects the operator renders and reads.
  \<^item> \<open>Controller_Common\<close>: \<open>conditions.go\<close>, \<open>pdnsaccess.go\<close> and shared helpers.  The locale
    \<open>finalizer_protocol\<close> is the opening of a reconciler with a finalizer; it is interpreted for
    Zone, RRSet and PowerDNSServer.
  \<^item> \<open>Zone_Controller\<close>, \<open>Zone_Correct\<close> and \<open>RRSet_Controller\<close>, \<open>RRSet_Correct\<close>: \<open>zone_controller.go\<close> and
    \<open>rrset_controller.go\<close>.
  \<^item> \<open>Sha256\<close>, \<open>Manifests\<close>, \<open>Manifests_DNSDist\<close>, \<open>Manifests_Routes\<close>, \<open>Manifests_Correct\<close>: \<open>internal/manifests\<close>
    and \<open>internal/cnpg\<close>.  Go maps are references; where two fields share one map that is later
    written to (the additional Services of a DNSDist) the maps live in an explicit store.
  \<^item> \<open>Converge\<close>, \<open>Converge_Correct\<close>: \<open>converge.go\<close>.  The locale \<open>upsert\<close> is the contract of one attempt to
    bring an object to its declared form; it is interpreted for Services, ConfigMaps and the
    backend Secret.
  \<^item> \<open>DNSDist_Controller\<close>, \<open>DNSDist_Correct\<close>: \<open>dnsdist_controller.go\<close>.
  \<^item> \<open>Server_Children\<close> (Secrets, workload, routes, garbage collection) and \<open>Server_Controller\<close>
    (validation, the phase handlers, the Ready loop): \<open>powerdnsserver_controller.go\<close>.
  \<^item> \<open>Server_Requests\<close>: the requests of every helper and phase.  \<open>Server_Phases\<close>: the abstract phase machine
    \<open>abs_step\<close>, the simulation (locale \<open>simulation\<close>), reachable servers and their invariant.
    \<open>Server_Liveness\<close>: programs run against given answers, progress.  \<open>Server_Correct\<close>, \<open>Server_Writes\<close>: the
    properties.
  \<^item> \<open>Go_Memory\<close>: a heap of Go values (pointers, slices with their backing arrays, maps), with types,
    contents and reachable cells; \<open>deep_copier\<close> is the contract of a deep copy.  \<open>Deep_Copy\<close>: the layouts
    of the API types and every method of \<open>zz_generated.deepcopy.go\<close>, and the types
    \<open>groupversion_info.go\<close> registers.  Copies of Kubernetes types are the fields of the record
    \<open>machinery\<close>, assumed deep (\<open>machinery_ok\<close>).
  \<^item> \<open>Api_Usage\<close>: a table per reconciler of the kinds it reads, lists and writes; the locale \<open>confined\<close>
    is the interface of a reconciler to the operator's configuration, interpreted for all four.
  \<^item> \<open>Operator\<close>: \<open>main.go\<close> as a program over the calls to the manager, the \<open>SetupWithManager\<close> methods,
    index functions and watches.  \<open>Permissions\<close>: \<open>config/rbac/rbac.yaml\<close> and the kubebuilder markers.
  \<^item> \<open>Data_Liveness\<close>: passes against a cluster whose cache holds a given list of objects and a
    PowerDNS that accepts what it is sent; the composition of server, Zone and RRSet.

  \<^bold>\<open>What is shown.\<close>
  \<^item> Zones and RRSets: a Ready status is stored only after PowerDNS confirmed the data in the same
    pass; every HTTP request concerns the declared zone or record set and follows all admission
    checks; creation is atomic with its SOA record; a finalizer is released only when the data is
    gone or an escape hatch applies; conflicting RRSets reject each other.
  \<^item> The HTTP client: outcomes are classified by the reply, paths are unambiguous, JSON round-trips.
  \<^item> Manifests: reserved settings cannot be overridden, validation agrees with rendering, output is
    independent of map order, Services reach their pods, the NetworkPolicy is exact, every variable
    of the container is defined.
  \<^item> Convergence: a successful update leaves the declared shape, keeps what others own, and a
    converged object is not written again.
  \<^item> DNSDist: only Ready backends are configured, Ready is honest, children are owned, garbage
    collection is exact.
  \<^item> PowerDNSServer: the handlers refine the abstract phase machine; the status invariant holds in
    every reachable state; no Deployment before the schema; the backend Secret is complete before
    the schema Job; valid servers get Ready in five helpful passes; the phase changes at most five
    times; a Ready server has what the Zone and RRSet reconcilers need from it; writes are owned,
    named and typed; disruption budgets leave room for a drain.
  \<^item> End to end: a valid server gets Ready, then a Zone of it, then an RRSet of that Zone, each pass
    reading what the ones before have stored; a tier of Ready servers gets Ready in one pass.
  \<^item> The process: it starts completely or not at all; whatever a running reconciler asks for is in
    the scheme, indexed and permitted; a change of an object wakes exactly its dependents; what a
    reconciler writes is watched or deliberately left to the periodic requeue.
  \<^item> Deep copies: the copy of a registered object has the same contents and shares no memory.
  \<^item> Where the code does not do what its comments say, the theorem states what it does: the
    additional Services of a tier select no pod, and a server's garbage collection deletes the
    additional Services of a DNSDist of the same name.

  \<^bold>\<open>Bounds and abstractions.\<close>  \<open>int32\<close> and \<open>int64\<close> fields are integers: the sources compute only
  \<open>replicas - 1\<close> on them, under \<open>replicas > 1\<close>; SHA-256 works on 32-bit words.  The resource version
  is not modelled: a conflict is one of the answers an update can get.  Log output is dropped.
  Case mapping and white space of Go's string functions are those of ASCII.

  \<^bold>\<open>Not modelled.\<close>  Every component of the Go sources is modelled.  Third-party code is not: the
  manager, its cache and its work queue, the tokeniser of the \<open>flag\<close> package and the zap logger stand
  outside as calls or parameters.  The validation markers of the custom resource definitions are
  enforced by the API server and are not assumed: every theorem holds for objects that violate
  them.
\<close>

end
